(* ===== verification/Prelude.thy ===== *)
theory Prelude
  imports Main "HOL-Library.Word"
begin

text \<open>
  Types, return codes and generic lemmas shared by every component.

  The C code is compiled for an LP64 platform: \<^verbatim>\<open>ngx_uint_t\<close>, \<^verbatim>\<open>ngx_msec_t\<close>,
  \<^verbatim>\<open>size_t\<close> and \<^verbatim>\<open>uint64_t\<close> are 64 bits wide, and all of them are the
  type \<open>u64\<close> here, so every addition and multiplication wraps as it does in C.  Byte strings
  (\<^verbatim>\<open>ngx_str_t\<close>, socket addresses) are \<open>string\<close>: a HOL \<open>char\<close> is one byte, and the
  length field of the C structure is the length of the list.
\<close>

unbundle bit_operations_syntax

section \<open>Types and return codes\<close>

type_synonym u32 = "32 word"
type_synonym u64 = "64 word"
type_synonym bytes = string

text \<open>Process ids are signed; 0 is the free lock word and -1 is \<^verbatim>\<open>NGX_INVALID_PID\<close>.\<close>

type_synonym pid = int

abbreviation (input) NGX_INVALID_PID :: pid where "NGX_INVALID_PID \<equiv> - 1"
abbreviation UINT64_MAX :: u64 where "UINT64_MAX \<equiv> - 1"

text \<open>The return codes of nginx that the module's own functions use.\<close>

datatype ngx_rc = NGX_OK | NGX_ERROR | NGX_AGAIN | NGX_BUSY | NGX_DONE | NGX_DECLINED

section \<open>Collections of facts\<close>

named_theorems time_simps \<open>saturating time arithmetic read as natural numbers\<close>
named_theorems cell_simps \<open>what a published cell reads after an operation\<close>
named_theorems frame_simps \<open>fields that an operation leaves unchanged\<close>

section \<open>Words\<close>

lemma unat_max_u64: "unat UINT64_MAX = 2 ^ 64 - 1"
  by (simp add: unsigned_minus_1_eq_mask mask_eq_exp_minus_1)

lemma unat_less_2p64: "unat (a :: u64) < 2 ^ 64"
  using unsigned_less [of a] by simp

lemma unat_le_max: "unat (a :: u64) \<le> 2 ^ 64 - 1"
  using unat_less_2p64 [of a] by simp

lemma u64_le_max [simp]: "(a :: u64) \<le> UINT64_MAX"
  by simp

lemma unat_max_minus: "unat (UINT64_MAX - b) = 2 ^ 64 - 1 - unat (b :: u64)"
proof -
  have "b \<le> UINT64_MAX" by simp
  then show ?thesis by (simp only: unat_sub unat_max_u64)
qed

lemma u64_gt_max_minus: "(a :: u64) > UINT64_MAX - b \<longleftrightarrow> 2 ^ 64 \<le> unat a + unat b"
  using unat_less_2p64 [of a] unat_less_2p64 [of b]
  by (simp only: word_less_nat_alt unat_max_minus) linarith

lemma unat_add_no_wrap: "unat a + unat b < 2 ^ 64 \<Longrightarrow> unat (a + b :: u64) = unat a + unat b"
  by (simp add: unat_add_lem [symmetric])

lemma unat_mult_no_wrap: "unat a * unat b < 2 ^ 64 \<Longrightarrow> unat (a * b :: u64) = unat a * unat b"
  by (simp add: unat_mult_lem [symmetric])

lemma unat_suc_no_wrap: "a \<noteq> UINT64_MAX \<Longrightarrow> unat (a + 1 :: u64) = Suc (unat a)"
proof -
  assume "a \<noteq> UINT64_MAX"
  then have "1 + a \<noteq> 0" by (metis add.commute add_eq_0_iff)
  then show ?thesis by (simp add: unatSuc add.commute)
qed

lemma u64_suc_nonzero: "(a :: u64) \<noteq> UINT64_MAX \<Longrightarrow> a + 1 \<noteq> 0"
  by (metis add.commute add_eq_0_iff)

lemma u64_less_suc: "(a :: u64) \<noteq> UINT64_MAX \<Longrightarrow> a < a + 1"
  by (simp add: word_less_nat_alt unat_suc_no_wrap)

lemma unat_div_u64: "unat (a div b :: u64) = unat a div unat b"
  by (simp add: unat_div)

lemma drop_bit_1_u64 [simp]: "drop_bit (Suc 0) (a :: u64) = a div 2"
  by (simp add: drop_bit_Suc)

lemma unat_half: "unat (a div 2 :: u64) = unat a div 2"
  by (simp add: unat_div_u64)

lemma unat_eq_zero_iff: "unat (a :: u64) = 0 \<longleftrightarrow> a = 0"
  by (simp add: unat_eq_0)

lemma u64_and_one_cases: "(a :: u64) AND 1 = 0 \<or> a AND 1 = 1"
  by (simp add: and_one_eq mod_2_eq_odd)

section \<open>Lists\<close>

lemma list_update_map_fixed:
  "i < length xs \<Longrightarrow> f y = f (xs ! i) \<Longrightarrow> map f (xs[i := y]) = map f xs"
  by (simp add: map_update list_update_same_conv)

lemma last_snoc_filter: "P x \<Longrightarrow> last (filter P (xs @ [x])) = x"
  by simp

section \<open>Decimal numerals\<close>

text \<open>What nginx's formats \<^verbatim>\<open>%ui\<close> and \<^verbatim>\<open>%uL\<close> print for a number.\<close>

definition digit :: "nat \<Rightarrow> char" where
  "digit d = char_of (48 + d)"

fun decimal :: "nat \<Rightarrow> string" where
  "decimal n = (if n < 10 then [digit n] else decimal (n div 10) @ [digit (n mod 10)])"

declare decimal.simps [simp del]

definition undecimal :: "string \<Rightarrow> nat" where
  "undecimal s = foldl (\<lambda>n c. 10 * n + (of_char c - 48)) 0 s"

lemma of_char_digit: "d < 10 \<Longrightarrow> (of_char (digit d) :: nat) = 48 + d"
  by (simp add: digit_def take_bit_nat_eq_self)

lemma undecimal_decimal: "undecimal (decimal n) = n"
proof (induction n rule: decimal.induct)
  case (1 n)
  then show ?case
    by (cases "n < 10") (simp_all add: decimal.simps [of n] undecimal_def of_char_digit)
qed

lemma decimal_inject: "decimal m = decimal n \<longleftrightarrow> m = n"
  by (metis undecimal_decimal)

end
