(* ===== verification/Delay.thy ===== *)
theory Delay
  imports Prelude
begin

text \<open>
  The latency statistics of \<^verbatim>\<open>ngx_healthcheck_common.c\<close>: \<^verbatim>\<open>ngx_healthcheck_update_delay\<close>
  folds one sample into a running total and count, rescaling both when the 64-bit total or the
  sample count would overflow.
\<close>

section \<open>The statistics and their update\<close>

record delay_stats =
  ds_last :: u64
  ds_avg :: u64
  ds_min :: u64
  ds_max :: u64
  ds_total :: u64
  ds_count :: u64

text \<open>
  The loop of the rescaling branch: halve the count until \<open>old_avg * count + delay\<close> fits.
  \<open>None\<close> is the early \<^verbatim>\<open>return NGX_ERROR\<close>; the second component is the pair
  \<open>(total, count)\<close> the C structure holds at that moment.
\<close>

function delay_shrink :: "u64 \<Rightarrow> u64 \<Rightarrow> u64 \<Rightarrow> u64 \<Rightarrow> bool \<times> u64 \<times> u64" where
  "delay_shrink old_avg delay tot count =
     (if tot > UINT64_MAX - delay
      then (let count' = drop_bit 1 count
            in if count' = 0 then (False, tot, count')
               else delay_shrink old_avg delay (old_avg * count') count')
      else (True, tot, count))"
  by pat_completeness auto
termination
proof (relation "measure (\<lambda>(a, d, t, c). unat c)", goal_cases)
  case 1
  show ?case by simp
next
  case (2 a d t c x)
  then have "unat c div 2 \<noteq> 0"
    by (metis One_nat_def drop_bit_1_u64 unat_half unat_eq_zero_iff)
  with 2 show ?case by (simp add: unat_half)
qed

declare delay_shrink.simps [simp del]

text \<open>The new count before the loop: half plus one, at most what \<open>old_avg\<close> allows.\<close>

definition delay_clamp :: "u64 \<Rightarrow> u64 \<Rightarrow> u64" where
  "delay_clamp old_avg count =
     (if old_avg \<noteq> 0 \<and> count > UINT64_MAX div old_avg then UINT64_MAX div old_avg else count)"

definition delay_rescale :: "u64 \<Rightarrow> u64 \<Rightarrow> u64 \<Rightarrow> bool \<times> u64 \<times> u64" where
  "delay_rescale tot count delay =
     (let old_avg = tot div count;
          count' = delay_clamp old_avg (drop_bit 1 count + 1)
      in if count' = 0 then (False, tot, count')
         else delay_shrink old_avg delay (old_avg * count') count')"

text \<open>
  The whole function.  The pointer may be NULL (\<open>None\<close>).  The structure is updated in place, so
  the error returns hand back the partly updated fields too.
\<close>

definition ngx_healthcheck_update_delay ::
  "delay_stats option \<Rightarrow> u64 \<Rightarrow> ngx_rc \<times> delay_stats option" where
  "ngx_healthcheck_update_delay stats delay =
     (case stats of
        None \<Rightarrow> (NGX_ERROR, None)
      | Some s \<Rightarrow>
          if ds_count s = 0
          then (NGX_OK, Some (s\<lparr>ds_total := delay, ds_count := 1, ds_last := delay,
                                ds_avg := delay, ds_min := delay, ds_max := delay\<rparr>))
          else
            (let (fits, tot, count) =
               (if ds_total s > UINT64_MAX - delay \<or> ds_count s = UINT64_MAX
                then delay_rescale (ds_total s) (ds_count s) delay
                else (True, ds_total s, ds_count s))
             in if \<not> fits
                then (NGX_ERROR, Some (s\<lparr>ds_total := tot, ds_count := count\<rparr>))
                else let tot' = tot + delay; count' = count + 1 in
                  if count' = 0
                  then (NGX_ERROR, Some (s\<lparr>ds_total := tot', ds_count := count'\<rparr>))
                  else (NGX_OK, Some (s\<lparr>ds_total := tot', ds_count := count',
                          ds_last := delay, ds_avg := tot' div count',
                          ds_min := (if delay < ds_min s then delay else ds_min s),
                          ds_max := (if delay > ds_max s then delay else ds_max s)\<rparr>))))"

section \<open>The invariant\<close>

text \<open>
  The average is the truncated quotient of total and count, and the total lies between \<open>count\<close>
  times the least and \<open>count\<close> times the greatest sample.  Rescaling replaces the total by
  \<open>old_avg * count\<close>, which keeps both.
\<close>

definition delay_wf :: "delay_stats \<Rightarrow> bool" where
  "delay_wf s \<longleftrightarrow> ds_count s = 0 \<or>
     (unat (ds_min s) * unat (ds_count s) \<le> unat (ds_total s) \<and>
      unat (ds_total s) \<le> unat (ds_max s) * unat (ds_count s) \<and>
      ds_avg s = ds_total s div ds_count s \<and>
      ds_min s \<le> ds_last s \<and> ds_last s \<le> ds_max s)"

lemma div_between:
  assumes "(c::nat) > 0" "lo * c \<le> t" "t \<le> hi * c"
  shows "lo \<le> t div c" and "t div c \<le> hi"
proof -
  show "lo \<le> t div c" using assms(1,2) by (simp only: less_eq_div_iff_mult_less_eq)
  have "t div c \<le> (hi * c) div c" using assms(3) by (rule div_le_mono)
  then show "t div c \<le> hi" using assms(1) by simp
qed

lemma delay_wf_avg_between:
  assumes "delay_wf s" and "ds_count s \<noteq> 0"
  shows "ds_min s \<le> ds_avg s" and "ds_avg s \<le> ds_max s"
proof -
  have "unat (ds_count s) > 0" using assms(2) by (simp add: unat_gt_0)
  from div_between [OF this] assms
  show "ds_min s \<le> ds_avg s" "ds_avg s \<le> ds_max s"
    by (auto simp: delay_wf_def word_le_nat_alt unat_div_u64)
qed

lemma delay_shrink_keeps:
  assumes "delay_shrink a d t c = (True, t', c')" and "c \<noteq> 0"
    and "unat t = unat a * unat c"
  shows "unat t' = unat a * unat c' \<and> c' \<noteq> 0 \<and> unat c' \<le> unat c \<and> unat t' + unat d < 2 ^ 64"
  using assms
proof (induction a d t c rule: delay_shrink.induct)
  case (1 a d t c)
  show ?case
  proof (cases "t > UINT64_MAX - d")
    case False
    with 1 show ?thesis by (auto simp: delay_shrink.simps [of a d t c] u64_gt_max_minus)
  next
    case True
    let ?c = "drop_bit 1 c"
    have nz: "?c \<noteq> 0" using True 1(2)
      by (auto simp: delay_shrink.simps [of a d t c] Let_def split: if_splits)
    have le: "unat ?c \<le> unat c" by (simp add: unat_half)
    have "unat a * unat ?c \<le> unat t" unfolding 1(4) using le by simp
    then have "unat (a * ?c) = unat a * unat ?c"
      using unat_less_2p64 [of t] by (intro unat_mult_no_wrap) linarith
    with 1(1) [OF True refl nz _ nz] 1(2) True nz le show ?thesis
      by (auto simp: delay_shrink.simps [of a d t c] Let_def)
  qed
qed

lemma delay_shrink_succeeds:
  assumes "c \<noteq> 0" and "unat a + unat d < 2 ^ 64" and "unat t = unat a * unat c"
  shows "fst (delay_shrink a d t c)"
  using assms
proof (induction a d t c rule: delay_shrink.induct)
  case (1 a d t c)
  show ?case
  proof (cases "t > UINT64_MAX - d")
    case False
    then show ?thesis by (simp add: delay_shrink.simps [of a d t c])
  next
    case True
    let ?c = "drop_bit 1 c"
    have nz: "?c \<noteq> 0"
    proof
      assume "?c = 0"
      then have "unat c div 2 = 0" by (metis One_nat_def drop_bit_1_u64 unat_half unat_0)
      with 1(2) have "unat c = 1" by (simp add: unat_eq_zero_iff [symmetric])
      with 1(3,4) True show False by (simp add: u64_gt_max_minus)
    qed
    have le: "unat ?c \<le> unat c" by (simp add: unat_half)
    have "unat a * unat ?c \<le> unat t" unfolding 1(4) using le by simp
    then have "unat (a * ?c) = unat a * unat ?c"
      using unat_less_2p64 [of t] by (intro unat_mult_no_wrap) linarith
    with 1(1) [OF True refl nz nz 1(3)] True nz show ?thesis
      by (simp add: delay_shrink.simps [of a d t c] Let_def)
  qed
qed

lemma delay_first_count: "unat (drop_bit 1 c + 1 :: u64) = unat c div 2 + 1"
proof -
  have "unat c div 2 + 1 < 2 ^ 64" using unat_less_2p64 [of c] by simp
  then show ?thesis by (simp add: unat_add_no_wrap unat_half)
qed

lemma max_div_nonzero: "(a :: u64) \<noteq> 0 \<Longrightarrow> unat (UINT64_MAX div a) \<noteq> 0"
  using unat_le_max [of a] by (simp add: unat_div_u64 unat_max_u64 div_eq_0_iff unat_eq_zero_iff)

lemma delay_clamp_nonzero: "c \<noteq> 0 \<Longrightarrow> delay_clamp a c \<noteq> 0"
  using max_div_nonzero [of a] by (auto simp: delay_clamp_def)

lemma delay_clamp_le: "delay_clamp a c \<le> c"
  by (auto simp: delay_clamp_def)

lemma delay_clamp_fits: "unat a * unat (delay_clamp a c) < 2 ^ 64"
proof (cases "a = 0")
  case False
  then have "delay_clamp a c \<le> UINT64_MAX div a" by (simp add: delay_clamp_def not_less)
  then have "unat (delay_clamp a c) \<le> (2 ^ 64 - 1) div unat a"
    by (simp only: word_le_nat_alt unat_div_u64 unat_max_u64)
  moreover have "0 < unat a" using False by (simp add: unat_gt_0)
  ultimately have "unat (delay_clamp a c) * unat a \<le> 2 ^ 64 - 1"
    by (simp only: less_eq_div_iff_mult_less_eq)
  then show ?thesis by (simp add: mult.commute)
qed simp

lemma delay_first_nonzero: "(drop_bit 1 c + 1 :: u64) \<noteq> 0"
  by (metis delay_first_count unat_0 add_is_0 one_neq_zero)

lemma delay_rescale_keeps:
  assumes "delay_rescale t c d = (True, t', c')"
  shows "unat t' = unat (t div c) * unat c' \<and> c' \<noteq> 0 \<and> c' \<noteq> UINT64_MAX \<and> unat t' + unat d < 2 ^ 64"
proof -
  define a where "a = t div c"
  define c2 where "c2 = delay_clamp a (drop_bit 1 c + 1)"
  have nz: "c2 \<noteq> 0" unfolding c2_def by (rule delay_clamp_nonzero [OF delay_first_nonzero])
  have sh: "delay_shrink a d (a * c2) c2 = (True, t', c')"
    using assms nz by (simp only: delay_rescale_def Let_def a_def c2_def if_False)
  have "unat (a * c2) = unat a * unat c2"
    unfolding c2_def by (rule unat_mult_no_wrap [OF delay_clamp_fits])
  note k = delay_shrink_keeps [OF sh nz this]
  have "unat c2 \<le> unat c div 2 + 1"
    unfolding c2_def using delay_clamp_le by (metis delay_first_count word_le_nat_alt)
  also have "\<dots> \<le> 2 ^ 63" using unat_less_2p64 [of c] by simp
  finally have "unat c' \<le> 2 ^ 63" using k by linarith
  then have "c' \<noteq> UINT64_MAX" by (auto simp: unat_max_u64)
  with k show ?thesis by (simp add: a_def)
qed

lemma delay_rescale_succeeds:
  assumes "unat (t div c) + unat d < 2 ^ 64"
  shows "fst (delay_rescale t c d)"
proof -
  define a where "a = t div c"
  define c2 where "c2 = delay_clamp a (drop_bit 1 c + 1)"
  have nz: "c2 \<noteq> 0" unfolding c2_def by (rule delay_clamp_nonzero [OF delay_first_nonzero])
  have "unat (a * c2) = unat a * unat c2"
    unfolding c2_def by (rule unat_mult_no_wrap [OF delay_clamp_fits])
  from delay_shrink_succeeds [OF nz assms [folded a_def] this] nz
  show ?thesis by (simp only: delay_rescale_def Let_def a_def c2_def if_False)
qed

section \<open>One update\<close>

text \<open>What a successful update of non-empty statistics has done, whichever branch it took.\<close>

lemma update_delay_next:
  assumes "ngx_healthcheck_update_delay (Some s) d = (NGX_OK, Some s')" and "ds_count s \<noteq> 0"
  obtains t c where
    "(t = ds_total s \<and> c = ds_count s) \<or> unat t = unat (ds_total s div ds_count s) * unat c"
    and "unat (ds_total s') = unat t + unat d" and "unat (ds_count s') = Suc (unat c)"
    and "ds_avg s' = ds_total s' div ds_count s'" and "ds_last s' = d"
    and "ds_min s' = min (ds_min s) d" and "ds_max s' = max (ds_max s) d"
proof -
  let ?ov = "ds_total s > UINT64_MAX - d \<or> ds_count s = UINT64_MAX"
  obtain ok t c where r: "(if ?ov then delay_rescale (ds_total s) (ds_count s) d
      else (True, ds_total s, ds_count s)) = (ok, t, c)" by (metis prod_cases3)
  have ok: "ok" using assms r by (auto simp: ngx_healthcheck_update_delay_def split: if_splits)
  have s': "s' = s\<lparr>ds_total := t + d, ds_count := c + 1, ds_last := d,
      ds_avg := (t + d) div (c + 1), ds_min := (if d < ds_min s then d else ds_min s),
      ds_max := (if d > ds_max s then d else ds_max s)\<rparr>"
    using assms r ok by (auto simp: ngx_healthcheck_update_delay_def Let_def split: if_splits)
  have fits: "unat t + unat d < 2 ^ 64 \<and> c \<noteq> UINT64_MAX \<and>
      ((t = ds_total s \<and> c = ds_count s) \<or> unat t = unat (ds_total s div ds_count s) * unat c)"
  proof (cases ?ov)
    case True
    with r ok have "delay_rescale (ds_total s) (ds_count s) d = (True, t, c)" by (simp only: if_True)
    from delay_rescale_keeps [OF this] show ?thesis by blast
  next
    case False
    with r show ?thesis by (auto simp: u64_gt_max_minus not_le not_less)
  qed
  then show thesis
    by (intro that [of t c]) (auto simp: s' unat_add_no_wrap unat_suc_no_wrap min_def max_def)
qed

lemma update_delay_first:
  assumes "ds_count s = 0"
  shows "ngx_healthcheck_update_delay (Some s) d =
    (NGX_OK, Some (s\<lparr>ds_total := d, ds_count := 1, ds_last := d, ds_avg := d, ds_min := d, ds_max := d\<rparr>))"
  using assms by (simp add: ngx_healthcheck_update_delay_def)

lemma delay_bounds_step:
  fixes lo hi tot t c0 c d :: nat
  assumes "c0 > 0" "lo * c0 \<le> tot" "tot \<le> hi * c0"
    and "(t = tot \<and> c = c0) \<or> t = (tot div c0) * c"
  shows "min lo d * Suc c \<le> t + d" and "t + d \<le> max hi d * Suc c"
proof -
  have "lo * c \<le> t" "t \<le> hi * c"
    using assms div_between [OF assms(1-3)] by (auto intro: mult_le_mono1)
  moreover have "min lo d * c \<le> lo * c" "hi * c \<le> max hi d * c" by (auto intro: mult_le_mono1)
  moreover have "min lo d \<le> d" "d \<le> max hi d" by simp_all
  ultimately show "min lo d * Suc c \<le> t + d" and "t + d \<le> max hi d * Suc c"
    unfolding mult_Suc_right by linarith+
qed

lemma delay_wf_first: "delay_wf (s\<lparr>ds_total := d, ds_count := 1, ds_last := d,
    ds_avg := d, ds_min := d, ds_max := d\<rparr>)"
  by (simp add: delay_wf_def)

lemma delay_wf_update:
  assumes "delay_wf s" and "ngx_healthcheck_update_delay (Some s) d = (NGX_OK, Some s')"
  shows "delay_wf s' \<and> ds_count s' \<noteq> 0"
proof (cases "ds_count s = 0")
  case True
  with assms(2) have "s' = s\<lparr>ds_total := d, ds_count := 1, ds_last := d, ds_avg := d,
      ds_min := d, ds_max := d\<rparr>"
    by (simp add: update_delay_first)
  then show ?thesis using delay_wf_first by simp
next
  case False
  then have pos: "unat (ds_count s) > 0" by (simp add: unat_gt_0)
  from assms(2) False obtain t c where
    tc: "(t = ds_total s \<and> c = ds_count s) \<or> unat t = unat (ds_total s div ds_count s) * unat c"
    and s': "unat (ds_total s') = unat t + unat d" "unat (ds_count s') = Suc (unat c)"
      "ds_avg s' = ds_total s' div ds_count s'" "ds_last s' = d"
      "ds_min s' = min (ds_min s) d" "ds_max s' = max (ds_max s) d"
    by (rule update_delay_next)
  have "(unat t = unat (ds_total s) \<and> unat c = unat (ds_count s)) \<or>
      unat t = unat (ds_total s) div unat (ds_count s) * unat c"
    using tc by (auto simp: unat_div_u64)
  from delay_bounds_step [OF pos _ _ this, of "unat (ds_min s)" "unat (ds_max s)" "unat d"]
    assms(1) False
  have "min (unat (ds_min s)) (unat d) * Suc (unat c) \<le> unat t + unat d"
    "unat t + unat d \<le> max (unat (ds_max s)) (unat d) * Suc (unat c)"
    by (auto simp: delay_wf_def)
  moreover have "unat (min (ds_min s) d) = min (unat (ds_min s)) (unat d)"
    "unat (max (ds_max s) d) = max (unat (ds_max s)) (unat d)"
    by (simp_all add: min_def max_def word_le_nat_alt)
  moreover have "ds_count s' \<noteq> 0" using s'(2) by auto
  ultimately show ?thesis using s' by (simp add: delay_wf_def)
qed

lemma update_delay_ok_iff:
  assumes "ds_count s \<noteq> 0" and "unat (ds_total s div ds_count s) + unat d < 2 ^ 64"
  shows "\<exists>s'. ngx_healthcheck_update_delay (Some s) d = (NGX_OK, Some s')"
proof -
  let ?ov = "ds_total s > UINT64_MAX - d \<or> ds_count s = UINT64_MAX"
  obtain ok t c where r: "(if ?ov then delay_rescale (ds_total s) (ds_count s) d
      else (True, ds_total s, ds_count s)) = (ok, t, c)" by (metis prod_cases3)
  have ok: "ok \<and> c + 1 \<noteq> 0"
  proof (cases ?ov)
    case True
    with r have d: "delay_rescale (ds_total s) (ds_count s) d = (ok, t, c)" by (simp only: if_True)
    with delay_rescale_succeeds [OF assms(2)] have "ok" by simp
    with d delay_rescale_keeps [of "ds_total s" "ds_count s" d t c] show ?thesis
      by (simp add: u64_suc_nonzero)
  next
    case False
    with r show ?thesis by (auto simp: u64_suc_nonzero)
  qed
  with r assms(1) show ?thesis
    by (simp only: ngx_healthcheck_update_delay_def option.case if_False Let_def prod.case) simp
qed

section \<open>Sequences of samples\<close>

text \<open>The statistics after a list of samples; \<open>None\<close> as soon as one update is refused.\<close>

fun delay_feed :: "delay_stats \<Rightarrow> u64 list \<Rightarrow> delay_stats option" where
  "delay_feed s [] = Some s"
| "delay_feed s (d # ds) =
     (case ngx_healthcheck_update_delay (Some s) d of
        (NGX_OK, Some s') \<Rightarrow> delay_feed s' ds
      | _ \<Rightarrow> None)"

definition delay_zero :: delay_stats where
  "delay_zero = \<lparr>ds_last = 0, ds_avg = 0, ds_min = 0, ds_max = 0, ds_total = 0, ds_count = 0\<rparr>"

text \<open>The abstract value of the statistics: the non-empty list of samples they summarise.\<close>

definition summarises :: "delay_stats \<Rightarrow> u64 list \<Rightarrow> bool" where
  "summarises s ds \<longleftrightarrow> ds \<noteq> [] \<and>
     unat (ds_total s) = (\<Sum>d \<leftarrow> ds. unat d) \<and> unat (ds_count s) = length ds \<and>
     unat (ds_avg s) = (\<Sum>d \<leftarrow> ds. unat d) div length ds \<and> ds_last s = last ds \<and>
     ds_min s = Min (set ds) \<and> ds_max s = Max (set ds)"

lemma summarises_first:
  "ds_count s = 0 \<Longrightarrow> \<exists>s'. ngx_healthcheck_update_delay (Some s) d = (NGX_OK, Some s') \<and> summarises s' [d]"
  by (simp add: update_delay_first summarises_def)

lemma summarises_next:
  assumes "summarises s ds" and "(\<Sum>d \<leftarrow> ds. unat d) + unat d < 2 ^ 64" and "Suc (length ds) < 2 ^ 64"
  shows "\<exists>s'. ngx_healthcheck_update_delay (Some s) d = (NGX_OK, Some s') \<and> summarises s' (ds @ [d])"
proof -
  have nz: "ds_count s \<noteq> 0" using assms(1) by (auto simp: summarises_def)
  have fits: "\<not> ds_total s > UINT64_MAX - d" "ds_count s \<noteq> UINT64_MAX"
    using assms by (auto simp: summarises_def u64_gt_max_minus unat_max_u64)
  let ?s = "s\<lparr>ds_total := ds_total s + d, ds_count := ds_count s + 1, ds_last := d,
      ds_avg := (ds_total s + d) div (ds_count s + 1),
      ds_min := (if d < ds_min s then d else ds_min s),
      ds_max := (if d > ds_max s then d else ds_max s)\<rparr>"
  have "ngx_healthcheck_update_delay (Some s) d = (NGX_OK, Some ?s)"
    using nz fits u64_suc_nonzero [OF fits(2)] by (simp add: ngx_healthcheck_update_delay_def Let_def)
  moreover have "ds_min ?s = Min (set (ds @ [d]))"
  proof -
    have "Min (set (ds @ [d])) = min d (ds_min s)" using assms(1) by (simp add: summarises_def)
    then show ?thesis by (simp only: min_def) auto
  qed
  moreover have "ds_max ?s = Max (set (ds @ [d]))"
  proof -
    have "Max (set (ds @ [d])) = max d (ds_max s)" using assms(1) by (simp add: summarises_def)
    then show ?thesis by (simp only: max_def) auto
  qed
  moreover have tot: "unat (ds_total ?s) = (\<Sum>d \<leftarrow> ds @ [d]. unat d)"
    and num: "unat (ds_count ?s) = length (ds @ [d])"
    using assms(1,2) fits(2) by (simp_all add: summarises_def unat_add_no_wrap unat_suc_no_wrap)
  moreover have "unat (ds_avg ?s) = (\<Sum>d \<leftarrow> ds @ [d]. unat d) div length (ds @ [d])"
    using tot num by (simp add: unat_div_u64)
  moreover have "ds_last ?s = last (ds @ [d])" by simp
  ultimately show ?thesis unfolding summarises_def by blast
qed

lemma delay_feed_summarises:
  assumes "summarises s ds" and "(\<Sum>d \<leftarrow> ds @ es. unat d) < 2 ^ 64" and "length (ds @ es) < 2 ^ 64"
  shows "\<exists>s'. delay_feed s es = Some s' \<and> summarises s' (ds @ es)"
  using assms
proof (induction es arbitrary: s ds)
  case Nil
  then show ?case by simp
next
  case (Cons e es)
  then obtain s' where "ngx_healthcheck_update_delay (Some s) e = (NGX_OK, Some s')"
    and "summarises s' (ds @ [e])"
    using summarises_next [of s ds e] by auto
  with Cons.IH [of s' "ds @ [e]"] Cons.prems show ?case by simp
qed

text \<open>Statistics whose next update takes the rescaling branch; the witnesses use them.\<close>

definition delay_full :: delay_stats where
  "delay_full = \<lparr>ds_last = 7, ds_avg = 5, ds_min = 3, ds_max = 7,
      ds_total = UINT64_MAX, ds_count = UINT64_MAX div 5\<rparr>"

definition delay_full_next :: delay_stats where
  "delay_full_next = \<lparr>ds_last = 4, ds_avg = 4, ds_min = 3, ds_max = 7,
      ds_total = 9223372036854775814, ds_count = 1844674407370955163\<rparr>"

lemma delay_full_update:
  "ngx_healthcheck_update_delay (Some delay_full) 4 = (NGX_OK, Some delay_full_next)"
  by (simp add: ngx_healthcheck_update_delay_def delay_full_def delay_full_next_def
      delay_rescale_def delay_clamp_def delay_shrink.simps Let_def)

lemma delay_full_wf: "delay_wf delay_full"
  by (simp add: delay_wf_def delay_full_def unat_div_u64 unat_max_u64)


section \<open>Properties\<close>

text \<open>C28. A successful update keeps the statistics well formed and puts the published average
  between the published minimum and maximum, in every branch, the rescaling one included.\<close>

theorem update_delay_keeps_statistics:
  assumes "delay_wf s" and "ngx_healthcheck_update_delay (Some s) d = (NGX_OK, Some s')"
  shows "delay_wf s' \<and> ds_count s' \<noteq> 0 \<and> ds_min s' \<le> ds_avg s' \<and> ds_avg s' \<le> ds_max s'
    \<and> ds_min s' \<le> d \<and> d \<le> ds_max s' \<and> ds_last s' = d"
proof -
  note wf = delay_wf_update [OF assms]
  have "ds_last s' = d"
  proof (cases "ds_count s = 0")
    case True
    with assms(2) show ?thesis by (auto simp: update_delay_first)
  next
    case False
    with assms(2) show ?thesis by (rule update_delay_next)
  qed
  with wf delay_wf_avg_between [of s'] show ?thesis by (auto simp: delay_wf_def)
qed

theorem update_delay_keeps_statistics_witness:
  "delay_wf delay_full_next \<and> ds_min delay_full_next \<le> ds_avg delay_full_next"
  using update_delay_keeps_statistics [OF delay_full_wf delay_full_update] by blast

text \<open>C30. The update never fails on well-formed statistics as long as the samples stay below
  \<open>2 ^ 63\<close> ms: the rescaling always leaves room for the new sample, so its two error returns are
  unreachable and no sample is dropped.\<close>

theorem update_delay_never_fails:
  assumes "delay_wf s" and "unat (ds_max s) < 2 ^ 63" and "unat d < 2 ^ 63"
  shows "\<exists>s'. ngx_healthcheck_update_delay (Some s) d = (NGX_OK, Some s')"
proof (cases "ds_count s = 0")
  case True
  then show ?thesis by (simp add: update_delay_first)
next
  case False
  have "unat (ds_total s div ds_count s) \<le> unat (ds_max s)"
    using delay_wf_avg_between(2) [OF assms(1) False] assms(1) False
    by (simp add: delay_wf_def word_le_nat_alt)
  with assms have "unat (ds_total s div ds_count s) + unat d < 2 ^ 64" by simp
  with False show ?thesis by (rule update_delay_ok_iff)
qed

theorem update_delay_never_fails_witness:
  "\<exists>s'. ngx_healthcheck_update_delay (Some delay_full) 4 = (NGX_OK, Some s')"
  by (rule update_delay_never_fails [OF delay_full_wf]) (simp_all add: delay_full_def)

text \<open>C29. As long as the sum of the samples fits in 64 bits the statistics are exact: starting from
  zeroed memory, the last, average (truncated), least and greatest delays are those of the list of
  all samples.\<close>

theorem delay_statistics_exact:
  assumes "ds \<noteq> []" and "(\<Sum>d \<leftarrow> ds. unat d) < 2 ^ 64" and "length ds < 2 ^ 64"
  shows "\<exists>s. delay_feed delay_zero ds = Some s \<and> summarises s ds"
proof -
  obtain e es where ds: "ds = e # es" using assms(1) by (cases ds) auto
  obtain s where s: "ngx_healthcheck_update_delay (Some delay_zero) e = (NGX_OK, Some s)" "summarises s [e]"
    using summarises_first [of delay_zero e] by (auto simp: delay_zero_def)
  from delay_feed_summarises [OF s(2), of es] s(1) assms(2,3) show ?thesis by (simp add: ds)
qed

theorem delay_statistics_exact_witness:
  "\<exists>s. delay_feed delay_zero [12, 5, 30] = Some s \<and> summarises s [12, 5, 30]"
  by (rule delay_statistics_exact) simp_all

end
