(* ===== verification/ShmState.thy ===== *)
theory ShmState
  imports Prelude
begin

text \<open>
  The shared zone (\<^verbatim>\<open>runtime/ngx_healthcheck_state.h\<close> and
  \<^verbatim>\<open>runtime/ngx_healthcheck_state.c\<close>): the records kept in shared memory, saturating time,
  the bounded lock with dead-holder recovery and the double-slot publication of peer and worker
  records.

  The world outside the process is a record of tapes.  Every read of the clock, every
  \<^verbatim>\<open>ngx_shmtx_trylock\<close> and every look at a lock holder takes the next entry of its tape, so a
  theorem about all tapes holds for every behaviour of the kernel, of nginx's mutex and of the other
  processes.  An exhausted tape is a failing clock, a lock that is not granted and a lock word that
  reads 0.  The loops of the code end with the tape, so no run of a theorem here spins for ever; the
  code itself spins for ever only while the clock stands still and the lock is never granted.
\<close>

section \<open>Records of the shared zone\<close>

text \<open>\<^verbatim>\<open>ngx_healthcheck_phase_t\<close>.\<close>

datatype phase = INITIAL | WAITING | PREPARING | INFLIGHT

record health =
  h_access_time :: u64
  h_rise_count :: u64
  h_fall_count :: u64
  h_down :: u64
  h_last :: u64
  h_avg :: u64
  h_min :: u64
  h_max :: u64
  h_total :: u64
  h_samples :: u64

record peer_state =
  ps_health :: health
  ps_started :: u64
  ps_owner :: pid
  ps_worker :: u64
  ps_instance :: u64
  ps_term :: u64
  ps_round :: u64
  ps_deadline :: u64
  ps_phase :: phase

text \<open>The array \<^verbatim>\<open>slots[2]\<close> is a pair indexed by the low bit of the published word.\<close>

definition slot_get :: "'s \<times> 's \<Rightarrow> u64 \<Rightarrow> 's" where
  "slot_get sl i = (if i = 0 then fst sl else snd sl)"

definition slot_set :: "'s \<times> 's \<Rightarrow> u64 \<Rightarrow> 's \<Rightarrow> 's \<times> 's" where
  "slot_set sl i s = (if i = 0 then (s, snd sl) else (fst sl, s))"

record peer_shm =
  sh_published :: u64
  sh_slots :: "peer_state \<times> peer_state"
  sh_sockaddr :: bytes
  sh_upstream_name :: bytes
  sh_check_sockaddr :: bytes
  sh_check_type :: u64

record worker_state =
  ws_pid :: pid
  ws_instance :: u64
  ws_heartbeat :: u64
  ws_exiting :: u64

record worker_shm =
  wk_published :: u64
  wk_slots :: "worker_state \<times> worker_state"

text \<open>
  \<^verbatim>\<open>ngx_upstream_check_peers_shm_t\<close>.  The arrays are functions of the index; the code uses
  indices below \<open>shm_number\<close> and \<open>shm_worker_count\<close> only.  The mutexes are kept outside, as the
  locks that a process holds.
\<close>

record peers_shm =
  shm_magic :: u32
  shm_version :: u32
  shm_generation :: u64
  shm_number :: u64
  shm_worker_count :: u64
  shm_activated :: u64
  shm_activated_at :: u64
  shm_workers :: "nat \<Rightarrow> worker_shm"
  shm_peers :: "nat \<Rightarrow> peer_shm"

definition NGX_HEALTHCHECK_SHM_MAGIC :: u32 where "NGX_HEALTHCHECK_SHM_MAGIC = 0x48434b31"
definition NGX_HEALTHCHECK_SHM_VERSION :: u32 where "NGX_HEALTHCHECK_SHM_VERSION = 3"
abbreviation (input) NGX_HEALTHCHECK_HTTP :: u64 where "NGX_HEALTHCHECK_HTTP \<equiv> 1"
abbreviation (input) NGX_HEALTHCHECK_STREAM :: u64 where "NGX_HEALTHCHECK_STREAM \<equiv> 2"
abbreviation (input) NGX_HEALTHCHECK_LOCK_NS :: u64 where "NGX_HEALTHCHECK_LOCK_NS \<equiv> 1000000"
abbreviation (input) NGX_HEALTHCHECK_BATCH :: u64 where "NGX_HEALTHCHECK_BATCH \<equiv> 256"

section \<open>Saturating time\<close>

definition ngx_healthcheck_add_time :: "u64 \<Rightarrow> u64 \<Rightarrow> u64" where
  "ngx_healthcheck_add_time a b = (if a > UINT64_MAX - b then UINT64_MAX else a + b)"

definition ngx_healthcheck_mul_time :: "u64 \<Rightarrow> u64 \<Rightarrow> u64" where
  "ngx_healthcheck_mul_time a b = (if b \<noteq> 0 \<and> a > UINT64_MAX div b then UINT64_MAX else a * b)"

lemma unat_add_time [time_simps]:
  "unat (ngx_healthcheck_add_time a b) = min (unat a + unat b) (2 ^ 64 - 1)"
  by (auto simp: ngx_healthcheck_add_time_def u64_gt_max_minus unat_max_u64 unat_add_no_wrap not_le)

lemma u64_gt_max_div: "b \<noteq> 0 \<Longrightarrow> (a :: u64) > UINT64_MAX div b \<longleftrightarrow> 2 ^ 64 \<le> unat a * unat b"
proof -
  assume "b \<noteq> 0"
  then have "0 < unat b" by (simp add: unat_gt_0)
  then have "(2 ^ 64 - 1) div unat b < unat a \<longleftrightarrow> 2 ^ 64 - 1 < unat a * unat b"
    by (rule div_less_iff_less_mult)
  then show ?thesis by (auto simp: word_less_nat_alt unat_div_u64 unat_max_u64)
qed

lemma unat_mul_time [time_simps]:
  "unat (ngx_healthcheck_mul_time a b) = min (unat a * unat b) (2 ^ 64 - 1)"
proof (cases "b = 0")
  case False
  then show ?thesis
    by (auto simp: ngx_healthcheck_mul_time_def u64_gt_max_div unat_max_u64 unat_mult_no_wrap not_le)
qed (simp add: ngx_healthcheck_mul_time_def)

lemma add_time_ge [simp]: "a \<le> ngx_healthcheck_add_time a b" "b \<le> ngx_healthcheck_add_time a b"
  using unat_le_max [of a] unat_le_max [of b] by (simp_all add: word_le_nat_alt time_simps)

lemma add_time_mono: "a \<le> a' \<Longrightarrow> b \<le> b' \<Longrightarrow> ngx_healthcheck_add_time a b \<le> ngx_healthcheck_add_time a' b'"
  by (simp add: word_le_nat_alt time_simps min_le_iff_disj)

section \<open>The process and the world around it\<close>

datatype lock = ActivationLock | WorkerLock nat | PeerLock nat

text \<open>
  What a handler sees of the system, for one zone: the tapes, the locks it holds, its process id,
  whether \<^verbatim>\<open>ngx_quit\<close>, \<^verbatim>\<open>ngx_exiting\<close> or \<^verbatim>\<open>ngx_terminate\<close> is set, and the zone.
  An entry of \<open>k_try\<close> is the answer of one \<^verbatim>\<open>ngx_shmtx_trylock\<close> together with what the other
  processes did to the zone up to that attempt; an entry of \<open>k_kill\<close> is the lock word read by the
  recovery, whether \<^verbatim>\<open>kill(holder, 0)\<close> reports \<^verbatim>\<open>ESRCH\<close>, and the answer of
  \<^verbatim>\<open>ngx_shmtx_force_unlock\<close>.
\<close>

record kernel =
  k_clock :: "(int \<times> u64) option list"
  k_try :: "(bool \<times> (peers_shm \<Rightarrow> peers_shm)) list"
  k_kill :: "(pid \<times> bool \<times> bool) list"
  k_held :: "lock list"
  k_pid :: pid
  k_quit :: bool
  k_shm :: peers_shm

text \<open>
  \<^verbatim>\<open>ngx_healthcheck_now\<close>: \<open>Some\<close> of the monotonic nanoseconds, or \<open>None\<close> where the C function
  returns \<^verbatim>\<open>NGX_ERROR\<close>.
\<close>

definition timespec_ns :: "(int \<times> u64) option \<Rightarrow> u64 option" where
  "timespec_ns t =
     (case t of
        None \<Rightarrow> None
      | Some (sec, nsec) \<Rightarrow>
          if sec < 0 then None
          else Some (ngx_healthcheck_add_time
                       (ngx_healthcheck_mul_time (word_of_int sec) 1000000000) nsec))"

definition ngx_healthcheck_now :: "'a kernel_scheme \<Rightarrow> u64 option \<times> 'a kernel_scheme" where
  "ngx_healthcheck_now w =
     (case k_clock w of
        [] \<Rightarrow> (None, w)
      | t # ts \<Rightarrow> (timespec_ns t, w\<lparr>k_clock := ts\<rparr>))"

text \<open>nginx's \<^verbatim>\<open>ngx_shmtx_trylock\<close> and \<^verbatim>\<open>ngx_shmtx_unlock\<close>, as the tape answers them.\<close>

definition shmtx_trylock :: "lock \<Rightarrow> 'a kernel_scheme \<Rightarrow> bool \<times> 'a kernel_scheme" where
  "shmtx_trylock l w =
     (case k_try w of
        [] \<Rightarrow> (False, w)
      | (got, others) # ts \<Rightarrow>
          (got, w\<lparr>k_try := ts, k_shm := others (k_shm w),
                  k_held := (if got then l # k_held w else k_held w)\<rparr>))"

definition shmtx_unlock :: "lock \<Rightarrow> 'a kernel_scheme \<Rightarrow> 'a kernel_scheme" where
  "shmtx_unlock l w = w\<lparr>k_held := remove1 l (k_held w)\<rparr>"

definition ngx_healthcheck_recover_lock :: "'a kernel_scheme \<Rightarrow> bool \<times> 'a kernel_scheme" where
  "ngx_healthcheck_recover_lock w =
     (case k_kill w of
        [] \<Rightarrow> (False, w)
      | (holder, esrch, forced) # ks \<Rightarrow>
          (if holder > 0 \<and> esrch then forced else False, w\<lparr>k_kill := ks\<rparr>))"

lemma k_clock_trylock [simp]: "k_clock (snd (shmtx_trylock l w)) = k_clock w"
  by (simp add: shmtx_trylock_def split: list.split prod.split)

lemma k_clock_recover [simp]: "k_clock (snd (ngx_healthcheck_recover_lock w)) = k_clock w"
  by (simp add: ngx_healthcheck_recover_lock_def split: list.split prod.split)

lemma now_shrinks: "fst (ngx_healthcheck_now w) \<noteq> None \<Longrightarrow>
    length (k_clock (snd (ngx_healthcheck_now w))) < length (k_clock w)"
  by (simp add: ngx_healthcheck_now_def split: list.splits)

text \<open>
  The loop of \<^verbatim>\<open>ngx_healthcheck_lock\<close>: give up when the last clock reading has reached the limit,
  otherwise try, look for a dead holder and read the clock again.
\<close>

function lock_loop :: "lock \<Rightarrow> u64 \<Rightarrow> u64 \<Rightarrow> 'a kernel_scheme \<Rightarrow> ngx_rc \<times> 'a kernel_scheme" where
  "lock_loop l limit now w =
     (if now \<ge> limit then (NGX_AGAIN, w)
      else let (got, w1) = shmtx_trylock l w in
        if got then (NGX_OK, w1)
        else let (_, w2) = ngx_healthcheck_recover_lock w1 in
          (case ngx_healthcheck_now w2 of
             (None, w3) \<Rightarrow> (NGX_AGAIN, w3)
           | (Some now', w3) \<Rightarrow> lock_loop l limit now' w3))"
  by pat_completeness auto
termination
  by (relation "measure (\<lambda>(l, limit, now, w). length (k_clock w))")
    (auto, metis k_clock_recover k_clock_trylock fst_conv now_shrinks option.distinct(1) snd_conv)

declare lock_loop.simps [simp del]

definition ngx_healthcheck_lock :: "lock \<Rightarrow> u64 \<Rightarrow> 'a kernel_scheme \<Rightarrow> ngx_rc \<times> 'a kernel_scheme" where
  "ngx_healthcheck_lock l limit w =
     (case ngx_healthcheck_now w of
        (None, w1) \<Rightarrow> (NGX_AGAIN, w1)
      | (Some now, w1) \<Rightarrow>
          lock_loop l (if limit = 0 then ngx_healthcheck_add_time now NGX_HEALTHCHECK_LOCK_NS else limit)
            now w1)"

section \<open>Publication\<close>

text \<open>
  The two stores of \<^verbatim>\<open>ngx_healthcheck_publish\<close> in program order, separated by
  \<^verbatim>\<open>ngx_memory_barrier\<close>: first the whole record into the slot that is not published, then the
  word that names the slot and carries the down bit.
\<close>

definition other_slot :: "u64 \<Rightarrow> u64" where
  "other_slot published = (published AND 1) XOR 1"

definition publish_stage :: "peer_shm \<Rightarrow> peer_state \<Rightarrow> peer_shm" where
  "publish_stage p s = p\<lparr>sh_slots := slot_set (sh_slots p) (other_slot (sh_published p)) s\<rparr>"

definition publish_commit :: "peer_shm \<Rightarrow> peer_state \<Rightarrow> peer_shm" where
  "publish_commit p s =
     p\<lparr>sh_published := other_slot (sh_published p) OR (if h_down (ps_health s) \<noteq> 0 then 2 else 0)\<rparr>"

definition ngx_healthcheck_publish :: "peer_shm \<Rightarrow> peer_state \<Rightarrow> peer_shm" where
  "ngx_healthcheck_publish p s =
     (let slot = (sh_published p AND 1) XOR 1;
          p1 = p\<lparr>sh_slots := slot_set (sh_slots p) slot s\<rparr>
      in p1\<lparr>sh_published := slot OR (if h_down (ps_health s) \<noteq> 0 then 2 else 0)\<rparr>)"

definition worker_stage :: "worker_shm \<Rightarrow> worker_state \<Rightarrow> worker_shm" where
  "worker_stage p s = p\<lparr>wk_slots := slot_set (wk_slots p) (other_slot (wk_published p)) s\<rparr>"

definition worker_commit :: "worker_shm \<Rightarrow> worker_state \<Rightarrow> worker_shm" where
  "worker_commit p s = p\<lparr>wk_published := other_slot (wk_published p)\<rparr>"

definition ngx_healthcheck_publish_worker :: "worker_shm \<Rightarrow> worker_state \<Rightarrow> worker_shm" where
  "ngx_healthcheck_publish_worker p s =
     (let slot = (wk_published p AND 1) XOR 1;
          p1 = p\<lparr>wk_slots := slot_set (wk_slots p) slot s\<rparr>
      in p1\<lparr>wk_published := slot\<rparr>)"

text \<open>The record that the published word names: \<^verbatim>\<open>slots[published & 1]\<close>.\<close>

definition peer_current :: "peer_shm \<Rightarrow> peer_state" where
  "peer_current p = slot_get (sh_slots p) (sh_published p AND 1)"

definition worker_current :: "worker_shm \<Rightarrow> worker_state" where
  "worker_current p = slot_get (wk_slots p) (wk_published p AND 1)"

text \<open>Read and write access through the zone of the process.\<close>

definition shm_peer_state :: "nat \<Rightarrow> 'a kernel_scheme \<Rightarrow> peer_state" where
  "shm_peer_state i w = peer_current (shm_peers (k_shm w) i)"

definition shm_worker_state :: "nat \<Rightarrow> 'a kernel_scheme \<Rightarrow> worker_state" where
  "shm_worker_state i w = worker_current (shm_workers (k_shm w) i)"

definition publish_peer :: "nat \<Rightarrow> peer_state \<Rightarrow> 'a kernel_scheme \<Rightarrow> 'a kernel_scheme" where
  "publish_peer i s w = w\<lparr>k_shm := (k_shm w)\<lparr>shm_peers :=
     (shm_peers (k_shm w))(i := ngx_healthcheck_publish (shm_peers (k_shm w) i) s)\<rparr>\<rparr>"

definition publish_worker :: "nat \<Rightarrow> worker_state \<Rightarrow> 'a kernel_scheme \<Rightarrow> 'a kernel_scheme" where
  "publish_worker i s w = w\<lparr>k_shm := (k_shm w)\<lparr>shm_workers :=
     (shm_workers (k_shm w))(i := ngx_healthcheck_publish_worker (shm_workers (k_shm w) i) s)\<rparr>\<rparr>"

text \<open>
  \<^verbatim>\<open>ngx_healthcheck_mutex_init\<close>: the answers of the allocation of the lock file's name, needed only
  without atomic operations, and of \<^verbatim>\<open>ngx_shmtx_create\<close> come from a tape of Booleans.
\<close>

definition next_alloc :: "bool list \<Rightarrow> bool \<times> bool list" where
  "next_alloc t = (case t of [] \<Rightarrow> (False, []) | b # t' \<Rightarrow> (b, t'))"

definition ngx_healthcheck_mutex_init :: "bool \<Rightarrow> bool list \<Rightarrow> bool \<times> bool list" where
  "ngx_healthcheck_mutex_init atomic t =
     (let (ok, t1) = (if \<not> atomic then next_alloc t else (True, t)) in
      if \<not> ok then (False, t1) else next_alloc t1)"

text \<open>Reads under the lock; \<open>None\<close> is \<^verbatim>\<open>NGX_AGAIN\<close>.\<close>

definition ngx_healthcheck_try_read_peer :: "nat \<Rightarrow> 'a kernel_scheme \<Rightarrow> peer_state option \<times> 'a kernel_scheme" where
  "ngx_healthcheck_try_read_peer i w =
     (let (got, w1) = shmtx_trylock (PeerLock i) w;
          (got', w2) = (if got then (True, w1)
             else let (freed, w2) = ngx_healthcheck_recover_lock w1 in
               if \<not> freed then (False, w2) else shmtx_trylock (PeerLock i) w2)
      in if \<not> got' then (None, w2)
         else (Some (shm_peer_state i w2), shmtx_unlock (PeerLock i) w2))"

definition ngx_healthcheck_read_peer :: "nat \<Rightarrow> u64 \<Rightarrow> 'a kernel_scheme \<Rightarrow> peer_state option \<times> 'a kernel_scheme" where
  "ngx_healthcheck_read_peer i limit w =
     (case ngx_healthcheck_lock (PeerLock i) limit w of
        (NGX_OK, w1) \<Rightarrow> (Some (shm_peer_state i w1), shmtx_unlock (PeerLock i) w1)
      | (_, w1) \<Rightarrow> (None, w1))"

definition ngx_healthcheck_read_worker :: "nat \<Rightarrow> u64 \<Rightarrow> 'a kernel_scheme \<Rightarrow> worker_state option \<times> 'a kernel_scheme" where
  "ngx_healthcheck_read_worker i limit w =
     (case ngx_healthcheck_lock (WorkerLock i) limit w of
        (NGX_OK, w1) \<Rightarrow> (Some (shm_worker_state i w1), shmtx_unlock (WorkerLock i) w1)
      | (_, w1) \<Rightarrow> (None, w1))"

section \<open>Published cells\<close>

text \<open>
  The contract of the double slot: staging a record is invisible to readers, committing it makes it
  the current one.  A writer may die between the two, so the clients of a cell need to know what a
  reader sees after any mixture of finished and abandoned writes.
\<close>

primrec interrupted_writes ::
  "('c \<Rightarrow> 's \<Rightarrow> 'c) \<Rightarrow> ('c \<Rightarrow> 's \<Rightarrow> 'c) \<Rightarrow> 'c \<Rightarrow> ('s \<times> bool) list \<Rightarrow> 'c" where
  "interrupted_writes stage publish c [] = c"
| "interrupted_writes stage publish c (w # ws) =
     interrupted_writes stage publish (if snd w then publish c (fst w) else stage c (fst w)) ws"

locale two_phase_cell =
  fixes stage commit publish :: "'c \<Rightarrow> 's \<Rightarrow> 'c" and current :: "'c \<Rightarrow> 's"
  assumes publish_split: "publish c s = commit (stage c s) s"
    and stage_invisible: "current (stage c s) = current c"
    and commit_visible: "current (commit (stage c s) s) = s"
begin

lemma current_publish: "current (publish c s) = s"
  by (simp add: publish_split commit_visible)

lemma current_interrupted:
  "current (interrupted_writes stage publish c ws) = last (current c # map fst (filter snd ws))"
proof (induction ws arbitrary: c)
  case Nil
  then show ?case by simp
next
  case (Cons w ws)
  then show ?case by (cases "snd w") (simp_all add: current_publish stage_invisible)
qed

end

lemma other_slot_cases: "(p AND 1 = 0 \<and> other_slot p = 1) \<or> (p AND 1 = 1 \<and> other_slot p = 0)"
  using u64_and_one_cases [of p] by (auto simp: other_slot_def)

lemma other_slot_word:
  "(other_slot p OR (if b then 2 else 0)) AND 1 = other_slot p"
  "(other_slot p OR (if b then 2 else 0)) AND 2 = (if b then 2 else 0)"
  "other_slot p AND 1 = other_slot p"
  using other_slot_cases [of p] by auto

lemma slot_get_set [simp]:
  "slot_get (slot_set sl i s) i = s"
  "p AND 1 \<noteq> 0 \<Longrightarrow> slot_get (slot_set sl 0 s) (p AND 1) = slot_get sl (p AND 1)"
  "slot_get (slot_set sl 1 s) 0 = slot_get sl 0"
  by (simp_all add: slot_get_def slot_set_def)

lemma slot_get_other: "slot_get (slot_set sl (other_slot p) s) (p AND 1) = slot_get sl (p AND 1)"
  using other_slot_cases [of p] by (auto simp: slot_get_def slot_set_def)

interpretation peer_cell: two_phase_cell publish_stage publish_commit ngx_healthcheck_publish peer_current
  by unfold_locales
    (simp_all add: ngx_healthcheck_publish_def publish_stage_def publish_commit_def peer_current_def
      Let_def other_slot_word slot_get_other flip: other_slot_def)

interpretation worker_cell: two_phase_cell worker_stage worker_commit ngx_healthcheck_publish_worker worker_current
  by unfold_locales
    (simp_all add: ngx_healthcheck_publish_worker_def worker_stage_def worker_commit_def worker_current_def
      Let_def other_slot_word slot_get_other flip: other_slot_def)

lemmas [cell_simps] = peer_cell.current_publish worker_cell.current_publish

text \<open>The bit that request routing reads without the lock agrees with the current record.\<close>

definition down_bit_ok :: "peer_shm \<Rightarrow> bool" where
  "down_bit_ok p \<longleftrightarrow> (sh_published p AND 2 \<noteq> 0) = (h_down (ps_health (peer_current p)) \<noteq> 0)"

lemma down_bit_publish: "down_bit_ok (ngx_healthcheck_publish p s)"
  by (simp add: down_bit_ok_def cell_simps)
    (simp add: ngx_healthcheck_publish_def Let_def other_slot_word flip: other_slot_def)

lemma down_bit_stage: "down_bit_ok (publish_stage p s) = down_bit_ok p"
  by (simp add: down_bit_ok_def peer_cell.stage_invisible) (simp add: publish_stage_def)

lemma down_bit_interrupted:
  "down_bit_ok p \<Longrightarrow> down_bit_ok (interrupted_writes publish_stage ngx_healthcheck_publish p ws)"
  by (induction ws arbitrary: p) (simp_all add: down_bit_publish down_bit_stage)

section \<open>What the primitives change\<close>

text \<open>
  Each primitive changes tapes, the held locks and the zone only.  The elimination rules give the
  state after a call as an explicit update of the state before it, so the fields of any extension of
  \<open>kernel\<close> are seen to be unchanged by simplification.
\<close>

lemma nowE:
  assumes "ngx_healthcheck_now w = (r, w')"
  obtains c where "w' = w\<lparr>k_clock := c\<rparr>"
  using assms that [where c = "k_clock w"]
  by (auto simp: ngx_healthcheck_now_def split: list.splits)

lemma trylockE:
  assumes "shmtx_trylock l w = (got, w')"
  obtains t s where "w' = w\<lparr>k_try := t, k_shm := s, k_held := (if got then l # k_held w else k_held w)\<rparr>"
  using assms that [where t = "k_try w" and s = "k_shm w"]
  by (fastforce simp: shmtx_trylock_def split: list.splits prod.splits)

lemma recoverE:
  assumes "ngx_healthcheck_recover_lock w = (freed, w')"
  obtains k where "w' = w\<lparr>k_kill := k\<rparr>"
  using assms that [where k = "k_kill w"]
  by (auto simp: ngx_healthcheck_recover_lock_def split: list.splits prod.splits)

lemma lock_loopE:
  assumes "lock_loop l limit now w = (rc, w')"
  obtains (ok) c t k s where "rc = NGX_OK"
      "w' = w\<lparr>k_clock := c, k_try := t, k_kill := k, k_shm := s, k_held := l # k_held w\<rparr>"
  | (again) c t k s where "rc = NGX_AGAIN"
      "w' = w\<lparr>k_clock := c, k_try := t, k_kill := k, k_shm := s\<rparr>"
proof -
  have "(\<exists>c t k s. rc = NGX_OK \<and>
        w' = w\<lparr>k_clock := c, k_try := t, k_kill := k, k_shm := s, k_held := l # k_held w\<rparr>) \<or>
      (\<exists>c t k s. rc = NGX_AGAIN \<and> w' = w\<lparr>k_clock := c, k_try := t, k_kill := k, k_shm := s\<rparr>)"
    using assms
  proof (induction l limit now w rule: lock_loop.induct)
    case (1 l limit now w)
    obtain got w1 where t: "shmtx_trylock l w = (got, w1)" by fastforce
    obtain freed w2 where r: "ngx_healthcheck_recover_lock w1 = (freed, w2)" by fastforce
    obtain n w3 where n: "ngx_healthcheck_now w2 = (n, w3)" by fastforce
    from t obtain tt ss where w1: "w1 = w\<lparr>k_try := tt, k_shm := ss,
        k_held := (if got then l # k_held w else k_held w)\<rparr>" by (rule trylockE)
    from r obtain kk where w2: "w2 = w1\<lparr>k_kill := kk\<rparr>" by (rule recoverE)
    from n obtain cc where w3: "w3 = w2\<lparr>k_clock := cc\<rparr>" by (rule nowE)
    consider "now \<ge> limit" | "\<not> now \<ge> limit" "got" | "\<not> now \<ge> limit" "\<not> got" "n = None"
      | m where "\<not> now \<ge> limit" "\<not> got" "n = Some m" by (cases n) auto
    then show ?case
    proof cases
      case 1
      with "1.prems" have "rc = NGX_AGAIN" "w' = w" by (simp_all add: lock_loop.simps [of l limit now w])
      then have "w' = w\<lparr>k_clock := k_clock w, k_try := k_try w, k_kill := k_kill w, k_shm := k_shm w\<rparr>"
        by simp
      with \<open>rc = NGX_AGAIN\<close> show ?thesis by blast
    next
      case 2
      with "1.prems" t have "rc = NGX_OK" "w' = w1" by (simp_all add: lock_loop.simps [of l limit now w])
      with w1 2 have "w' = w\<lparr>k_clock := k_clock w, k_try := tt, k_kill := k_kill w, k_shm := ss,
          k_held := l # k_held w\<rparr>" by simp
      with \<open>rc = NGX_OK\<close> show ?thesis by blast
    next
      case 3
      with "1.prems" t r n have "rc = NGX_AGAIN" "w' = w3"
        by (simp_all add: lock_loop.simps [of l limit now w])
      with w1 w2 w3 3 have "w' = w\<lparr>k_clock := cc, k_try := tt, k_kill := kk, k_shm := ss\<rparr>" by simp
      with \<open>rc = NGX_AGAIN\<close> show ?thesis by blast
    next
      case 4
      with "1.prems" t r n have "lock_loop l limit m w3 = (rc, w')"
        by (simp add: lock_loop.simps [of l limit now w])
      from "1.IH" [OF 4(1) t [symmetric] refl 4(2) r [symmetric] refl n [symmetric] 4(3) this]
      show ?thesis using w1 w2 w3 4 by fastforce
    qed
  qed
  then show thesis using ok again by blast
qed

lemma lockE:
  assumes "ngx_healthcheck_lock l limit w = (rc, w')"
  obtains (ok) c t k s where "rc = NGX_OK"
      "w' = w\<lparr>k_clock := c, k_try := t, k_kill := k, k_shm := s, k_held := l # k_held w\<rparr>"
  | (again) c t k s where "rc = NGX_AGAIN"
      "w' = w\<lparr>k_clock := c, k_try := t, k_kill := k, k_shm := s\<rparr>"
proof -
  obtain n w1 where n: "ngx_healthcheck_now w = (n, w1)" by fastforce
  then obtain c where w1: "w1 = w\<lparr>k_clock := c\<rparr>" by (rule nowE)
  show thesis
  proof (cases n)
    case None
    with assms n have "rc = NGX_AGAIN" "w' = w1" by (simp_all add: ngx_healthcheck_lock_def)
    moreover have "w1 = w\<lparr>k_clock := c, k_try := k_try w, k_kill := k_kill w, k_shm := k_shm w\<rparr>"
      using w1 by simp
    ultimately show thesis by (metis again)
  next
    case (Some m)
    with assms n have "lock_loop l (if limit = 0 then ngx_healthcheck_add_time m
        NGX_HEALTHCHECK_LOCK_NS else limit) m w1 = (rc, w')"
      by (simp add: ngx_healthcheck_lock_def)
    then show thesis using w1 by (cases rule: lock_loopE) (auto intro: ok again)
  qed
qed

lemma read_peerE:
  assumes "ngx_healthcheck_read_peer i limit w = (r, w')"
  obtains (ok) c t k s where "r = Some (peer_current (shm_peers s i))"
      "w' = w\<lparr>k_clock := c, k_try := t, k_kill := k, k_shm := s\<rparr>"
  | (again) c t k s where "r = None" "w' = w\<lparr>k_clock := c, k_try := t, k_kill := k, k_shm := s\<rparr>"
proof -
  obtain rc w1 where l: "ngx_healthcheck_lock (PeerLock i) limit w = (rc, w1)" by fastforce
  then show thesis
  proof (cases rule: lockE)
    case (ok c t k s)
    with assms l have "r = Some (peer_current (shm_peers s i))"
      "w' = w\<lparr>k_clock := c, k_try := t, k_kill := k, k_shm := s\<rparr>"
      by (simp_all add: ngx_healthcheck_read_peer_def shm_peer_state_def shmtx_unlock_def)
    then show thesis by (rule that(1))
  next
    case (again c t k s)
    with assms l have "r = None" "w' = w1" by (simp_all add: ngx_healthcheck_read_peer_def)
    with again(2) show thesis by (metis that(2))
  qed
qed

lemma read_workerE:
  assumes "ngx_healthcheck_read_worker i limit w = (r, w')"
  obtains (ok) c t k s where "r = Some (worker_current (shm_workers s i))"
      "w' = w\<lparr>k_clock := c, k_try := t, k_kill := k, k_shm := s\<rparr>"
  | (again) c t k s where "r = None" "w' = w\<lparr>k_clock := c, k_try := t, k_kill := k, k_shm := s\<rparr>"
proof -
  obtain rc w1 where l: "ngx_healthcheck_lock (WorkerLock i) limit w = (rc, w1)" by fastforce
  then show thesis
  proof (cases rule: lockE)
    case (ok c t k s)
    with assms l have "r = Some (worker_current (shm_workers s i))"
      "w' = w\<lparr>k_clock := c, k_try := t, k_kill := k, k_shm := s\<rparr>"
      by (simp_all add: ngx_healthcheck_read_worker_def shm_worker_state_def shmtx_unlock_def)
    then show thesis by (rule that(1))
  next
    case (again c t k s)
    with assms l have "r = None" "w' = w1" by (simp_all add: ngx_healthcheck_read_worker_def)
    with again(2) show thesis by (metis that(2))
  qed
qed

text \<open>The wait is bounded by the clock: how many readings the loop takes.\<close>

definition expired :: "u64 \<Rightarrow> (int \<times> u64) option \<Rightarrow> bool" where
  "expired limit t = (case timespec_ns t of None \<Rightarrow> True | Some now \<Rightarrow> limit \<le> now)"

lemma trylock_tape: "shmtx_trylock l w = (got, w1) \<Longrightarrow> k_clock w1 = k_clock w"
  by (metis k_clock_trylock snd_conv)

lemma recover_tape: "ngx_healthcheck_recover_lock w = (freed, w1) \<Longrightarrow> k_clock w1 = k_clock w"
  by (metis k_clock_recover snd_conv)

lemma lock_loop_tape:
  assumes "lock_loop l limit now w = (rc, w')"
  shows "\<exists>n. k_clock w' = drop n (k_clock w) \<and> n \<le> length (k_clock w) \<and>
    (\<forall>i < n - 1. \<not> expired limit (k_clock w ! i)) \<and>
    (rc = NGX_OK \<longrightarrow> now < limit \<and> (\<forall>i < n. \<not> expired limit (k_clock w ! i)))"
  using assms
proof (induction l limit now w rule: lock_loop.induct)
  case (1 l limit now w)
  obtain got w1 where t: "shmtx_trylock l w = (got, w1)" by fastforce
  obtain freed w2 where r: "ngx_healthcheck_recover_lock w1 = (freed, w2)" by fastforce
  obtain n w3 where n: "ngx_healthcheck_now w2 = (n, w3)" by fastforce
  have c: "k_clock w1 = k_clock w" "k_clock w2 = k_clock w"
    using trylock_tape [OF t] recover_tape [OF r] by simp_all
  note unfold = lock_loop.simps [of l limit now w]
  consider "now \<ge> limit" | "\<not> now \<ge> limit" "got" | "\<not> now \<ge> limit" "\<not> got" "n = None"
    | m where "\<not> now \<ge> limit" "\<not> got" "n = Some m" by (cases n) auto
  then show ?case
  proof cases
    case 1
    with "1.prems" show ?thesis by (intro exI [of _ 0]) (simp add: unfold)
  next
    case 2
    with "1.prems" t c show ?thesis by (intro exI [of _ 0]) (simp add: unfold)
  next
    case 3
    have "\<exists>m \<le> 1. k_clock w3 = drop m (k_clock w) \<and> m \<le> length (k_clock w)"
      using n c by (cases "k_clock w") (auto simp: ngx_healthcheck_now_def)
    with 3 "1.prems" t r n show ?thesis by (auto simp: unfold)
  next
    case 4
    with n c obtain h where h: "k_clock w = h # k_clock w3" "timespec_ns h = Some m"
      by (cases "k_clock w") (auto simp: ngx_healthcheck_now_def)
    from 4 "1.prems" t r n have rest: "lock_loop l limit m w3 = (rc, w')" by (simp add: unfold)
    from "1.IH" [OF 4(1) t [symmetric] refl 4(2) r [symmetric] refl n [symmetric] 4(3) rest]
    obtain k where k: "k_clock w' = drop k (k_clock w3)" "k \<le> length (k_clock w3)"
      "\<forall>i < k - 1. \<not> expired limit (k_clock w3 ! i)"
      "rc = NGX_OK \<longrightarrow> m < limit \<and> (\<forall>i < k. \<not> expired limit (k_clock w3 ! i))" by blast
    have first: "0 < k \<or> rc = NGX_OK \<Longrightarrow> \<not> expired limit h"
    proof -
      assume "0 < k \<or> rc = NGX_OK"
      moreover have "k = 0 \<and> rc \<noteq> NGX_OK" if "limit \<le> m"
      proof -
        from rest that have "rc = NGX_AGAIN" "w' = w3" by (simp_all add: lock_loop.simps [of l limit m w3])
        moreover from this k(1) have "length (k_clock w3) = length (k_clock w3) - k"
          by (metis length_drop)
        ultimately show ?thesis using k(2) by auto
      qed
      ultimately show ?thesis using h(2) by (auto simp: expired_def)
    qed
    show ?thesis
    proof (intro exI [of _ "Suc k"] conjI)
      show "\<forall>i < Suc k - 1. \<not> expired limit (k_clock w ! i)"
        using k(3) first by (auto simp: h(1) nth_Cons' )
      show "rc = NGX_OK \<longrightarrow> now < limit \<and> (\<forall>i < Suc k. \<not> expired limit (k_clock w ! i))"
        using k(4) first 4(1) by (auto simp: h(1) nth_Cons')
    qed (use k h in auto)
  qed
qed

lemma lock_tape:
  assumes "ngx_healthcheck_lock l limit w = (rc, w')" and "limit \<noteq> 0"
  shows "\<exists>n. k_clock w' = drop n (k_clock w) \<and> n \<le> length (k_clock w) \<and>
    (\<forall>i < n - 1. \<not> expired limit (k_clock w ! i)) \<and>
    (rc = NGX_OK \<longrightarrow> 0 < n \<and> (\<forall>i < n. \<not> expired limit (k_clock w ! i)))"
proof -
  obtain r w1 where n: "ngx_healthcheck_now w = (r, w1)" by fastforce
  show ?thesis
  proof (cases r)
    case None
    with assms n have "rc = NGX_AGAIN" "w' = w1" by (simp_all add: ngx_healthcheck_lock_def)
    moreover have "\<exists>m \<le> 1. k_clock w1 = drop m (k_clock w) \<and> m \<le> length (k_clock w)"
      using n by (cases "k_clock w") (auto simp: ngx_healthcheck_now_def)
    ultimately show ?thesis by auto
  next
    case (Some m)
    with n obtain h where h: "k_clock w = h # k_clock w1" "timespec_ns h = Some m"
      by (cases "k_clock w") (auto simp: ngx_healthcheck_now_def)
    from assms n Some have loop: "lock_loop l limit m w1 = (rc, w')"
      by (simp add: ngx_healthcheck_lock_def)
    from lock_loop_tape [OF loop] obtain k where k: "k_clock w' = drop k (k_clock w1)"
      "k \<le> length (k_clock w1)" "\<forall>i < k - 1. \<not> expired limit (k_clock w1 ! i)"
      "rc = NGX_OK \<longrightarrow> m < limit \<and> (\<forall>i < k. \<not> expired limit (k_clock w1 ! i))" by blast
    have first: "\<not> expired limit h" if "0 < k \<or> rc = NGX_OK"
    proof (rule ccontr)
      assume "\<not> \<not> expired limit h"
      then have le: "limit \<le> m" using h(2) by (simp add: expired_def)
      with loop have "rc = NGX_AGAIN" "w' = w1" by (simp_all add: lock_loop.simps [of l limit m w1])
      moreover from this k(1) have "length (k_clock w1) = length (k_clock w1) - k"
        by (metis length_drop)
      ultimately show False using k(2) that by auto
    qed
    show ?thesis
      using k first by (intro exI [of _ "Suc k"]) (auto simp: h(1) nth_Cons')
  qed
qed

text \<open>
  A property of the zone that no step of another process breaks holds whenever this process looks:
  \<open>guarded P w\<close> says that it holds now and that every remaining entry of the tape keeps it.
\<close>

definition guarded :: "(peers_shm \<Rightarrow> bool) \<Rightarrow> 'a kernel_scheme \<Rightarrow> bool" where
  "guarded P w \<longleftrightarrow> P (k_shm w) \<and> (\<forall>e \<in> set (k_try w). \<forall>s. P s \<longrightarrow> P (snd e s))"

lemma guarded_trylock: "guarded P w \<Longrightarrow> shmtx_trylock l w = (got, w') \<Longrightarrow> guarded P w'"
  by (auto simp: guarded_def shmtx_trylock_def split: list.splits prod.splits)

lemma guarded_now: "guarded P w \<Longrightarrow> ngx_healthcheck_now w = (r, w') \<Longrightarrow> guarded P w'"
  by (auto elim!: nowE simp: guarded_def)

lemma guarded_recover: "guarded P w \<Longrightarrow> ngx_healthcheck_recover_lock w = (r, w') \<Longrightarrow> guarded P w'"
  by (auto elim!: recoverE simp: guarded_def)

lemma guarded_lock_loop: "lock_loop l limit now w = (rc, w') \<Longrightarrow> guarded P w \<Longrightarrow> guarded P w'"
proof (induction l limit now w rule: lock_loop.induct)
  case (1 l limit now w)
  obtain got w1 where t: "shmtx_trylock l w = (got, w1)" by fastforce
  obtain freed w2 where r: "ngx_healthcheck_recover_lock w1 = (freed, w2)" by fastforce
  obtain n w3 where n: "ngx_healthcheck_now w2 = (n, w3)" by fastforce
  have g: "guarded P w1" "guarded P w2" "guarded P w3"
    using guarded_trylock [OF "1.prems"(2) t] guarded_recover [OF _ r] guarded_now [OF _ n] by blast+
  show ?case
  proof (cases "now \<ge> limit \<or> got \<or> n = None")
    case True
    with "1.prems" t r n g show ?thesis
      by (auto simp: lock_loop.simps [of l limit now w] split: if_splits)
  next
    case False
    then obtain m where m: "\<not> now \<ge> limit" "\<not> got" "n = Some m" by auto
    with "1.prems"(1) t r n have "lock_loop l limit m w3 = (rc, w')"
      by (simp add: lock_loop.simps [of l limit now w])
    from "1.IH" [OF m(1) t [symmetric] refl m(2) r [symmetric] refl n [symmetric] m(3) this g(3)]
    show ?thesis .
  qed
qed

lemma guarded_lock: "ngx_healthcheck_lock l limit w = (rc, w') \<Longrightarrow> guarded P w \<Longrightarrow> guarded P w'"
  by (auto simp: ngx_healthcheck_lock_def split: prod.splits option.splits
      dest: guarded_now guarded_lock_loop)

lemma guarded_read_peer:
  assumes "ngx_healthcheck_read_peer i limit w = (r, w')" and "guarded P w"
  shows "guarded P w' \<and> (\<forall>st. r = Some st \<longrightarrow> (\<exists>s. P s \<and> st = peer_current (shm_peers s i)))"
proof -
  obtain rc w1 where l: "ngx_healthcheck_lock (PeerLock i) limit w = (rc, w1)" by fastforce
  from guarded_lock [OF l assms(2)] have g: "guarded P w1" .
  then have "P (k_shm w1)" "guarded P (shmtx_unlock (PeerLock i) w1)"
    by (simp_all add: guarded_def shmtx_unlock_def)
  with g assms(1) l show ?thesis
    by (auto simp: ngx_healthcheck_read_peer_def shm_peer_state_def split: ngx_rc.splits)
qed

section \<open>Properties\<close>

text \<open>C40. Deadline arithmetic saturates at the far future instead of wrapping: both operations give
  the exact value where it fits in 64 bits and the greatest 64-bit value otherwise, so a sum of
  times is never earlier than its summands.\<close>

theorem time_arithmetic_saturates:
  "unat (ngx_healthcheck_add_time a b) = min (unat a + unat b) (2 ^ 64 - 1) \<and>
   unat (ngx_healthcheck_mul_time a b) = min (unat a * unat b) (2 ^ 64 - 1) \<and>
   a \<le> ngx_healthcheck_add_time a b \<and> b \<le> ngx_healthcheck_add_time a b"
  by (simp only: unat_add_time unat_mul_time add_time_ge simp_thms)

text \<open>C16. The bounded lock: it is granted only on readings of the clock that are all before the
  limit, it stops at the first reading that has reached the limit (or fails), and it returns
  \<^verbatim>\<open>NGX_OK\<close> exactly when it has added the lock to the locks held; otherwise it returns
  \<^verbatim>\<open>NGX_AGAIN\<close> and holds nothing new.\<close>

theorem lock_bounded_by_limit:
  assumes "ngx_healthcheck_lock l limit w = (rc, w')" and "limit \<noteq> 0"
  shows "(rc = NGX_OK \<and> k_held w' = l # k_held w \<or> rc = NGX_AGAIN \<and> k_held w' = k_held w) \<and>
    (\<exists>n. k_clock w' = drop n (k_clock w) \<and> n \<le> length (k_clock w) \<and>
      (\<forall>i < n - 1. \<not> expired limit (k_clock w ! i)) \<and>
      (rc = NGX_OK \<longrightarrow> 0 < n \<and> (\<forall>i < n. \<not> expired limit (k_clock w ! i))))"
proof
  show "rc = NGX_OK \<and> k_held w' = l # k_held w \<or> rc = NGX_AGAIN \<and> k_held w' = k_held w"
    using assms(1) by (cases rule: lockE) simp_all
qed (rule lock_tape [OF assms])

definition zero_health :: health where
  "zero_health = \<lparr>h_access_time = 0, h_rise_count = 0, h_fall_count = 0, h_down = 0, h_last = 0,
     h_avg = 0, h_min = 0, h_max = 0, h_total = 0, h_samples = 0\<rparr>"

text \<open>Zeroed memory, as \<^verbatim>\<open>ngx_slab_calloc\<close> and \<^verbatim>\<open>ngx_memzero\<close> leave it.\<close>

definition zero_peer_state :: peer_state where
  "zero_peer_state = \<lparr>ps_health = zero_health, ps_started = 0, ps_owner = 0, ps_worker = 0,
     ps_instance = 0, ps_term = 0, ps_round = 0, ps_deadline = 0, ps_phase = INITIAL\<rparr>"

definition zero_worker_state :: worker_state where
  "zero_worker_state = \<lparr>ws_pid = 0, ws_instance = 0, ws_heartbeat = 0, ws_exiting = 0\<rparr>"

definition zero_worker_shm :: worker_shm where
  "zero_worker_shm = \<lparr>wk_published = 0, wk_slots = (zero_worker_state, zero_worker_state)\<rparr>"

definition zero_peer_shm :: peer_shm where
  "zero_peer_shm = \<lparr>sh_published = 0, sh_slots = (zero_peer_state, zero_peer_state), sh_sockaddr = [],
     sh_upstream_name = [], sh_check_sockaddr = [], sh_check_type = 0\<rparr>"

definition zero_peers_shm :: peers_shm where
  "zero_peers_shm = \<lparr>shm_magic = 0, shm_version = 0, shm_generation = 0, shm_number = 0,
     shm_worker_count = 0, shm_activated = 0, shm_activated_at = 0,
     shm_workers = (\<lambda>_. zero_worker_shm), shm_peers = (\<lambda>_. zero_peer_shm)\<rparr>"

text \<open>A process whose clock reads 10, 20 and 30 ns; the first attempt on a lock fails, its holder 7 is
  dead and is removed, the second attempt succeeds.\<close>

definition lock_example :: kernel where
  "lock_example = \<lparr>k_clock = [Some (0, 10), Some (0, 20), Some (0, 30)],
     k_try = [(False, id), (True, id)], k_kill = [(7, True, True)], k_held = [], k_pid = 3,
     k_quit = False, k_shm = zero_peers_shm\<rparr>"

theorem lock_bounded_by_limit_witness:
  "\<exists>w'. ngx_healthcheck_lock (PeerLock 0) 30 lock_example = (NGX_OK, w') \<and> k_held w' = [PeerLock 0]"
proof -
  have "ngx_healthcheck_lock (PeerLock 0) 30 lock_example =
      (NGX_OK, lock_example\<lparr>k_clock := [Some (0, 30)], k_try := [], k_kill := [], k_held := [PeerLock 0]\<rparr>)"
    by (simp add: ngx_healthcheck_lock_def lock_example_def ngx_healthcheck_now_def timespec_ns_def
      lock_loop.simps shmtx_trylock_def ngx_healthcheck_recover_lock_def
      ngx_healthcheck_add_time_def ngx_healthcheck_mul_time_def)
  from lock_bounded_by_limit [OF this] this show ?thesis by simp
qed

text \<open>C10. Publication is atomic for readers even if writers die between its two stores: after any
  sequence of finished and abandoned publications the record that a reader takes is the last finished
  one, whole, and the down bit that request routing reads without the lock is that record's.\<close>

theorem publication_survives_crashes:
  assumes "down_bit_ok p"
  shows "peer_current (interrupted_writes publish_stage ngx_healthcheck_publish p ws) =
      last (peer_current p # map fst (filter snd ws)) \<and>
    down_bit_ok (interrupted_writes publish_stage ngx_healthcheck_publish p ws)"
  using peer_cell.current_interrupted down_bit_interrupted [OF assms] by blast

theorem publication_survives_crashes_witness:
  "down_bit_ok zero_peer_shm \<and>
   peer_current (interrupted_writes publish_stage ngx_healthcheck_publish zero_peer_shm
     [(zero_peer_state\<lparr>ps_round := 1\<rparr>, True), (zero_peer_state\<lparr>ps_round := 2\<rparr>, False)]) =
   zero_peer_state\<lparr>ps_round := 1\<rparr>"
proof -
  have ok: "down_bit_ok zero_peer_shm"
    by (simp add: down_bit_ok_def zero_peer_shm_def peer_current_def slot_get_def zero_peer_state_def
      zero_health_def)
  from publication_survives_crashes [OF this, of "[(zero_peer_state\<lparr>ps_round := 1\<rparr>, True),
      (zero_peer_state\<lparr>ps_round := 2\<rparr>, False)]"] ok
  show ?thesis by (simp del: interrupted_writes.simps)
qed

end
