(* ===== verification/Config.thy ===== *)
theory Config
  imports Prelude "HOL-Library.Multiset"
begin

text \<open>
  The configuration structures of \<^verbatim>\<open>common.h.in\<close> and the directive handlers of
  \<^verbatim>\<open>configuration/ngx_healthcheck_config.c\<close>: the parser of the \<^verbatim>\<open>check\<close> directive with its defaults
  and cross-parameter checks, \<^verbatim>\<open>check_shm_size\<close> and the registration of peers.

  nginx's string and address functions are a parameter of the model, the record \<open>ngx_lib\<close>.  A failing
  allocation is an argument too: \<open>alloc k\<close> says whether the \<open>k\<close>-th allocation of a call succeeds.  The
  handlers write into the configuration structure as they go; where they fail, nginx discards the
  whole configuration, so a failure is an error value without the half-written structure.
\<close>

section \<open>Structures of common.h.in\<close>

abbreviation (input) NGX_CHECK_TYPE_TCP :: u64 where "NGX_CHECK_TYPE_TCP \<equiv> 1"
abbreviation (input) NGX_CHECK_TYPE_UDP :: u64 where "NGX_CHECK_TYPE_UDP \<equiv> 4"

record check_conf =
  cc_type :: u64
  cc_name :: bytes
  cc_default_send :: bytes

record srv_conf =
  c_port :: u64
  c_fall_count :: u64
  c_rise_count :: u64
  c_check_interval :: u64
  c_check_timeout :: u64
  c_check_type :: "check_conf option"
  c_send :: bytes
  c_default_down :: u64
  c_keep_connection :: bool
  c_rehandshake :: u64
  c_keepalive :: bool
  c_keepalive_idle :: u64
  c_keepalive_interval :: u64
  c_keepalive_count :: u64

text \<open>\<^verbatim>\<open>ngx_addr_t\<close>; the address length is the length of the byte string.\<close>

record addr =
  a_sockaddr :: bytes
  a_name :: bytes

text \<open>The configured part of \<^verbatim>\<open>ngx_upstream_check_peer_t\<close>.\<close>

record peer_conf =
  p_index :: u64
  p_upstream_name :: bytes
  p_check_addr :: addr
  p_addr :: addr
  p_conf :: srv_conf

text \<open>\<^verbatim>\<open>ngx_healthcheck_main_conf_t\<close> with the peers of one module.\<close>

record main_conf =
  m_check_shm_size :: u64
  m_peers :: "peer_conf list"

section \<open>nginx's functions\<close>

datatype family = AF_INET | AF_INET6 | AF_OTHER

text \<open>
  \<open>l_atoi\<close> and \<open>l_parse_size\<close> are \<^verbatim>\<open>ngx_atoi\<close> and \<^verbatim>\<open>ngx_parse_size\<close>, \<open>l_parse_time\<close> is
  \<^verbatim>\<open>ngx_parse_time(value, 1)\<close>, all with -1 for \<^verbatim>\<open>NGX_ERROR\<close>; \<open>l_strlchr\<close> gives the offset of the
  first occurrence; \<open>l_tunable\<close> and \<open>l_inet6\<close> are \<^verbatim>\<open>NGX_HAVE_KEEPALIVE_TUNABLE\<close> and
  \<^verbatim>\<open>NGX_HAVE_INET6\<close>.
\<close>

record ngx_lib =
  l_atoi :: "bytes \<Rightarrow> int"
  l_parse_time :: "bytes \<Rightarrow> int"
  l_parse_size :: "bytes \<Rightarrow> int"
  l_strcasecmp :: "bytes \<Rightarrow> bytes \<Rightarrow> int"
  l_strncasecmp :: "bytes \<Rightarrow> bytes \<Rightarrow> nat \<Rightarrow> int"
  l_strlchr :: "bytes \<Rightarrow> char \<Rightarrow> nat option"
  l_tunable :: bool
  l_inet6 :: bool
  l_family :: "bytes \<Rightarrow> family"
  l_set_port :: "bytes \<Rightarrow> u64 \<Rightarrow> bytes"
  l_ntop :: "bytes \<Rightarrow> nat \<Rightarrow> bytes"
  l_inet_len :: nat
  l_inet6_len :: nat

text \<open>The documented range of the number parsers.\<close>

definition lib_ok :: "ngx_lib \<Rightarrow> bool" where
  "lib_ok lib \<longleftrightarrow> (\<forall>v. - 1 \<le> l_atoi lib v \<and> l_atoi lib v < 2 ^ 63 \<and>
     - 1 \<le> l_parse_time lib v \<and> l_parse_time lib v < 2 ^ 63)"

text \<open>\<^verbatim>\<open>ngx_strncmp(value, "name=", n) == 0\<close> on a NUL-terminated configuration token.\<close>

definition starts_with :: "bytes \<Rightarrow> bytes \<Rightarrow> bool" where
  "starts_with lit v \<longleftrightarrow> take (length lit) v = lit"

section \<open>The check directive: parsing\<close>

datatype handshake = HANDSHAKE_OFF | HANDSHAKE_DEFAULT | HANDSHAKE_TIME

record check_args =
  g_interval :: u64
  g_timeout :: u64
  g_timeout_set :: bool
  g_reuse :: handshake
  g_reuse_time :: u64
  g_keepalive :: bool
  g_keepalive_handshake :: handshake
  g_keepalive_time :: u64
  g_keepalive_idle :: u64
  g_keepalive_interval :: u64
  g_keepalive_count :: u64

datatype conf_error =
    InvalidParameter bytes
  | IntervalTooSmall
  | TimeoutNotLess
  | TcpOnly
  | RehandshakeNotGreater
  | KeepaliveUnsupported
  | IdleNotLess
  | TooShortForProbes
  | IntervalExceedsIdle

definition ngx_healthcheck_types :: "check_conf list" where
  "ngx_healthcheck_types =
     [\<lparr>cc_type = NGX_CHECK_TYPE_TCP, cc_name = ''tcp'', cc_default_send = []\<rparr>,
      \<lparr>cc_type = NGX_CHECK_TYPE_UDP, cc_name = ''udp'', cc_default_send = ''NGX_UDP_CHECKER''\<rparr>]"

definition REHANDSHAKE_MAX :: u64 where "REHANDSHAKE_MAX = drop_bit 1 UINT64_MAX"

text \<open>The result is the new mode and time; \<open>off\<close> and \<open>on\<close> leave the time as it was.\<close>

definition ngx_healthcheck_parse_handshake ::
  "ngx_lib \<Rightarrow> bytes \<Rightarrow> handshake \<times> u64 \<Rightarrow> (handshake \<times> u64) option" where
  "ngx_healthcheck_parse_handshake lib value cur =
     (if length value = 3 \<and> l_strncasecmp lib value ''off'' 3 = 0 then Some (HANDSHAKE_OFF, snd cur)
      else if length value = 0 \<or> (length value = 2 \<and> l_strncasecmp lib value ''on'' 2 = 0)
      then Some (HANDSHAKE_DEFAULT, snd cur)
      else let seconds = l_parse_time lib value in
        if seconds = - 1 \<or> seconds = 0 \<or> word_of_int seconds > REHANDSHAKE_MAX div 1000 then None
        else Some (HANDSHAKE_TIME, word_of_int seconds * 1000))"

definition KEEPALIVE_TIME_MAX :: int where "KEEPALIVE_TIME_MAX = 32767"
definition KEEPCNT_MAX :: int where "KEEPCNT_MAX = 127"

text \<open>One colon-separated field of \<^verbatim>\<open>keepalive=\<close>, by its position.\<close>

definition keepalive_field :: "ngx_lib \<Rightarrow> nat \<Rightarrow> bytes \<Rightarrow> check_args \<Rightarrow> check_args option" where
  "keepalive_field lib n field a =
     (if n = 0 then
        (case ngx_healthcheck_parse_handshake lib field (g_keepalive_handshake a, g_keepalive_time a) of
           None \<Rightarrow> None
         | Some (mode, t) \<Rightarrow> Some (a\<lparr>g_keepalive_handshake := mode, g_keepalive_time := t\<rparr>))
      else if n = 1 \<or> n = 2 then
        (if field = [] then Some a
         else let seconds = l_parse_time lib field in
           if seconds = - 1 \<or> seconds = 0 \<or> seconds > KEEPALIVE_TIME_MAX then None
           else if n = 1 then Some (a\<lparr>g_keepalive_idle := word_of_int seconds\<rparr>)
           else Some (a\<lparr>g_keepalive_interval := word_of_int seconds\<rparr>))
      else if n = 3 then
        (if field = [] then Some a
         else let count = l_atoi lib field in
           if count < 1 \<or> count > KEEPCNT_MAX then None
           else Some (a\<lparr>g_keepalive_count := word_of_int count\<rparr>))
      else None)"

text \<open>
  The loop over the fields.  \<open>Some rest\<close> is the text from \<open>p\<close> to \<open>last\<close> and \<open>None\<close> is the state
  \<open>p = last + 1\<close> that ends it, so an empty last field is still visited.  The fifth field is an error,
  which bounds the loop.
\<close>

function keepalive_fields :: "ngx_lib \<Rightarrow> nat \<Rightarrow> bytes option \<Rightarrow> check_args \<Rightarrow> check_args option" where
  "keepalive_fields lib n p a =
     (case p of
        None \<Rightarrow> Some a
      | Some rest \<Rightarrow>
          (let e = (case l_strlchr lib rest (CHR '':'') of None \<Rightarrow> length rest | Some k \<Rightarrow> k) in
           if n > 3 then None
           else case keepalive_field lib n (take e rest) a of
             None \<Rightarrow> None
           | Some a' \<Rightarrow>
               keepalive_fields lib (Suc n) (if e < length rest then Some (drop (Suc e) rest) else None) a'))"
  by pat_completeness auto
termination
  by (relation "measure (\<lambda>(lib, n, p, a). 4 - n)") auto

declare keepalive_fields.simps [simp del]

definition ngx_healthcheck_parse_keepalive :: "ngx_lib \<Rightarrow> bytes \<Rightarrow> check_args \<Rightarrow> check_args option" where
  "ngx_healthcheck_parse_keepalive lib value a =
     (if length value = 0 then None
      else if length value = 3 \<and> l_strncasecmp lib value ''off'' 3 = 0
      then Some (a\<lparr>g_keepalive := False\<rparr>)
      else keepalive_fields lib 0 (Some value)
             (a\<lparr>g_keepalive := True, g_keepalive_handshake := HANDSHAKE_DEFAULT,
                g_keepalive_idle := 0, g_keepalive_interval := 0, g_keepalive_count := 0\<rparr>))"

text \<open>The local variables of \<^verbatim>\<open>ngx_healthcheck_check\<close> and the protocol it writes into the structure.\<close>

record check_state =
  cs_args :: check_args
  cs_port :: u64
  cs_rise :: u64
  cs_fall :: u64
  cs_down :: "u64 option"
  cs_type :: "check_conf option"

text \<open>
  One pass of the parameter loop: which branch of the \<^verbatim>\<open>if\<close> chain is taken, what that branch does with
  the text after the \<^verbatim>\<open>=\<close>, and the two together.  \<open>None\<close> is \<^verbatim>\<open>goto invalid\<close>.
\<close>

datatype param = P_type | P_port | P_interval | P_timeout | P_rise | P_fall | P_default_down
  | P_reuse | P_keepalive

definition param_of :: "bytes \<Rightarrow> param option" where
  "param_of v =
     (if starts_with ''type='' v then Some P_type
      else if starts_with ''port='' v then Some P_port
      else if starts_with ''interval='' v then Some P_interval
      else if starts_with ''timeout='' v then Some P_timeout
      else if starts_with ''rise='' v then Some P_rise
      else if starts_with ''fall='' v then Some P_fall
      else if starts_with ''default_down='' v then Some P_default_down
      else if starts_with ''reuse='' v then Some P_reuse
      else if starts_with ''keepalive='' v then Some P_keepalive
      else None)"

fun param_apply :: "ngx_lib \<Rightarrow> param \<Rightarrow> bytes \<Rightarrow> check_state \<Rightarrow> check_state option" where
  "param_apply lib P_type v st =
     (case find (\<lambda>t. drop 5 v = cc_name t) ngx_healthcheck_types of
        None \<Rightarrow> None
      | Some t \<Rightarrow> Some (st\<lparr>cs_type := Some t\<rparr>))"
| "param_apply lib P_port v st =
     (let number = l_atoi lib (drop 5 v) in
      if number < 1 \<or> number > 65535 then None else Some (st\<lparr>cs_port := word_of_int number\<rparr>))"
| "param_apply lib P_interval v st =
     (let number = l_atoi lib (drop 9 v) in
      if number = - 1 \<or> number = 0 then None
      else Some (st\<lparr>cs_args := (cs_args st)\<lparr>g_interval := word_of_int number\<rparr>\<rparr>))"
| "param_apply lib P_timeout v st =
     (let number = l_atoi lib (drop 8 v) in
      if number = - 1 \<or> number = 0 then None
      else Some (st\<lparr>cs_args := (cs_args st)\<lparr>g_timeout := word_of_int number, g_timeout_set := True\<rparr>\<rparr>))"
| "param_apply lib P_rise v st =
     (let rise = word_of_int (l_atoi lib (drop 5 v)) in
      if rise = UINT64_MAX \<or> rise = 0 then None else Some (st\<lparr>cs_rise := rise\<rparr>))"
| "param_apply lib P_fall v st =
     (let fall = word_of_int (l_atoi lib (drop 5 v)) in
      if fall = UINT64_MAX \<or> fall = 0 then None else Some (st\<lparr>cs_fall := fall\<rparr>))"
| "param_apply lib P_default_down v st =
     (if l_strcasecmp lib (drop 13 v) ''true'' = 0 then Some (st\<lparr>cs_down := Some 1\<rparr>)
      else if l_strcasecmp lib (drop 13 v) ''false'' = 0 then Some (st\<lparr>cs_down := Some 0\<rparr>)
      else None)"
| "param_apply lib P_reuse v st =
     (if drop 6 v = [] then None
      else case ngx_healthcheck_parse_handshake lib (drop 6 v)
                  (g_reuse (cs_args st), g_reuse_time (cs_args st)) of
        None \<Rightarrow> None
      | Some (mode, t) \<Rightarrow> Some (st\<lparr>cs_args := (cs_args st)\<lparr>g_reuse := mode, g_reuse_time := t\<rparr>\<rparr>))"
| "param_apply lib P_keepalive v st =
     (case ngx_healthcheck_parse_keepalive lib (drop 10 v) (cs_args st) of
        None \<Rightarrow> None
      | Some a \<Rightarrow> Some (st\<lparr>cs_args := a\<rparr>))"

definition check_param :: "ngx_lib \<Rightarrow> bytes \<Rightarrow> check_state \<Rightarrow> check_state option" where
  "check_param lib v st = (case param_of v of None \<Rightarrow> None | Some k \<Rightarrow> param_apply lib k v st)"

fun check_params :: "ngx_lib \<Rightarrow> bytes list \<Rightarrow> check_state \<Rightarrow> conf_error + check_state" where
  "check_params lib [] st = Inr st"
| "check_params lib (v # vs) st =
     (case check_param lib v st of
        None \<Rightarrow> Inl (InvalidParameter v)
      | Some st' \<Rightarrow> check_params lib vs st')"

section \<open>The check directive: defaults and cross-parameter checks\<close>

text \<open>
  \<open>handshake\<close> is the effective reconnection interval in ms, \<open>UINT64_MAX\<close> for none.
\<close>

definition keepalive_idle_of :: "srv_conf \<Rightarrow> check_args \<Rightarrow> u64 \<Rightarrow> conf_error + u64" where
  "keepalive_idle_of conf a handshake =
     (if g_keepalive_idle a \<noteq> 0 then
        (let idle = g_keepalive_idle a in
         if handshake \<noteq> UINT64_MAX \<and> idle * 1000 \<ge> handshake then Inl IdleNotLess else Inr idle)
      else
        (let idle = (c_check_interval conf + 999) div 1000;
             idle' = (if handshake \<noteq> UINT64_MAX then min idle ((handshake - 1) div 1000) else idle)
         in if idle' < 1 then Inl TooShortForProbes
            else Inr (min idle' (word_of_int KEEPALIVE_TIME_MAX))))"

definition ngx_healthcheck_finish_keepalive ::
  "ngx_lib \<Rightarrow> srv_conf \<Rightarrow> check_args \<Rightarrow> u64 \<Rightarrow> conf_error + srv_conf" where
  "ngx_healthcheck_finish_keepalive lib conf a handshake =
     (if \<not> l_tunable lib then Inl KeepaliveUnsupported
      else case keepalive_idle_of conf a handshake of
        Inl e \<Rightarrow> Inl e
      | Inr idle \<Rightarrow>
          (let conf' = conf\<lparr>c_keepalive_idle := idle,
                 c_keepalive_interval := (if g_keepalive_interval a \<noteq> 0 then g_keepalive_interval a else 1),
                 c_keepalive_count := (if g_keepalive_count a \<noteq> 0 then g_keepalive_count a else 3)\<rparr>
           in if c_keepalive_interval conf' > c_keepalive_idle conf' then Inl IntervalExceedsIdle
              else Inr conf'))"

text \<open>The reconnection interval that \<open>reuse\<close> and the first field of \<open>keepalive\<close> each ask for.\<close>

definition handshake_default :: "u64 \<Rightarrow> u64" where
  "handshake_default interval = min (max 30000 (interval * 2)) REHANDSHAKE_MAX"

definition reuse_time_of :: "check_args \<Rightarrow> u64" where
  "reuse_time_of a =
     (if g_reuse a = HANDSHAKE_DEFAULT then handshake_default (g_interval a)
      else if g_reuse a = HANDSHAKE_TIME then g_reuse_time a
      else UINT64_MAX)"

definition keepalive_time_of :: "check_args \<Rightarrow> u64" where
  "keepalive_time_of a =
     (if g_keepalive a \<and> g_keepalive_handshake a = HANDSHAKE_DEFAULT then handshake_default (g_interval a)
      else if g_keepalive a \<and> g_keepalive_handshake a = HANDSHAKE_TIME then g_keepalive_time a
      else UINT64_MAX)"

definition ngx_healthcheck_finish_conf ::
  "ngx_lib \<Rightarrow> srv_conf \<Rightarrow> check_args \<Rightarrow> conf_error + srv_conf" where
  "ngx_healthcheck_finish_conf lib conf a =
     (if g_interval a < 100 then Inl IntervalTooSmall
      else if g_timeout_set a \<and> g_timeout a \<ge> g_interval a then Inl TimeoutNotLess
      else
        (let timeout = (if g_timeout_set a then g_timeout a
                        else min 5000 (g_interval a - g_interval a div 10));
             conf1 = conf\<lparr>c_check_interval := g_interval a, c_check_timeout := timeout\<rparr>
         in if map_option cc_type (c_check_type conf1) \<noteq> Some NGX_CHECK_TYPE_TCP
               \<and> (g_reuse a \<noteq> HANDSHAKE_OFF \<or> g_keepalive a)
            then Inl TcpOnly
            else
              (let reuse = reuse_time_of a; keepalive = keepalive_time_of a
               in if reuse \<le> g_interval a \<or> keepalive \<le> g_interval a then Inl RehandshakeNotGreater
                  else
                    (let handshake = min reuse keepalive;
                         conf2 = conf1\<lparr>c_keep_connection := g_reuse a \<noteq> HANDSHAKE_OFF \<or> g_keepalive a,
                                   c_rehandshake := (if handshake = UINT64_MAX then 0 else handshake),
                                   c_keepalive := g_keepalive a\<rparr>
                     in if \<not> g_keepalive a then Inr conf2
                        else ngx_healthcheck_finish_keepalive lib conf2 a handshake))))"

definition check_start :: check_state where
  "check_start =
     \<lparr>cs_args = \<lparr>g_interval = 5000, g_timeout = 0, g_timeout_set = False, g_reuse = HANDSHAKE_OFF,
        g_reuse_time = 0, g_keepalive = False, g_keepalive_handshake = HANDSHAKE_OFF,
        g_keepalive_time = 0, g_keepalive_idle = 0, g_keepalive_interval = 0, g_keepalive_count = 0\<rparr>,
      cs_port = 0, cs_rise = 2, cs_fall = 3, cs_down = None, cs_type = None\<rparr>"

definition check_apply :: "srv_conf \<Rightarrow> check_state \<Rightarrow> srv_conf" where
  "check_apply conf st =
     (let t = (case cs_type st of None \<Rightarrow> hd ngx_healthcheck_types | Some t \<Rightarrow> t)
      in conf\<lparr>c_check_type := Some t, c_port := cs_port st, c_rise_count := cs_rise st,
              c_fall_count := cs_fall st,
              c_default_down := (case cs_down st of None \<Rightarrow> 0 | Some d \<Rightarrow> d),
              c_send := cc_default_send t\<rparr>)"

text \<open>The whole handler; \<open>params\<close> are the arguments after the directive's name.\<close>

definition ngx_healthcheck_check :: "ngx_lib \<Rightarrow> srv_conf \<Rightarrow> bytes list \<Rightarrow> conf_error + srv_conf" where
  "ngx_healthcheck_check lib conf params =
     (case check_params lib params check_start of
        Inl e \<Rightarrow> Inl e
      | Inr st \<Rightarrow> ngx_healthcheck_finish_conf lib (check_apply conf st) (cs_args st))"

section \<open>The other configuration handlers\<close>

definition zero_srv_conf :: srv_conf where
  "zero_srv_conf = \<lparr>c_port = 0, c_fall_count = 0, c_rise_count = 0, c_check_interval = 0,
     c_check_timeout = 0, c_check_type = None, c_send = [], c_default_down = 0,
     c_keep_connection = False, c_rehandshake = 0, c_keepalive = False, c_keepalive_idle = 0,
     c_keepalive_interval = 0, c_keepalive_count = 0\<rparr>"

definition ngx_healthcheck_create_main_conf :: "(nat \<Rightarrow> bool) \<Rightarrow> main_conf option" where
  "ngx_healthcheck_create_main_conf alloc =
     (if \<not> alloc 0 then None
      else if \<not> alloc 1 \<or> \<not> alloc 2 then None
      else Some \<lparr>m_check_shm_size = 0, m_peers = []\<rparr>)"

definition ngx_healthcheck_create_srv_conf :: "(nat \<Rightarrow> bool) \<Rightarrow> srv_conf option" where
  "ngx_healthcheck_create_srv_conf alloc = (if alloc 0 then Some zero_srv_conf else None)"

text \<open>The error is the message that nginx prints.\<close>

definition ngx_healthcheck_shm_size :: "ngx_lib \<Rightarrow> main_conf \<Rightarrow> bytes \<Rightarrow> string + main_conf" where
  "ngx_healthcheck_shm_size lib main value =
     (if m_check_shm_size main \<noteq> 0 then Inl ''is duplicate''
      else let size = l_parse_size lib value in
        if size = - 1 then Inl ''invalid value''
        else Inr (main\<lparr>m_check_shm_size := word_of_int size\<rparr>))"

text \<open>The address that is probed: the server's own, or a copy with the configured port.\<close>

definition check_address :: "ngx_lib \<Rightarrow> (nat \<Rightarrow> bool) \<Rightarrow> srv_conf \<Rightarrow> addr \<Rightarrow> addr option" where
  "check_address lib alloc conf address =
     (if c_port conf = 0 then Some address
      else
        (let room = (case l_family lib (a_sockaddr address) of
             AF_INET \<Rightarrow> Some (l_inet_len lib + 6)
           | AF_INET6 \<Rightarrow> (if l_inet6 lib then Some (l_inet6_len lib + 6) else None)
           | AF_OTHER \<Rightarrow> None)
         in case room of
           None \<Rightarrow> None
         | Some len \<Rightarrow>
             if \<not> alloc 0 \<or> \<not> alloc 1 \<or> \<not> alloc 2 then None
             else let sa = l_set_port lib (a_sockaddr address) (c_port conf)
               in Some \<lparr>a_sockaddr = sa, a_name = l_ntop lib sa len\<rparr>))"

text \<open>
  The first component is the C result, the index or \<^verbatim>\<open>(ngx_uint_t) NGX_ERROR\<close>.  \<open>conf\<close> may be
  NULL.  Allocation 3 is the array slot.
\<close>

definition ngx_healthcheck_add_peer ::
  "ngx_lib \<Rightarrow> (nat \<Rightarrow> bool) \<Rightarrow> main_conf \<Rightarrow> srv_conf option \<Rightarrow> bytes \<Rightarrow> addr \<Rightarrow> u64 \<times> main_conf" where
  "ngx_healthcheck_add_peer lib alloc main conf upstream address =
     (case conf of
        None \<Rightarrow> (UINT64_MAX, main)
      | Some conf \<Rightarrow>
          if c_check_interval conf = 0 then (UINT64_MAX, main)
          else case check_address lib alloc conf address of
            None \<Rightarrow> (UINT64_MAX, main)
          | Some check \<Rightarrow>
              if \<not> alloc 3 then (UINT64_MAX, main)
              else let i = word_of_nat (length (m_peers main)) in
                (i, main\<lparr>m_peers := m_peers main @
                   [\<lparr>p_index = i, p_upstream_name = upstream, p_check_addr = check,
                     p_addr = address, p_conf = conf\<rparr>]\<rparr>))"

section \<open>What the parser accepts\<close>

text \<open>The ranges that every parsed parameter keeps.\<close>

definition args_wf :: "check_args \<Rightarrow> bool" where
  "args_wf a \<longleftrightarrow> unat (g_interval a) < 2 ^ 63 \<and> (g_timeout_set a \<longrightarrow> g_timeout a \<noteq> 0) \<and>
     unat (g_keepalive_idle a) \<le> 32767 \<and> unat (g_keepalive_interval a) \<le> 32767 \<and>
     unat (g_keepalive_count a) \<le> 127"

definition down_ok :: "u64 option \<Rightarrow> bool" where
  "down_ok d \<longleftrightarrow> d \<in> {None, Some 0, Some 1}"

definition type_ok :: "check_conf option \<Rightarrow> bool" where
  "type_ok t \<longleftrightarrow> (\<forall>c. t = Some c \<longrightarrow> c \<in> set ngx_healthcheck_types)"

definition state_wf :: "check_state \<Rightarrow> bool" where
  "state_wf st \<longleftrightarrow> args_wf (cs_args st) \<and> unat (cs_port st) \<le> 65535 \<and> cs_rise st \<noteq> 0 \<and> cs_fall st \<noteq> 0 \<and>
     down_ok (cs_down st) \<and> type_ok (cs_type st)"

lemma unat_word_of_int: "0 \<le> n \<Longrightarrow> n < 2 ^ 64 \<Longrightarrow> unat (word_of_int n :: u64) = nat n"
  by (simp add: unsigned_of_int take_bit_int_eq_self)

lemma word_of_int_nonzero: "0 < n \<Longrightarrow> n < 2 ^ 64 \<Longrightarrow> (word_of_int n :: u64) \<noteq> 0"
  using unat_word_of_int [of n] by (auto simp: unat_eq_zero_iff [symmetric])

lemma keepalive_field_wf:
  assumes "lib_ok lib" and "args_wf a" and "keepalive_field lib n field a = Some a'"
  shows "args_wf a'"
proof -
  have "- 1 \<le> l_parse_time lib field" "- 1 \<le> l_atoi lib field" using assms(1) by (auto simp: lib_ok_def)
  with assms(2,3) show ?thesis
    by (auto simp: keepalive_field_def args_wf_def Let_def unat_word_of_int KEEPALIVE_TIME_MAX_def
        KEEPCNT_MAX_def split: if_splits option.splits prod.splits)
qed

lemma keepalive_fields_wf:
  assumes "lib_ok lib" and "args_wf a" and "keepalive_fields lib n p a = Some a'"
  shows "args_wf a'"
  using assms
proof (induction lib n p a rule: keepalive_fields.induct)
  case (1 lib n p a)
  show ?case
  proof (cases p)
    case None
    with 1 show ?thesis by (simp add: keepalive_fields.simps [of lib n None a])
  next
    case (Some rest)
    let ?e = "case l_strlchr lib rest (CHR '':'') of None \<Rightarrow> length rest | Some k \<Rightarrow> k"
    from 1(4) Some obtain a1 where n: "\<not> n > 3" and a1: "keepalive_field lib n (take ?e rest) a = Some a1"
      and rest: "keepalive_fields lib (Suc n) (if ?e < length rest then Some (drop (Suc ?e) rest) else None) a1 = Some a'"
      by (auto simp: keepalive_fields.simps [of lib n "Some rest" a] Let_def split: if_splits option.splits)
    from keepalive_field_wf [OF 1(2) 1(3) a1] have "args_wf a1" .
    from 1(1) [OF Some refl n a1 1(2) this rest] show ?thesis .
  qed
qed

lemma parse_keepalive_wf:
  assumes "lib_ok lib" and "args_wf a" and "ngx_healthcheck_parse_keepalive lib v a = Some a'"
  shows "args_wf a'"
proof -
  let ?a = "a\<lparr>g_keepalive := True, g_keepalive_handshake := HANDSHAKE_DEFAULT,
                g_keepalive_idle := 0, g_keepalive_interval := 0, g_keepalive_count := 0\<rparr>"
  have "args_wf ?a" using assms(2) by (simp add: args_wf_def)
  from keepalive_fields_wf [OF assms(1) this, of 0 "Some v" a'] assms(2,3) show ?thesis
    by (auto simp: ngx_healthcheck_parse_keepalive_def args_wf_def split: if_splits)
qed

lemma param_apply_wf:
  assumes lib: "lib_ok lib" and st: "state_wf st" and p: "param_apply lib k v st = Some st'"
  shows "state_wf st'"
proof -
  have r: "- 1 \<le> l_atoi lib x" "l_atoi lib x < 2 ^ 63" for x using lib by (auto simp: lib_ok_def)
  have pos: "0 < l_atoi lib x" if "l_atoi lib x \<noteq> - 1" "l_atoi lib x \<noteq> 0" for x
    using r(1) [of x] that by linarith
  have args: "args_wf (cs_args st)" using st by (simp add: state_wf_def)
  show ?thesis
  proof (cases k)
    case P_type
    with st p show ?thesis
      by (auto simp: state_wf_def type_ok_def find_Some_iff split: option.splits)
  next
    case P_port
    with p obtain n where n: "1 \<le> n" "n \<le> 65535" "st' = st\<lparr>cs_port := word_of_int n\<rparr>"
      by (auto simp: Let_def not_less split: if_splits)
    with st show ?thesis by (simp add: state_wf_def unat_word_of_int)
  next
    case P_interval
    with p obtain n where n: "n = l_atoi lib (drop 9 v)" "n \<noteq> - 1" "n \<noteq> 0"
      "st' = st\<lparr>cs_args := (cs_args st)\<lparr>g_interval := word_of_int n\<rparr>\<rparr>"
      by (auto simp: Let_def split: if_splits)
    then have "unat (word_of_int n :: u64) < 2 ^ 63"
      using pos [of "drop 9 v"] r(2) [of "drop 9 v"] by (simp add: unat_word_of_int)
    with n(4) st args show ?thesis by (simp add: state_wf_def args_wf_def)
  next
    case P_timeout
    with p obtain n where n: "n = l_atoi lib (drop 8 v)" "n \<noteq> - 1" "n \<noteq> 0"
      "st' = st\<lparr>cs_args := (cs_args st)\<lparr>g_timeout := word_of_int n, g_timeout_set := True\<rparr>\<rparr>"
      by (auto simp: Let_def split: if_splits)
    then have "(word_of_int n :: u64) \<noteq> 0"
      using pos [of "drop 8 v"] r(2) [of "drop 8 v"] by (simp add: word_of_int_nonzero)
    with n(4) st args show ?thesis by (simp add: state_wf_def args_wf_def)
  next
    case P_default_down
    with st p show ?thesis by (auto simp: state_wf_def down_ok_def split: if_splits)
  next
    case P_keepalive
    with st p parse_keepalive_wf [OF lib args] show ?thesis
      by (auto simp: state_wf_def split: option.splits)
  qed (use st p in \<open>auto simp: state_wf_def args_wf_def Let_def split: if_splits option.splits\<close>)
qed

lemma check_params_wf:
  "lib_ok lib \<Longrightarrow> state_wf st \<Longrightarrow> check_params lib vs st = Inr st' \<Longrightarrow> state_wf st'"
  by (induction vs arbitrary: st) (auto simp: check_param_def dest: param_apply_wf split: option.splits)

lemma check_start_wf: "state_wf check_start"
  by (simp add: state_wf_def args_wf_def check_start_def down_ok_def type_ok_def)

section \<open>Well-formed configurations\<close>

definition conf_wf :: "srv_conf \<Rightarrow> bool" where
  "conf_wf c \<longleftrightarrow>
     100 \<le> c_check_interval c \<and> 0 < c_check_timeout c \<and> c_check_timeout c < c_check_interval c \<and>
     unat (c_port c) \<le> 65535 \<and> c_rise_count c \<noteq> 0 \<and> c_fall_count c \<noteq> 0 \<and>
     c_default_down c \<in> {0, 1} \<and>
     (\<exists>t \<in> set ngx_healthcheck_types. c_check_type c = Some t \<and> c_send c = cc_default_send t \<and>
        (c_keep_connection c \<longrightarrow> cc_type t = NGX_CHECK_TYPE_TCP)) \<and>
     (c_rehandshake c \<noteq> 0 \<longrightarrow> c_check_interval c < c_rehandshake c \<and> c_keep_connection c) \<and>
     (c_keepalive c \<longrightarrow> c_keep_connection c \<and>
        1 \<le> unat (c_keepalive_interval c) \<and> c_keepalive_interval c \<le> c_keepalive_idle c \<and>
        unat (c_keepalive_idle c) \<le> 32767 \<and>
        1 \<le> unat (c_keepalive_count c) \<and> unat (c_keepalive_count c) \<le> 127 \<and>
        (c_rehandshake c \<noteq> 0 \<longrightarrow> unat (c_keepalive_idle c) * 1000 < unat (c_rehandshake c)))"

lemma unat_ge_one: "1 \<le> unat (x :: u64) \<longleftrightarrow> x \<noteq> 0"
  by (simp add: Suc_le_eq unat_gt_0)

lemma default_timeout_less:
  assumes "100 \<le> (i :: u64)"
  shows "0 < min 5000 (i - i div 10)" and "min 5000 (i - i div 10) < i"
proof -
  have "unat (i div 10) = unat i div 10" by (simp add: unat_div_u64)
  then have "i div 10 \<le> i" "unat (i - i div 10) = unat i - unat i div 10"
    by (simp_all add: word_le_nat_alt unat_sub)
  then show "0 < min 5000 (i - i div 10)" "min 5000 (i - i div 10) < i"
    using assms by (auto simp: min_def word_le_nat_alt word_less_nat_alt not_le)
qed

lemma keepalive_idle_bounds:
  assumes "keepalive_idle_of c a h = Inr idle" and "args_wf a"
  shows "unat idle \<le> 32767" and "h \<noteq> UINT64_MAX \<Longrightarrow> h \<noteq> 0 \<Longrightarrow> unat idle * 1000 < unat h" and "idle \<noteq> 0"
proof -
  have small: "unat (i * 1000) = unat i * 1000" if "unat i \<le> 32767" for i :: u64
    using that by (subst unat_mult_no_wrap) simp_all
  have m: "unat (word_of_int KEEPALIVE_TIME_MAX :: u64) = 32767"
    by (simp add: KEEPALIVE_TIME_MAX_def)
  consider (given) "g_keepalive_idle a \<noteq> 0" | (derived) "g_keepalive_idle a = 0" by blast
  then have "unat idle \<le> 32767 \<and> (h \<noteq> UINT64_MAX \<longrightarrow> h \<noteq> 0 \<longrightarrow> unat idle * 1000 < unat h) \<and> idle \<noteq> 0"
  proof cases
    case given
    with assms small [of "g_keepalive_idle a"] show ?thesis
      by (auto simp: keepalive_idle_of_def args_wf_def Let_def word_le_nat_alt split: if_splits)
  next
    case derived
    let ?d = "(c_check_interval c + 999) div 1000"
    let ?i = "if h \<noteq> UINT64_MAX then min ?d ((h - 1) div 1000) else ?d"
    from assms(1) derived have idle: "idle = min ?i (word_of_int KEEPALIVE_TIME_MAX)" "\<not> ?i < 1"
      by (auto simp: keepalive_idle_of_def Let_def split: if_splits)
    have le: "unat idle \<le> 32767" using idle(1) m by (metis min.cobounded2 word_le_nat_alt)
    have "idle \<noteq> 0" using idle m by (auto simp: min_def split: if_splits)
    moreover have "unat idle * 1000 < unat h" if "h \<noteq> UINT64_MAX" "h \<noteq> 0"
    proof -
      have "idle \<le> (h - 1) div 1000" using idle(1) that(1) by (auto simp: min_le_iff_disj)
      then have "unat idle \<le> (unat h - 1) div 1000"
        using that(2) by (simp add: word_le_nat_alt unat_div_u64 unat_minus_one)
      then have "unat idle * 1000 \<le> unat h - 1" by simp
      then show ?thesis using that(2) unat_gt_0 [of h] by linarith
    qed
    ultimately show ?thesis using le by blast
  qed
  then show "unat idle \<le> 32767" "h \<noteq> UINT64_MAX \<Longrightarrow> h \<noteq> 0 \<Longrightarrow> unat idle * 1000 < unat h" "idle \<noteq> 0"
    by blast+
qed

lemma finish_keepaliveE:
  assumes "ngx_healthcheck_finish_keepalive lib c a h = Inr c'"
  obtains idle where "l_tunable lib" "keepalive_idle_of c a h = Inr idle"
    "c' = c\<lparr>c_keepalive_idle := idle,
       c_keepalive_interval := (if g_keepalive_interval a \<noteq> 0 then g_keepalive_interval a else 1),
       c_keepalive_count := (if g_keepalive_count a \<noteq> 0 then g_keepalive_count a else 3)\<rparr>"
    "\<not> c_keepalive_interval c' > c_keepalive_idle c'"
  using assms by (auto simp: ngx_healthcheck_finish_keepalive_def Let_def split: if_splits sum.splits)

text \<open>The structure just before the keepalive fields are filled in.\<close>

definition finish_base :: "srv_conf \<Rightarrow> check_args \<Rightarrow> srv_conf" where
  "finish_base conf a =
     (let handshake = min (reuse_time_of a) (keepalive_time_of a) in
      conf\<lparr>c_check_interval := g_interval a,
           c_check_timeout := (if g_timeout_set a then g_timeout a
                               else min 5000 (g_interval a - g_interval a div 10)),
           c_keep_connection := g_reuse a \<noteq> HANDSHAKE_OFF \<or> g_keepalive a,
           c_rehandshake := (if handshake = UINT64_MAX then 0 else handshake),
           c_keepalive := g_keepalive a\<rparr>)"

lemma finish_confE:
  assumes "ngx_healthcheck_finish_conf lib conf a = Inr c"
  obtains "100 \<le> g_interval a" "g_timeout_set a \<Longrightarrow> g_timeout a < g_interval a"
    "map_option cc_type (c_check_type conf) = Some NGX_CHECK_TYPE_TCP \<or>
       (g_reuse a = HANDSHAKE_OFF \<and> \<not> g_keepalive a)"
    "g_interval a < reuse_time_of a" "g_interval a < keepalive_time_of a"
    "if g_keepalive a
     then ngx_healthcheck_finish_keepalive lib (finish_base conf a) a
            (min (reuse_time_of a) (keepalive_time_of a)) = Inr c
     else c = finish_base conf a"
  using assms unfolding ngx_healthcheck_finish_conf_def Let_def finish_base_def
  by (auto simp: not_le not_less split: if_splits)

lemma rehandshake_kept:
  assumes "min (reuse_time_of a) (keepalive_time_of a) \<noteq> UINT64_MAX"
  shows "g_reuse a \<noteq> HANDSHAKE_OFF \<or> g_keepalive a"
  using assms by (auto simp: reuse_time_of_def keepalive_time_of_def split: if_splits)

lemma finish_base_fields:
  "c_check_type (finish_base conf a) = c_check_type conf" "c_send (finish_base conf a) = c_send conf"
  "c_port (finish_base conf a) = c_port conf" "c_rise_count (finish_base conf a) = c_rise_count conf"
  "c_fall_count (finish_base conf a) = c_fall_count conf"
  "c_default_down (finish_base conf a) = c_default_down conf"
  "c_check_interval (finish_base conf a) = g_interval a"
  "c_keep_connection (finish_base conf a) \<longleftrightarrow> g_reuse a \<noteq> HANDSHAKE_OFF \<or> g_keepalive a"
  "c_keepalive (finish_base conf a) = g_keepalive a"
  "c_check_timeout (finish_base conf a) = (if g_timeout_set a then g_timeout a
                               else min 5000 (g_interval a - g_interval a div 10))"
  "c_rehandshake (finish_base conf a) =
     (if min (reuse_time_of a) (keepalive_time_of a) = UINT64_MAX then 0
      else min (reuse_time_of a) (keepalive_time_of a))"
  by (simp_all add: finish_base_def Let_def)

lemma finish_conf_wf:
  assumes fin: "ngx_healthcheck_finish_conf lib conf a = Inr c" and args: "args_wf a"
    and conf: "unat (c_port conf) \<le> 65535" "c_rise_count conf \<noteq> 0" "c_fall_count conf \<noteq> 0"
      "c_default_down conf \<in> {0, 1}"
      "c_check_type conf = Some t" "t \<in> set ngx_healthcheck_types" "c_send conf = cc_default_send t"
  shows "conf_wf c"
  using fin
proof (rule finish_confE)
  let ?h = "min (reuse_time_of a) (keepalive_time_of a)"
  assume i: "100 \<le> g_interval a" and t: "g_timeout_set a \<Longrightarrow> g_timeout a < g_interval a"
    and ty: "map_option cc_type (c_check_type conf) = Some NGX_CHECK_TYPE_TCP \<or>
       (g_reuse a = HANDSHAKE_OFF \<and> \<not> g_keepalive a)"
    and re: "g_interval a < reuse_time_of a" "g_interval a < keepalive_time_of a"
    and last: "if g_keepalive a
     then ngx_healthcheck_finish_keepalive lib (finish_base conf a) a ?h = Inr c
     else c = finish_base conf a"
  have time: "0 < c_check_timeout (finish_base conf a) \<and> c_check_timeout (finish_base conf a) < g_interval a"
  proof (cases "g_timeout_set a")
    case True
    then have "c_check_timeout (finish_base conf a) = g_timeout a" by (simp add: finish_base_fields)
    moreover have "0 < g_timeout a" using args True by (simp add: args_wf_def word_gt_0)
    ultimately show ?thesis using t [OF True] by simp
  next
    case False
    then have "c_check_timeout (finish_base conf a) = min 5000 (g_interval a - g_interval a div 10)"
      by (simp only: finish_base_fields if_False)
    with default_timeout_less [OF i] show ?thesis by (simp only: simp_thms)
  qed
  have h: "g_interval a < ?h" using re by simp
  then have h0: "?h \<noteq> 0" by (metis word_not_simps(1))
  have base: "conf_wf (finish_base conf a\<lparr>c_keepalive := False\<rparr>)"
    using i time h rehandshake_kept [of a] ty conf
    by (auto simp: conf_wf_def finish_base_fields)
  show "conf_wf c"
  proof (cases "g_keepalive a")
    case False
    with last base show ?thesis by (simp add: finish_base_def Let_def)
  next
    case True
    with last have "ngx_healthcheck_finish_keepalive lib (finish_base conf a) a ?h = Inr c" by simp
    then obtain idle where idle: "keepalive_idle_of (finish_base conf a) a ?h = Inr idle"
      and c: "c = (finish_base conf a)\<lparr>c_keepalive_idle := idle,
         c_keepalive_interval := (if g_keepalive_interval a \<noteq> 0 then g_keepalive_interval a else 1),
         c_keepalive_count := (if g_keepalive_count a \<noteq> 0 then g_keepalive_count a else 3)\<rparr>"
      and gt: "\<not> c_keepalive_interval c > c_keepalive_idle c"
      by (rule finish_keepaliveE)
    from gt have le: "c_keepalive_interval c \<le> c_keepalive_idle c" by simp
    note b = keepalive_idle_bounds [OF idle args]
    have "1 \<le> unat (c_keepalive_interval c)" "1 \<le> unat (c_keepalive_count c)"
      "unat (c_keepalive_count c) \<le> 127"
      using args by (auto simp: c args_wf_def Suc_le_eq unat_gt_0 word_gt_0)
    moreover have "c_rehandshake c \<noteq> 0 \<longrightarrow> unat (c_keepalive_idle c) * 1000 < unat (c_rehandshake c)"
      using b(2) h0 by (simp add: c finish_base_fields)
    ultimately show ?thesis
      using base b le True
      by (simp add: conf_wf_def finish_base_fields c)
  qed
qed

section \<open>Independence of the parameters\<close>

text \<open>A change of the arguments that the parser of \<^verbatim>\<open>keepalive=\<close> neither reads nor writes.\<close>

definition beside_keepalive :: "(check_args \<Rightarrow> check_args) \<Rightarrow> bool" where
  "beside_keepalive f \<longleftrightarrow> (\<forall>a.
     g_keepalive_handshake (f a) = g_keepalive_handshake a \<and> g_keepalive_time (f a) = g_keepalive_time a \<and>
     (\<forall>x. f (a\<lparr>g_keepalive := x\<rparr>) = f a\<lparr>g_keepalive := x\<rparr>) \<and>
     (\<forall>x. f (a\<lparr>g_keepalive_handshake := x\<rparr>) = f a\<lparr>g_keepalive_handshake := x\<rparr>) \<and>
     (\<forall>x. f (a\<lparr>g_keepalive_time := x\<rparr>) = f a\<lparr>g_keepalive_time := x\<rparr>) \<and>
     (\<forall>x. f (a\<lparr>g_keepalive_idle := x\<rparr>) = f a\<lparr>g_keepalive_idle := x\<rparr>) \<and>
     (\<forall>x. f (a\<lparr>g_keepalive_interval := x\<rparr>) = f a\<lparr>g_keepalive_interval := x\<rparr>) \<and>
     (\<forall>x. f (a\<lparr>g_keepalive_count := x\<rparr>) = f a\<lparr>g_keepalive_count := x\<rparr>))"

lemma beside_keepalive_updates:
  "beside_keepalive (g_interval_update f)"
  "beside_keepalive (\<lambda>a. a\<lparr>g_timeout := t, g_timeout_set := s\<rparr>)"
  "beside_keepalive (\<lambda>a. a\<lparr>g_reuse := r, g_reuse_time := t\<rparr>)"
  by (simp_all add: beside_keepalive_def)

lemma keepalive_field_beside:
  "beside_keepalive f \<Longrightarrow>
   keepalive_field lib n field (f a) = map_option f (keepalive_field lib n field a)"
  by (simp add: keepalive_field_def beside_keepalive_def Let_def split: option.splits)

lemma keepalive_fields_beside:
  "beside_keepalive f \<Longrightarrow> keepalive_fields lib n p (f a) = map_option f (keepalive_fields lib n p a)"
proof (induction lib n p a rule: keepalive_fields.induct)
  case (1 lib n p a)
  show ?case
  proof (cases p)
    case None
    then show ?thesis by (simp add: keepalive_fields.simps [of lib n None])
  next
    case (Some rest)
    let ?e = "case l_strlchr lib rest (CHR '':'') of None \<Rightarrow> length rest | Some k \<Rightarrow> k"
    show ?thesis
    proof (cases "n > 3")
      case False
      show ?thesis
      proof (cases "keepalive_field lib n (take ?e rest) a")
        case (Some a')
        from 1(1) [OF \<open>p = Some rest\<close> refl False Some 1(2)] 1(2) Some False \<open>p = Some rest\<close>
        show ?thesis
          by (simp only: keepalive_fields.simps [of lib n "Some rest"] Let_def keepalive_field_beside
              option.case option.map if_False)
      qed (use \<open>p = Some rest\<close> 1(2) in \<open>simp add: keepalive_fields.simps [of lib n "Some rest"] Let_def
             keepalive_field_beside\<close>)
    qed (simp add: keepalive_fields.simps [of lib n "Some rest"] Some)
  qed
qed

lemma parse_keepalive_beside:
  "beside_keepalive f \<Longrightarrow>
   ngx_healthcheck_parse_keepalive lib v (f a) = map_option f (ngx_healthcheck_parse_keepalive lib v a)"
  using keepalive_fields_beside [of f lib 0 "Some v" "a\<lparr>g_keepalive := True,
      g_keepalive_handshake := HANDSHAKE_DEFAULT, g_keepalive_idle := 0, g_keepalive_interval := 0,
      g_keepalive_count := 0\<rparr>"]
  by (simp add: ngx_healthcheck_parse_keepalive_def beside_keepalive_def)

lemma parse_keepalive_reuse:
  assumes "ngx_healthcheck_parse_keepalive lib v a = Some b"
  shows "g_reuse b = g_reuse a" and "g_reuse_time b = g_reuse_time a"
proof -
  let ?f = "\<lambda>x. x\<lparr>g_reuse := g_reuse a, g_reuse_time := g_reuse_time a\<rparr>"
  have "?f a = a" by simp
  with parse_keepalive_beside [of ?f lib v a] assms beside_keepalive_updates(3) [of "g_reuse_time a" "g_reuse a"]
  have "b = ?f b" by simp
  then have "g_reuse b = g_reuse (?f b)" "g_reuse_time b = g_reuse_time (?f b)" by simp_all
  then show "g_reuse b = g_reuse a" "g_reuse_time b = g_reuse_time a" by simp_all
qed

lemma param_apply_commute:
  assumes "k \<noteq> k'" and "param_apply lib k v st = Some s1" and "param_apply lib k' w s1 = Some s2"
  shows "\<exists>s. param_apply lib k' w st = Some s \<and> param_apply lib k v s = Some s2"
  using assms
  by (cases k; cases k'; simp add: Let_def split: if_splits option.splits prod.splits)
    (auto simp: parse_keepalive_beside [OF beside_keepalive_updates(1), of lib v "\<lambda>_. x" for v x]
      parse_keepalive_beside [OF beside_keepalive_updates(2)]
      parse_keepalive_beside [OF beside_keepalive_updates(3)] parse_keepalive_reuse)


lemma check_params_swap:
  assumes "param_of v \<noteq> param_of w" and "check_params lib (v # w # vs) st = Inr s"
  shows "check_params lib (w # v # vs) st = Inr s"
proof -
  from assms(2) obtain k k' s1 s2 where k: "param_of v = Some k" "param_of w = Some k'"
    and s: "param_apply lib k v st = Some s1" "param_apply lib k' w s1 = Some s2"
      "check_params lib vs s2 = Inr s"
    by (auto simp: check_param_def split: option.splits)
  from assms(1) k have "k \<noteq> k'" by auto
  from param_apply_commute [OF this s(1,2)] k s(3) show ?thesis
    by (auto simp: check_param_def)
qed

lemma check_params_front:
  "check_params lib (us @ v # vs) st = Inr s \<Longrightarrow> param_of v \<notin> param_of ` set us \<Longrightarrow>
   check_params lib (v # us @ vs) st = Inr s"
proof (induction us arbitrary: st)
  case (Cons u us)
  from Cons.prems obtain s1 where u: "check_param lib u st = Some s1"
    and rest: "check_params lib (us @ v # vs) s1 = Inr s"
    by (auto split: option.splits)
  have "check_params lib (v # us @ vs) s1 = Inr s" using Cons rest by auto
  with u have "check_params lib (u # v # us @ vs) st = Inr s" by simp
  then show ?case using Cons.prems(2) check_params_swap [of u v] by auto
qed simp

lemma check_params_perm:
  "check_params lib vs st = Inr s \<Longrightarrow> distinct (map param_of vs) \<Longrightarrow> mset vs = mset ws \<Longrightarrow>
   check_params lib ws st = Inr s"
proof (induction ws arbitrary: vs st)
  case (Cons w ws)
  then have "w \<in> set vs" by (metis list.set_intros(1) mset_eq_setD)
  then obtain us us' where vs: "vs = us @ w # us'" by (auto dest: split_list)
  have "check_params lib (w # us @ us') st = Inr s"
    by (rule check_params_front) (use Cons.prems vs in auto)
  then obtain s1 where "check_param lib w st = Some s1" "check_params lib (us @ us') s1 = Inr s"
    by (auto split: option.splits)
  with Cons.IH [of "us @ us'" s1] Cons.prems vs show ?case by auto
qed simp

lemma check_accepts:
  "ngx_healthcheck_check lib conf ps = Inr c \<longleftrightarrow>
   (\<exists>s. check_params lib ps check_start = Inr s \<and>
        ngx_healthcheck_finish_conf lib (check_apply conf s) (cs_args s) = Inr c)"
  by (simp add: ngx_healthcheck_check_def split: sum.splits)

section \<open>Properties\<close>

text \<open>C20. Whatever the text of a \<^verbatim>\<open>check\<close> directive, a configuration that is accepted satisfies every
  documented constraint between its parameters: the minimum interval, a positive timeout below the
  interval, the port range, non-zero thresholds, connection retention for TCP only, a reconnection
  interval above the check interval, and keepalive values that fit the kernel's limits and fire
  before the reconnection.\<close>

theorem check_directive_wf:
  assumes "lib_ok lib" and "ngx_healthcheck_check lib conf params = Inr c"
  shows "conf_wf c"
proof -
  from assms(2) obtain st where st: "check_params lib params check_start = Inr st"
    and fin: "ngx_healthcheck_finish_conf lib (check_apply conf st) (cs_args st) = Inr c"
    by (auto simp: ngx_healthcheck_check_def split: sum.splits)
  have wf: "state_wf st" by (rule check_params_wf [OF assms(1) check_start_wf st])
  let ?t = "case cs_type st of None \<Rightarrow> hd ngx_healthcheck_types | Some t \<Rightarrow> t"
  have t: "?t \<in> set ngx_healthcheck_types"
    using wf by (auto simp: state_wf_def type_ok_def ngx_healthcheck_types_def split: option.splits)
  show ?thesis
    by (rule finish_conf_wf [OF fin, where t = ?t])
      (use wf t in \<open>auto simp: state_wf_def check_apply_def Let_def down_ok_def\<close>)
qed

text \<open>C21. The order of the parameters of a \<^verbatim>\<open>check\<close> directive is irrelevant as long as each appears at
  most once: both spellings are accepted with the same configuration or both are rejected, although
  the parameters are parsed one by one into one shared state.\<close>

theorem check_directive_order:
  assumes "distinct (map param_of params)" and "mset params = mset params'"
  shows "ngx_healthcheck_check lib conf params = Inr c \<longleftrightarrow> ngx_healthcheck_check lib conf params' = Inr c"
proof -
  have d: "distinct (map param_of params')"
    by (metis assms mset_eq_imp_distinct_iff mset_map)
  have "check_params lib params check_start = Inr s \<longleftrightarrow> check_params lib params' check_start = Inr s" for s
    using check_params_perm [of lib params check_start s params'] assms d
      check_params_perm [of lib params' check_start s params] by auto
  then show ?thesis by (simp only: check_accepts)
qed

text \<open>A concrete instance of nginx's functions, for the witnesses.\<close>

definition demo_lib :: ngx_lib where
  "demo_lib = \<lparr>l_atoi = (\<lambda>v. if v = ''3000'' then 3000 else if v = ''2'' then 2 else if v = ''8080'' then 8080 else - 1),
     l_parse_time = (\<lambda>v. if v = ''60'' then 60 else if v = ''10'' then 10 else - 1),
     l_parse_size = (\<lambda>v. - 1),
     l_strcasecmp = (\<lambda>v w. if v = w then 0 else 1),
     l_strncasecmp = (\<lambda>v w n. if take n v = take n w then 0 else 1),
     l_strlchr = (\<lambda>v c. if c \<in> set v then Some (length (takeWhile (\<lambda>x. x \<noteq> c) v)) else None),
     l_tunable = True, l_inet6 = True,
     l_family = (\<lambda>a. if a = [] then AF_OTHER else AF_INET),
     l_set_port = (\<lambda>a p. a @ [char_of (unat p div 256), char_of (unat p)]),
     l_ntop = (\<lambda>a n. take n a), l_inet_len = 16, l_inet6_len = 46\<rparr>"

definition demo_params :: "bytes list" where
  "demo_params = [''type=tcp'', ''interval=3000'', ''rise=2'', ''reuse=on'', ''keepalive=60:10::2'']"

definition demo_conf :: srv_conf where
  "demo_conf = \<lparr>c_port = 0, c_fall_count = 3, c_rise_count = 2, c_check_interval = 3000,
     c_check_timeout = 2700, c_check_type = Some \<lparr>cc_type = 1, cc_name = ''tcp'', cc_default_send = []\<rparr>,
     c_send = [], c_default_down = 0, c_keep_connection = True, c_rehandshake = 30000, c_keepalive = True,
     c_keepalive_idle = 10, c_keepalive_interval = 1, c_keepalive_count = 2\<rparr>"

lemma demo_lib_ok: "lib_ok demo_lib"
  by (simp add: lib_ok_def demo_lib_def)

lemma demo_check: "ngx_healthcheck_check demo_lib zero_srv_conf demo_params = Inr demo_conf"
  by code_simp

theorem check_directive_wf_witness: "conf_wf demo_conf"
  by (rule check_directive_wf [OF demo_lib_ok demo_check])

theorem check_directive_order_witness:
  "ngx_healthcheck_check demo_lib zero_srv_conf (rev demo_params) = Inr demo_conf"
proof -
  have "distinct (map param_of demo_params)" by code_simp
  then show ?thesis
    using check_directive_order [of demo_params "rev demo_params" demo_lib zero_srv_conf demo_conf] demo_check
    by simp
qed


text \<open>A peer record stands at the position that its index names; what a registered record holds.\<close>

definition peers_indexed :: "main_conf \<Rightarrow> bool" where
  "peers_indexed main \<longleftrightarrow> (\<forall>i < length (m_peers main). p_index (m_peers main ! i) = word_of_nat i)"

definition add_peer_outcome :: "ngx_lib \<Rightarrow> srv_conf \<Rightarrow> addr \<Rightarrow> peer_conf \<Rightarrow> bool" where
  "add_peer_outcome lib conf address peer \<longleftrightarrow>
     p_conf peer = conf \<and> p_addr peer = address \<and>
     a_sockaddr (p_check_addr peer) =
       (if c_port conf = 0 then a_sockaddr address else l_set_port lib (a_sockaddr address) (c_port conf)) \<and>
     (c_port conf \<noteq> 0 \<longrightarrow> l_family lib (a_sockaddr address) \<noteq> AF_OTHER)"

text \<open>C23. Registering a server is all or nothing.  On \<^verbatim>\<open>NGX_ERROR\<close> (no check configured, a port override
  on an address family without ports, a failed allocation) the peer array is exactly what it was; on
  success one record is appended whose index is its position, which holds the server's own address
  for traffic and status and the address with the overridden port for probing.\<close>

theorem add_peer_all_or_nothing:
  assumes "ngx_healthcheck_add_peer lib alloc main conf upstream address = (i, main')"
    and "peers_indexed main" and "length (m_peers main) < 2 ^ 64 - 1"
  shows "peers_indexed main' \<and>
         (if i = UINT64_MAX then main' = main
          else \<exists>c peer. conf = Some c \<and> c_check_interval c \<noteq> 0 \<and>
                 m_peers main' = m_peers main @ [peer] \<and> unat i = length (m_peers main) \<and>
                 p_upstream_name peer = upstream \<and> add_peer_outcome lib c address peer)"
proof (cases "i = UINT64_MAX")
  case True
  moreover have "word_of_nat (length (m_peers main)) \<noteq> UINT64_MAX"
  proof
    assume "word_of_nat (length (m_peers main)) = UINT64_MAX"
    then have "unat (word_of_nat (length (m_peers main)) :: u64) = 2 ^ 64 - 1"
      by (simp only: unat_max_u64)
    then show False using assms(3) by (simp add: unat_of_nat take_bit_nat_eq_self)
  qed
  ultimately have "main' = main"
    using assms(1) by (auto simp: ngx_healthcheck_add_peer_def Let_def split: option.splits if_splits)
  with True assms(2) show ?thesis by simp
next
  case False
  with assms(1) obtain c check where c: "conf = Some c" "c_check_interval c \<noteq> 0"
    "check_address lib alloc c address = Some check" "i = word_of_nat (length (m_peers main))"
    "main' = main\<lparr>m_peers := m_peers main @
       [\<lparr>p_index = i, p_upstream_name = upstream, p_check_addr = check, p_addr = address, p_conf = c\<rparr>]\<rparr>"
    by (auto simp: ngx_healthcheck_add_peer_def Let_def split: option.splits if_splits)
  have i: "unat i = length (m_peers main)" using assms(3) c(4) by (simp add: unat_of_nat take_bit_nat_eq_self)
  have "peers_indexed main'"
    using assms(2) c(4,5) by (auto simp: peers_indexed_def nth_append less_Suc_eq)
  moreover have "add_peer_outcome lib c address
      \<lparr>p_index = i, p_upstream_name = upstream, p_check_addr = check, p_addr = address, p_conf = c\<rparr>"
    using c(3) by (auto simp: add_peer_outcome_def check_address_def Let_def split: if_splits option.splits family.splits)
  ultimately show ?thesis using False c i by auto
qed

theorem add_peer_all_or_nothing_witness:
  "peers_indexed (snd (ngx_healthcheck_add_peer demo_lib (\<lambda>_. True) \<lparr>m_check_shm_size = 0, m_peers = []\<rparr>
     (Some (demo_conf\<lparr>c_port := 8080\<rparr>)) ''u'' \<lparr>a_sockaddr = ''x'', a_name = ''s''\<rparr>))"
proof -
  let ?r = "ngx_healthcheck_add_peer demo_lib (\<lambda>_. True) \<lparr>m_check_shm_size = 0, m_peers = []\<rparr>
     (Some (demo_conf\<lparr>c_port := 8080\<rparr>)) ''u'' \<lparr>a_sockaddr = ''x'', a_name = ''s''\<rparr>"
  have "?r = (fst ?r, snd ?r)" by simp
  from add_peer_all_or_nothing [OF this] show ?thesis by (simp add: peers_indexed_def)
qed

end
