(* ===== verification/Identity.thy ===== *)
theory Identity
  imports ShmState Config
begin

text \<open>
  Matching the peers of a new configuration with the records of the previous cycle
  (\<^verbatim>\<open>ngx_healthcheck_common.c\<close>): the identity hash, the temporary hash index whose nodes are
  consumed one by one, the search for the latest shared zone and the copy of an identity into shared
  memory.

  A node of the index is the position of an old record, which stands for the pointer
  \<^verbatim>\<open>node->peer\<close>.  Allocations answer from a tape of Booleans, exhausted means failing.  The bytes of
  the integer \<^verbatim>\<open>check_type\<close> as it lies in memory depend on the platform and are the parameter \<open>enc\<close>.
\<close>

section \<open>Identities and their hash\<close>

type_synonym identity = "u64 \<times> bytes \<times> bytes \<times> bytes"

definition shm_identity :: "peer_shm \<Rightarrow> identity" where
  "shm_identity p = (sh_check_type p, sh_upstream_name p, sh_sockaddr p, sh_check_sockaddr p)"

text \<open>\<^verbatim>\<open>peer->conf->check_type_conf->type\<close>.\<close>

definition peer_check_type :: "peer_conf \<Rightarrow> u64" where
  "peer_check_type p = cc_type (the (c_check_type (p_conf p)))"

definition peer_identity :: "peer_conf \<Rightarrow> identity" where
  "peer_identity p =
     (peer_check_type p, p_upstream_name p, a_sockaddr (p_addr p), a_sockaddr (p_check_addr p))"

fun ngx_healthcheck_hash_bytes :: "u64 \<Rightarrow> bytes \<Rightarrow> u64" where
  "ngx_healthcheck_hash_bytes hash [] = hash"
| "ngx_healthcheck_hash_bytes hash (c # cs) =
     ngx_healthcheck_hash_bytes ((hash XOR of_char c) * 16777619) cs"

definition ngx_healthcheck_shm_identity_hash :: "(u64 \<Rightarrow> bytes) \<Rightarrow> peer_shm \<Rightarrow> u64" where
  "ngx_healthcheck_shm_identity_hash enc p =
     (let h0 = 2166136261;
          h1 = ngx_healthcheck_hash_bytes h0 (sh_upstream_name p);
          h2 = ngx_healthcheck_hash_bytes h1 (sh_sockaddr p);
          h3 = ngx_healthcheck_hash_bytes h2 (sh_check_sockaddr p)
      in ngx_healthcheck_hash_bytes h3 (enc (sh_check_type p)))"

definition ngx_healthcheck_peer_identity_hash :: "(u64 \<Rightarrow> bytes) \<Rightarrow> peer_conf \<Rightarrow> u64" where
  "ngx_healthcheck_peer_identity_hash enc p =
     (let type = peer_check_type p;
          h0 = 2166136261;
          h1 = ngx_healthcheck_hash_bytes h0 (p_upstream_name p);
          h2 = ngx_healthcheck_hash_bytes h1 (a_sockaddr (p_addr p));
          h3 = ngx_healthcheck_hash_bytes h2 (a_sockaddr (p_check_addr p))
      in ngx_healthcheck_hash_bytes h3 (enc type))"

definition ngx_healthcheck_identity_equal :: "peer_shm \<Rightarrow> peer_conf \<Rightarrow> bool" where
  "ngx_healthcheck_identity_equal old p =
     (if sh_check_type old \<noteq> peer_check_type p
         \<or> length (sh_upstream_name old) \<noteq> length (p_upstream_name p)
         \<or> length (sh_sockaddr old) \<noteq> length (a_sockaddr (p_addr p))
         \<or> length (sh_check_sockaddr old) \<noteq> length (a_sockaddr (p_check_addr p))
      then False
      else sh_upstream_name old = p_upstream_name p \<and> sh_sockaddr old = a_sockaddr (p_addr p) \<and>
           sh_check_sockaddr old = a_sockaddr (p_check_addr p))"

lemma identity_equal_iff: "ngx_healthcheck_identity_equal old p \<longleftrightarrow> shm_identity old = peer_identity p"
  by (auto simp: ngx_healthcheck_identity_equal_def shm_identity_def peer_identity_def)

lemma identity_hash_eq:
  "shm_identity old = peer_identity p \<Longrightarrow>
   ngx_healthcheck_shm_identity_hash enc old = ngx_healthcheck_peer_identity_hash enc p"
  by (simp add: shm_identity_def peer_identity_def ngx_healthcheck_shm_identity_hash_def
      ngx_healthcheck_peer_identity_hash_def)

section \<open>The index\<close>

record identity_index =
  ix_buckets :: "nat list list"

text \<open>The bucket of a hash value.\<close>

definition bucket_of :: "nat list list \<Rightarrow> u64 \<Rightarrow> nat" where
  "bucket_of buckets hash = unat (hash mod of_nat (length buckets))"

fun index_fill :: "(u64 \<Rightarrow> bytes) \<Rightarrow> (nat \<Rightarrow> peer_shm) \<Rightarrow> nat list \<Rightarrow> nat list list \<Rightarrow> bool list \<Rightarrow>
    nat list list option \<times> bool list" where
  "index_fill enc peers [] buckets t = (Some buckets, t)"
| "index_fill enc peers (i # is) buckets t =
     (let (ok, t') = next_alloc t in
      if \<not> ok then (None, t')
      else let b = bucket_of buckets (ngx_healthcheck_shm_identity_hash enc (peers i))
        in index_fill enc peers is (buckets[b := i # buckets ! b]) t')"

definition shm_valid :: "peers_shm \<Rightarrow> bool" where
  "shm_valid s \<longleftrightarrow> shm_magic s = NGX_HEALTHCHECK_SHM_MAGIC \<and> shm_version s = NGX_HEALTHCHECK_SHM_VERSION"

definition bucket_count_of :: "peers_shm option \<Rightarrow> u64" where
  "bucket_count_of old =
     (case old of None \<Rightarrow> 1 | Some s \<Rightarrow> if shm_number s \<noteq> 0 then shm_number s * 2 + 1 else 1)"

definition ngx_healthcheck_identity_index_create ::
  "(u64 \<Rightarrow> bytes) \<Rightarrow> peers_shm option \<Rightarrow> bool list \<Rightarrow> identity_index option \<times> bool list" where
  "ngx_healthcheck_identity_index_create enc old t =
     (let (ok, t1) = next_alloc t in
      if \<not> ok then (None, t1)
      else if (case old of None \<Rightarrow> False | Some s \<Rightarrow> shm_number s > (UINT64_MAX - 1) div 2)
      then (None, t1)
      else if bucket_count_of old > UINT64_MAX div 8 then (None, t1)
      else let (ok, t2) = next_alloc t1 in
        if \<not> ok then (None, t2)
        else let buckets = replicate (unat (bucket_count_of old)) [] in
          (case old of
             None \<Rightarrow> (Some \<lparr>ix_buckets = buckets\<rparr>, t2)
           | Some s \<Rightarrow>
               if \<not> shm_valid s then (Some \<lparr>ix_buckets = buckets\<rparr>, t2)
               else case index_fill enc (shm_peers s) [0 ..< unat (shm_number s)] buckets t2 of
                 (None, t3) \<Rightarrow> (None, t3)
               | (Some filled, t3) \<Rightarrow> (Some \<lparr>ix_buckets = filled\<rparr>, t3)))"

text \<open>Unlinking the first node of a bucket that is the same peer.\<close>

fun bucket_take :: "(nat \<Rightarrow> bool) \<Rightarrow> nat list \<Rightarrow> nat option \<times> nat list" where
  "bucket_take same [] = (None, [])"
| "bucket_take same (n # ns) =
     (if same n then (Some n, ns)
      else let (r, ns') = bucket_take same ns in (r, n # ns'))"

definition ngx_healthcheck_identity_index_take ::
  "(u64 \<Rightarrow> bytes) \<Rightarrow> (nat \<Rightarrow> peer_shm) \<Rightarrow> identity_index \<Rightarrow> peer_conf \<Rightarrow> nat option \<times> identity_index" where
  "ngx_healthcheck_identity_index_take enc peers ix p =
     (let b = bucket_of (ix_buckets ix) (ngx_healthcheck_peer_identity_hash enc p);
          (r, ns) = bucket_take (\<lambda>n. ngx_healthcheck_identity_equal (peers n) p) (ix_buckets ix ! b)
      in (r, ix\<lparr>ix_buckets := (ix_buckets ix)[b := ns]\<rparr>))"

section \<open>The latest shared zone and the copy of an identity\<close>

text \<open>
  A zone of \<^verbatim>\<open>cycle->shared_memory\<close>: its tag, and its \<^verbatim>\<open>data\<close>, which is NULL or a
  \<^verbatim>\<open>ngx_upstream_check_peers_t\<close> whose \<^verbatim>\<open>peers_shm\<close> may be NULL.
\<close>

record shm_zone =
  z_tag :: nat
  z_data :: "peers_shm option option"

definition zone_candidate :: "nat \<Rightarrow> shm_zone \<Rightarrow> peers_shm option" where
  "zone_candidate tag z =
     (if z_tag z \<noteq> tag then None
      else case z_data z of
        None \<Rightarrow> None
      | Some shm \<Rightarrow>
          (case shm of
             None \<Rightarrow> None
           | Some s \<Rightarrow> if shm_magic s \<noteq> NGX_HEALTHCHECK_SHM_MAGIC \<or> shm_version s \<noteq> NGX_HEALTHCHECK_SHM_VERSION
               then None else Some s))"

text \<open>
  The walk over an \<^verbatim>\<open>ngx_list_t\<close>: the rest of the current part, then the following parts.  nginx
  never chains an empty part, so moving on and looking at the first element at once is safe.
\<close>

fun latest_scan :: "nat \<Rightarrow> shm_zone list \<Rightarrow> shm_zone list list \<Rightarrow> peers_shm option \<Rightarrow> peers_shm option" where
  "latest_scan tag [] [] latest = latest"
| "latest_scan tag [] (part # parts) latest = latest_scan tag part parts latest"
| "latest_scan tag (z # zs) parts latest =
     latest_scan tag zs parts
       (case zone_candidate tag z of
          None \<Rightarrow> latest
        | Some candidate \<Rightarrow>
            (case latest of
               None \<Rightarrow> Some candidate
             | Some l \<Rightarrow> if shm_generation candidate > shm_generation l then Some candidate else Some l))"

text \<open>A cycle is the list of the parts of its zone list, the first part first.\<close>

definition ngx_healthcheck_find_latest_peers_shm ::
  "shm_zone list list option \<Rightarrow> nat \<Rightarrow> peers_shm option" where
  "ngx_healthcheck_find_latest_peers_shm cycle tag =
     (case cycle of
        None \<Rightarrow> None
      | Some [] \<Rightarrow> None
      | Some (part # parts) \<Rightarrow> latest_scan tag part parts None)"

text \<open>\<open>None\<close> is \<^verbatim>\<open>NGX_ERROR\<close>; the caller then gives up the whole zone.\<close>

definition ngx_healthcheck_copy_shm_identity ::
  "peer_shm \<Rightarrow> peer_conf \<Rightarrow> bool list \<Rightarrow> peer_shm option \<times> bool list" where
  "ngx_healthcheck_copy_shm_identity target p t =
     (let (ok, t1) = next_alloc t in
      if \<not> ok then (None, t1)
      else let target1 = target\<lparr>sh_sockaddr := a_sockaddr (p_addr p)\<rparr>;
               (ok, t2) = next_alloc t1 in
        if \<not> ok then (None, t2)
        else let target2 = target1\<lparr>sh_check_sockaddr := a_sockaddr (p_check_addr p)\<rparr>;
                 (ok, t3) = (if p_upstream_name p \<noteq> [] then next_alloc t2 else (True, t2)) in
          if \<not> ok then (None, t3)
          else (Some (target2\<lparr>sh_upstream_name := p_upstream_name p, sh_check_type := peer_check_type p\<rparr>), t3))"

lemma copy_shm_identityE:
  assumes "ngx_healthcheck_copy_shm_identity target p t = (Some target', t')"
  shows "target' = target\<lparr>sh_sockaddr := a_sockaddr (p_addr p),
      sh_check_sockaddr := a_sockaddr (p_check_addr p),
      sh_upstream_name := p_upstream_name p, sh_check_type := peer_check_type p\<rparr>"
  using assms by (auto simp: ngx_healthcheck_copy_shm_identity_def Let_def split: prod.splits if_splits)

section \<open>An index that is consumed\<close>

text \<open>
  The contract of a one-to-one index: a lookup removes the node it returns and nothing else, returns
  only nodes with the identity of the key, and fails only when no such node is left.
\<close>

primrec takes :: "('ix \<Rightarrow> 'k \<Rightarrow> 'n option \<times> 'ix) \<Rightarrow> 'ix \<Rightarrow> 'k list \<Rightarrow> 'n option list \<times> 'ix" where
  "takes take1 ix [] = ([], ix)"
| "takes take1 ix (k # ks) =
     (let (r, ix1) = take1 ix k; (rs, ix2) = takes take1 ix1 ks in (r # rs, ix2))"

definition somes :: "'a option list \<Rightarrow> 'a list" where
  "somes rs = map the (filter (\<lambda>r. r \<noteq> None) rs)"

lemma somes_simps [simp]: "somes [] = []" "somes (None # rs) = somes rs" "somes (Some x # rs) = x # somes rs"
  by (simp_all add: somes_def)

text \<open>How many of the keys with a given identity got a node.\<close>

definition matched :: "('k \<Rightarrow> 'i) \<Rightarrow> 'i \<Rightarrow> 'k list \<Rightarrow> 'n option list \<Rightarrow> nat" where
  "matched key_id i ks rs = length (filter (\<lambda>(k, r). key_id k = i \<and> r \<noteq> None) (zip ks rs))"

locale matching_index =
  fixes take1 :: "'ix \<Rightarrow> 'k \<Rightarrow> 'n option \<times> 'ix"
    and nodes :: "'ix \<Rightarrow> 'n multiset"
    and node_id :: "'n \<Rightarrow> 'i"
    and key_id :: "'k \<Rightarrow> 'i"
    and ok :: "'ix \<Rightarrow> bool"
  assumes take_ok: "ok ix \<Longrightarrow> ok (snd (take1 ix k))"
    and take_some: "ok ix \<Longrightarrow> take1 ix k = (Some n, ix') \<Longrightarrow>
      node_id n = key_id k \<and> nodes ix = add_mset n (nodes ix')"
    and take_none: "ok ix \<Longrightarrow> take1 ix k = (None, ix') \<Longrightarrow>
      nodes ix' = nodes ix \<and> (\<forall>n \<in># nodes ix. node_id n \<noteq> key_id k)"
begin

lemma takes_length: "takes take1 ix ks = (rs, ix') \<Longrightarrow> length rs = length ks"
  by (induction ks arbitrary: ix rs) (auto split: prod.splits)

lemma takes_nodes:
  "ok ix \<Longrightarrow> takes take1 ix ks = (rs, ix') \<Longrightarrow> nodes ix = mset (somes rs) + nodes ix'"
proof (induction ks arbitrary: ix rs)
  case (Cons k ks)
  obtain r ix1 where r: "take1 ix k = (r, ix1)" by (cases "take1 ix k")
  obtain rs1 ix2 where rs: "takes take1 ix1 ks = (rs1, ix2)" by (cases "takes take1 ix1 ks")
  have "ok ix1" using take_ok [OF Cons.prems(1), of k] r by simp
  from Cons.IH [OF this] Cons.prems(2) r rs have "nodes ix1 = mset (somes rs1) + nodes ix'" by simp
  with Cons.prems r rs take_some [of ix k _ ix1] take_none [of ix k ix1] show ?case
    by (cases r) auto
qed simp

lemma takes_sound:
  "ok ix \<Longrightarrow> takes take1 ix ks = (rs, ix') \<Longrightarrow> j < length ks \<Longrightarrow> rs ! j = Some n \<Longrightarrow> node_id n = key_id (ks ! j)"
proof (induction ks arbitrary: ix rs j)
  case (Cons k ks)
  obtain r ix1 where r: "take1 ix k = (r, ix1)" by (cases "take1 ix k")
  obtain rs1 ix2 where rs: "takes take1 ix1 ks = (rs1, ix2)" by (cases "takes take1 ix1 ks")
  have "ok ix1" using take_ok [OF Cons.prems(1), of k] r by simp
  with Cons.IH [OF this] Cons.prems r rs take_some [of ix k n ix1] show ?case
    by (cases j) auto
qed simp

text \<open>Every identity is matched as often as keys and nodes with it allow.\<close>

lemma takes_matched:
  "ok ix \<Longrightarrow> takes take1 ix ks = (rs, ix') \<Longrightarrow>
   matched key_id i ks rs =
     min (length (filter (\<lambda>k. key_id k = i) ks)) (size (filter_mset (\<lambda>n. node_id n = i) (nodes ix)))"
proof (induction ks arbitrary: ix rs ix')
  case (Cons k ks)
  obtain r ix1 where r: "take1 ix k = (r, ix1)" by (cases "take1 ix k")
  obtain rs1 ix2 where rs: "takes take1 ix1 ks = (rs1, ix2)" by (cases "takes take1 ix1 ks")
  have ok: "ok ix1" using take_ok [OF Cons.prems(1), of k] r by simp
  from Cons.IH [OF this rs] have IH: "matched key_id i ks rs1 =
     min (length (filter (\<lambda>k. key_id k = i) ks)) (size (filter_mset (\<lambda>n. node_id n = i) (nodes ix1)))" .
  have rs': "rs = r # rs1" using Cons.prems(2) r rs by simp
  show ?case
  proof (cases r)
    case None
    with take_none [OF Cons.prems(1), of k ix1] r
    have n: "nodes ix1 = nodes ix" "\<forall>n \<in># nodes ix. node_id n \<noteq> key_id k" by auto
    show ?thesis
    proof (cases "key_id k = i")
      case True
      then have e: "filter_mset (\<lambda>n. node_id n = i) (nodes ix) = {#}"
        using n(2) by (auto simp: filter_mset_eq_conv)
      have "matched key_id i (k # ks) rs = matched key_id i ks rs1" by (simp add: matched_def rs' None)
      also have "\<dots> = 0" unfolding IH n(1) e by simp
      finally show ?thesis unfolding e by simp
    qed (use IH None rs' n(1) in \<open>simp add: matched_def\<close>)
  next
    case (Some n)
    with take_some [OF Cons.prems(1), of k n ix1] r
    have "node_id n = key_id k" "nodes ix = add_mset n (nodes ix1)" by auto
    with IH Some rs' show ?thesis by (auto simp: matched_def)
  qed
qed (simp add: matched_def)

end

section \<open>The index of the code\<close>

definition index_nodes :: "identity_index \<Rightarrow> nat multiset" where
  "index_nodes ix = mset (concat (ix_buckets ix))"

definition buckets_ok :: "(u64 \<Rightarrow> bytes) \<Rightarrow> (nat \<Rightarrow> peer_shm) \<Rightarrow> nat list list \<Rightarrow> bool" where
  "buckets_ok enc peers bs \<longleftrightarrow> bs \<noteq> [] \<and> length bs < 2 ^ 64 \<and>
     (\<forall>b < length bs. \<forall>n \<in> set (bs ! b).
        bucket_of bs (ngx_healthcheck_shm_identity_hash enc (peers n)) = b)"

definition index_ok :: "(u64 \<Rightarrow> bytes) \<Rightarrow> (nat \<Rightarrow> peer_shm) \<Rightarrow> identity_index \<Rightarrow> bool" where
  "index_ok enc peers ix = buckets_ok enc peers (ix_buckets ix)"

lemma bucket_of_less: "bs \<noteq> [] \<Longrightarrow> length bs < 2 ^ 64 \<Longrightarrow> bucket_of bs h < length bs"
proof -
  assume "bs \<noteq> []" and "length bs < 2 ^ 64"
  then have "unat (of_nat (length bs) :: u64) = length bs" by (simp add: unat_of_nat take_bit_nat_eq_self)
  moreover have "0 < length bs" using \<open>bs \<noteq> []\<close> by simp
  ultimately show ?thesis by (simp add: bucket_of_def unat_mod)
qed

lemma bucket_of_update [simp]: "bucket_of (bs[b := x]) h = bucket_of bs h"
  by (simp add: bucket_of_def)

lemma mset_concat_update:
  "b < length bs \<Longrightarrow> mset (concat (bs[b := x])) + mset (bs ! b) = mset (concat bs) + mset x"
  by (induction bs arbitrary: b) (auto simp: less_Suc_eq_0_disj ac_simps split: nat.split)

lemma bucket_take_some:
  "bucket_take same ns = (Some n, ns') \<Longrightarrow> same n \<and> mset ns = add_mset n (mset ns') \<and> set ns' \<subseteq> set ns"
  by (induction ns arbitrary: ns') (auto split: if_splits prod.splits)

lemma bucket_take_none: "bucket_take same ns = (None, ns') \<Longrightarrow> ns' = ns \<and> (\<forall>n \<in> set ns. \<not> same n)"
  by (induction ns arbitrary: ns') (auto split: if_splits prod.splits)

lemma buckets_ok_shrink:
  assumes "buckets_ok enc peers bs" and "set ns \<subseteq> set (bs ! b)"
  shows "buckets_ok enc peers (bs[b := ns])"
proof (cases "b < length bs")
  case True
  with assms show ?thesis
    unfolding buckets_ok_def by (auto simp: nth_list_update split: if_splits)
qed (use assms in \<open>simp add: list_update_beyond\<close>)

lemma index_takeE:
  assumes "ngx_healthcheck_identity_index_take enc peers ix p = (r, ix')"
  obtains b ns where "b = bucket_of (ix_buckets ix) (ngx_healthcheck_peer_identity_hash enc p)"
    "bucket_take (\<lambda>n. ngx_healthcheck_identity_equal (peers n) p) (ix_buckets ix ! b) = (r, ns)"
    "ix' = ix\<lparr>ix_buckets := (ix_buckets ix)[b := ns]\<rparr>"
  using assms by (auto simp: ngx_healthcheck_identity_index_take_def Let_def split: prod.splits)

lemma index_take_bucket:
  "index_ok enc peers ix \<Longrightarrow>
   bucket_of (ix_buckets ix) (ngx_healthcheck_peer_identity_hash enc p) < length (ix_buckets ix)"
  by (simp add: index_ok_def buckets_ok_def bucket_of_less)

interpretation ident: matching_index
  "ngx_healthcheck_identity_index_take enc peers" index_nodes "\<lambda>n. shm_identity (peers n)"
  peer_identity "index_ok enc peers" for enc peers
proof
  fix ix k
  assume ok: "index_ok enc peers ix"
  obtain r ix' where t: "ngx_healthcheck_identity_index_take enc peers ix k = (r, ix')"
    by (cases "ngx_healthcheck_identity_index_take enc peers ix k")
  then obtain b ns where b: "bucket_take (\<lambda>n. ngx_healthcheck_identity_equal (peers n) k) (ix_buckets ix ! b) = (r, ns)"
    "ix' = ix\<lparr>ix_buckets := (ix_buckets ix)[b := ns]\<rparr>" by (rule index_takeE)
  then have "set ns \<subseteq> set (ix_buckets ix ! b)"
    by (cases r) (auto dest: bucket_take_some bucket_take_none)
  with ok b(2) show "index_ok enc peers (snd (ngx_healthcheck_identity_index_take enc peers ix k))"
    by (simp add: t index_ok_def buckets_ok_shrink)
next
  fix ix k n ix'
  assume ok: "index_ok enc peers ix"
    and t: "ngx_healthcheck_identity_index_take enc peers ix k = (Some n, ix')"
  from t obtain b ns where b: "b = bucket_of (ix_buckets ix) (ngx_healthcheck_peer_identity_hash enc k)"
    "bucket_take (\<lambda>n. ngx_healthcheck_identity_equal (peers n) k) (ix_buckets ix ! b) = (Some n, ns)"
    "ix' = ix\<lparr>ix_buckets := (ix_buckets ix)[b := ns]\<rparr>" by (rule index_takeE)
  have "b < length (ix_buckets ix)" using index_take_bucket [OF ok] b(1) by simp
  from mset_concat_update [OF this, of ns] bucket_take_some [OF b(2)] b(3)
  show "shm_identity (peers n) = peer_identity k \<and> index_nodes ix = add_mset n (index_nodes ix')"
    by (simp add: index_nodes_def identity_equal_iff)
next
  fix ix k ix'
  assume ok: "index_ok enc peers ix"
    and t: "ngx_healthcheck_identity_index_take enc peers ix k = (None, ix')"
  from t obtain b ns where b: "b = bucket_of (ix_buckets ix) (ngx_healthcheck_peer_identity_hash enc k)"
    "bucket_take (\<lambda>n. ngx_healthcheck_identity_equal (peers n) k) (ix_buckets ix ! b) = (None, ns)"
    "ix' = ix\<lparr>ix_buckets := (ix_buckets ix)[b := ns]\<rparr>" by (rule index_takeE)
  from bucket_take_none [OF b(2)] b(3) have same: "ix' = ix"
    and none: "\<forall>n \<in> set (ix_buckets ix ! b). shm_identity (peers n) \<noteq> peer_identity k"
    by (simp_all add: identity_equal_iff)
  have "shm_identity (peers n) \<noteq> peer_identity k" if "n \<in># index_nodes ix" for n
  proof
    assume eq: "shm_identity (peers n) = peer_identity k"
    from that obtain ns' where "ns' \<in> set (ix_buckets ix)" "n \<in> set ns'"
      by (auto simp: index_nodes_def)
    then obtain j where j: "j < length (ix_buckets ix)" "n \<in> set (ix_buckets ix ! j)"
      by (auto simp: in_set_conv_nth [of ns'])
    with ok have "bucket_of (ix_buckets ix) (ngx_healthcheck_shm_identity_hash enc (peers n)) = j"
      by (simp add: index_ok_def buckets_ok_def)
    with eq b(1) have "j = b" by (simp add: identity_hash_eq)
    with none j(2) eq show False by blast
  qed
  with same show "index_nodes ix' = index_nodes ix \<and> (\<forall>n \<in># index_nodes ix. shm_identity (peers n) \<noteq> peer_identity k)"
    by blast
qed


lemma index_fill_ok:
  assumes "index_fill enc peers is bs t = (Some bs', t')" and "buckets_ok enc peers bs"
  shows "buckets_ok enc peers bs' \<and> mset (concat bs') = mset (concat bs) + mset is"
  using assms
proof (induction enc peers "is" bs t rule: index_fill.induct)
  case (2 enc peers i "is" bs t)
  let ?b = "bucket_of bs (ngx_healthcheck_shm_identity_hash enc (peers i))"
  let ?bs = "bs[?b := i # bs ! ?b]"
  obtain t1 where t: "next_alloc t = (True, t1)" and f: "index_fill enc peers is ?bs t1 = (Some bs', t')"
    using 2(2) by (auto simp: Let_def split: prod.splits if_splits)
  have b: "?b < length bs" using 2(3) by (simp add: buckets_ok_def bucket_of_less)
  have "buckets_ok enc peers ?bs"
    using 2(3) b by (auto simp: buckets_ok_def nth_list_update split: if_splits)
  from 2(1) [OF t [symmetric] refl _ refl f this]
  have "buckets_ok enc peers bs'" "mset (concat bs') = mset (concat ?bs) + mset is" by simp_all
  moreover have "mset (concat ?bs) = add_mset i (mset (concat bs))"
    using mset_concat_update [OF b, of "i # bs ! ?b"] by simp
  ultimately show ?case by simp
qed simp

lemma bucket_count_pos:
  assumes "\<not> (case old of None \<Rightarrow> False | Some s \<Rightarrow> shm_number s > (UINT64_MAX - 1) div 2)"
  shows "0 < unat (bucket_count_of old)"
proof (cases old)
  case (Some s)
  have "(UINT64_MAX - 1) div 2 = (0x7FFFFFFFFFFFFFFF :: u64)" by (simp add: word_div_def)
  with assms Some have "shm_number s \<le> 0x7FFFFFFFFFFFFFFF" by (simp add: not_less)
  then have "unat (shm_number s) \<le> 0x7FFFFFFFFFFFFFFF" by (simp add: word_le_nat_alt)
  then have "unat (shm_number s * 2) = unat (shm_number s) * 2"
    by (subst unat_mult_no_wrap) simp_all
  then have "unat (shm_number s * 2 + 1) = unat (shm_number s) * 2 + 1"
    using \<open>unat (shm_number s) \<le> _\<close> by (subst unat_add_no_wrap) simp_all
  with Some show ?thesis by (simp add: bucket_count_of_def)
qed (simp add: bucket_count_of_def)

lemma empty_buckets_ok: "0 < n \<Longrightarrow> n < 2 ^ 64 \<Longrightarrow> buckets_ok enc peers (replicate n [])"
  by (simp add: buckets_ok_def)

lemma create_index_ok:
  assumes "ngx_healthcheck_identity_index_create enc old t = (Some ix, t')"
    and "\<And>s. old = Some s \<Longrightarrow> shm_peers s = peers"
  shows "index_ok enc peers ix \<and> index_nodes ix =
      (case old of Some s \<Rightarrow> if shm_valid s then mset [0 ..< unat (shm_number s)] else {#} | None \<Rightarrow> {#})"
proof -
  let ?n = "unat (bucket_count_of old)"
  from assms(1) obtain t2 where ok: "\<not> (case old of None \<Rightarrow> False | Some s \<Rightarrow> shm_number s > (UINT64_MAX - 1) div 2)"
    and res: "(case old of
             None \<Rightarrow> (Some \<lparr>ix_buckets = replicate ?n []\<rparr>, t2)
           | Some s \<Rightarrow>
               if \<not> shm_valid s then (Some \<lparr>ix_buckets = replicate ?n []\<rparr>, t2)
               else case index_fill enc (shm_peers s) [0 ..< unat (shm_number s)] (replicate ?n []) t2 of
                 (None, t3) \<Rightarrow> (None, t3)
               | (Some filled, t3) \<Rightarrow> (Some \<lparr>ix_buckets = filled\<rparr>, t3)) = (Some ix, t')"
    by (auto simp: ngx_healthcheck_identity_index_create_def Let_def split: prod.splits if_splits)
  have e: "buckets_ok enc peers (replicate ?n [])"
    by (rule empty_buckets_ok) (use bucket_count_pos [OF ok] unat_less_2p64 in auto)
  show ?thesis
  proof (cases "\<exists>s. old = Some s \<and> shm_valid s")
    case True
    then obtain s where s: "old = Some s" "shm_valid s" by blast
    with res obtain bs where f: "index_fill enc (shm_peers s) [0 ..< unat (shm_number s)] (replicate ?n []) t2 = (Some bs, t')"
      and ix: "ix = \<lparr>ix_buckets = bs\<rparr>"
      by (auto split: prod.splits option.splits)
    from index_fill_ok [OF f] e assms(2) [OF s(1)] s ix show ?thesis
      by (simp add: index_ok_def index_nodes_def)
  next
    case False
    with res have "ix = \<lparr>ix_buckets = replicate ?n []\<rparr>" by (auto split: option.splits if_splits)
    with False e show ?thesis by (auto simp: index_ok_def index_nodes_def split: option.split)
  qed
qed

section \<open>Properties\<close>

text \<open>C26. The peers of a new configuration are matched with the records of the old zone one to one: no
  old record is given to two peers, a match is a match of the full identity (protocol, upstream name,
  real address and checked address), and for every identity as many peers are matched as there are
  old records for them, whatever the hash values and their collisions are.\<close>

theorem identity_matching_one_to_one:
  assumes "ngx_healthcheck_identity_index_create enc (Some old) t = (Some ix, t')" and "shm_valid old"
    and "takes (ngx_healthcheck_identity_index_take enc (shm_peers old)) ix peers = (rs, ix')"
  shows "distinct (somes rs) \<and> set (somes rs) \<subseteq> {..< unat (shm_number old)} \<and>
    (\<forall>j < length peers. \<forall>n. rs ! j = Some n \<longrightarrow> shm_identity (shm_peers old n) = peer_identity (peers ! j)) \<and>
    (\<forall>i. matched peer_identity i peers rs =
       min (length (filter (\<lambda>p. peer_identity p = i) peers))
           (card {n. n < unat (shm_number old) \<and> shm_identity (shm_peers old n) = i}))"
proof -
  have ix: "index_ok enc (shm_peers old) ix" "index_nodes ix = mset [0 ..< unat (shm_number old)]"
    using create_index_ok [OF assms(1), of "shm_peers old"] assms(2) by auto
  have "mset [0 ..< unat (shm_number old)] = mset (somes rs) + index_nodes ix'"
    using ident.takes_nodes [OF ix(1) assms(3)] ix(2) by simp
  moreover obtain zs where "mset zs = index_nodes ix'" using ex_mset by blast
  ultimately have perm: "mset (somes rs @ zs) = mset [0 ..< unat (shm_number old)]" by simp
  then have "distinct (somes rs @ zs)" "set (somes rs @ zs) = {0 ..< unat (shm_number old)}"
    by (metis distinct_upt mset_eq_imp_distinct_iff, metis mset_eq_setD set_upt)
  then have d: "distinct (somes rs)" "set (somes rs) \<subseteq> {..< unat (shm_number old)}" by auto
  have c: "size (filter_mset (\<lambda>n. shm_identity (shm_peers old n) = i) (index_nodes ix)) =
      card {n. n < unat (shm_number old) \<and> shm_identity (shm_peers old n) = i}" for i
  proof -
    let ?f = "filter (\<lambda>n. shm_identity (shm_peers old n) = i) [0 ..< unat (shm_number old)]"
    have "set ?f = {n. n < unat (shm_number old) \<and> shm_identity (shm_peers old n) = i}" by auto
    moreover have "card (set ?f) = length ?f" by (rule distinct_card) simp
    ultimately show ?thesis unfolding ix(2) mset_filter [symmetric] size_mset by simp
  qed
  show ?thesis
    using d ident.takes_sound [OF ix(1) assms(3)] ident.takes_matched [OF ix(1) assms(3)] c by simp
qed


text \<open>Two old records of one identity and one of another, and three new peers.\<close>

definition demo_old :: peers_shm where
  "demo_old = zero_peers_shm\<lparr>shm_magic := NGX_HEALTHCHECK_SHM_MAGIC, shm_version := NGX_HEALTHCHECK_SHM_VERSION,
     shm_generation := 4, shm_number := 3,
     shm_peers := (\<lambda>n. zero_peer_shm\<lparr>sh_sockaddr := (if n = 2 then ''b'' else ''a''),
       sh_check_sockaddr := ''c'', sh_upstream_name := ''u'', sh_check_type := 1\<rparr>)\<rparr>"

definition demo_peer :: "bytes \<Rightarrow> peer_conf" where
  "demo_peer a = \<lparr>p_index = 0, p_upstream_name = ''u'', p_check_addr = \<lparr>a_sockaddr = ''c'', a_name = ''c''\<rparr>,
     p_addr = \<lparr>a_sockaddr = a, a_name = a\<rparr>, p_conf = demo_conf\<rparr>"

definition demo_enc :: "u64 \<Rightarrow> bytes" where
  "demo_enc t = [char_of (unat t)]"

definition demo_index :: identity_index where
  "demo_index = the (fst (ngx_healthcheck_identity_index_create demo_enc (Some demo_old) (replicate 5 True)))"

theorem identity_matching_one_to_one_witness:
  "matched peer_identity (peer_identity (demo_peer ''a'')) [demo_peer ''a'', demo_peer ''x'', demo_peer ''a'']
     (fst (takes (ngx_healthcheck_identity_index_take demo_enc (shm_peers demo_old)) demo_index
        [demo_peer ''a'', demo_peer ''x'', demo_peer ''a''])) = 2"
proof -
  have c: "ngx_healthcheck_identity_index_create demo_enc (Some demo_old) (replicate 5 True) = (Some demo_index, [])"
    by code_simp
  have v: "shm_valid demo_old" by (simp add: shm_valid_def demo_old_def)
  let ?ps = "[demo_peer ''a'', demo_peer ''x'', demo_peer ''a'']"
  obtain rs ix' where t: "takes (ngx_healthcheck_identity_index_take demo_enc (shm_peers demo_old)) demo_index ?ps = (rs, ix')"
    by fastforce
  let ?i = "peer_identity (demo_peer ''a'')"
  have "matched peer_identity ?i ?ps rs = min (length (filter (\<lambda>p. peer_identity p = ?i) ?ps))
      (card {n. n < unat (shm_number demo_old) \<and> shm_identity (shm_peers demo_old n) = ?i})"
    using identity_matching_one_to_one [OF c v t] by blast
  moreover have "{n. n < unat (shm_number demo_old) \<and> shm_identity (shm_peers demo_old n) = ?i} = {0, 1}"
    by (auto simp: demo_old_def shm_identity_def peer_identity_def demo_peer_def demo_conf_def
        peer_check_type_def zero_peer_shm_def)
  moreover have "length (filter (\<lambda>p. peer_identity p = ?i) ?ps) = 2"
    by (simp add: peer_identity_def demo_peer_def)
  ultimately have "matched peer_identity ?i ?ps rs = min 2 (card {0 :: nat, 1})" by (simp only:)
  then show ?thesis unfolding t fst_conv by simp
qed

text \<open>The valid zones of the module in the order in which they are visited.\<close>

definition zone_candidates :: "shm_zone list list option \<Rightarrow> nat \<Rightarrow> peers_shm list" where
  "zone_candidates cycle tag =
     (case cycle of None \<Rightarrow> [] | Some parts \<Rightarrow> List.map_filter (zone_candidate tag) (concat parts))"

definition latest_of :: "peers_shm list \<Rightarrow> peers_shm option \<Rightarrow> bool" where
  "latest_of cs r \<longleftrightarrow>
     (case r of
        None \<Rightarrow> cs = []
      | Some s \<Rightarrow> \<exists>before after. cs = before @ s # after \<and>
          (\<forall>c \<in> set before. shm_generation c < shm_generation s) \<and>
          (\<forall>c \<in> set after. shm_generation c \<le> shm_generation s))"

lemma latest_of_le:
  assumes "latest_of cs (Some m)" and "c \<in> set cs"
  shows "shm_generation c \<le> shm_generation m"
proof -
  from assms(1) obtain before after where cs: "cs = before @ m # after"
    "\<forall>c \<in> set before. shm_generation c < shm_generation m"
    "\<forall>c \<in> set after. shm_generation c \<le> shm_generation m" by (auto simp: latest_of_def)
  from assms(2) cs(1) consider "c \<in> set before" | "c = m" | "c \<in> set after" by auto
  then show ?thesis using cs(2,3) by cases (simp_all add: order.strict_implies_order)
qed

lemma latest_of_step:
  "latest_of cs latest \<Longrightarrow> latest_of (cs @ [c])
     (case latest of None \<Rightarrow> Some c
      | Some l \<Rightarrow> if shm_generation c > shm_generation l then Some c else Some l)"
proof (cases latest)
  case (Some l)
  assume "latest_of cs latest"
  with Some obtain before after where cs: "cs = before @ l # after"
    "\<forall>c \<in> set before. shm_generation c < shm_generation l"
    "\<forall>c \<in> set after. shm_generation c \<le> shm_generation l" by (auto simp: latest_of_def)
  show ?thesis
  proof (cases "shm_generation c > shm_generation l")
    case True
    have "\<forall>x \<in> set cs. shm_generation x < shm_generation c" using cs True by auto
    then have "latest_of (cs @ [c]) (Some c)"
      unfolding latest_of_def option.case by (intro exI [of _ cs] exI [of _ "[]"]) simp
    with True Some show ?thesis by simp
  next
    case False
    then have "cs @ [c] = before @ l # (after @ [c])" "\<forall>x \<in> set (after @ [c]). shm_generation x \<le> shm_generation l"
      using cs by auto
    with cs(2) have "latest_of (cs @ [c]) (Some l)" unfolding latest_of_def option.case by blast
    with False Some show ?thesis by simp
  qed
next
  case None
  assume "latest_of cs latest"
  with None have "cs = []" by (simp add: latest_of_def)
  moreover have "latest_of [c] (Some c)"
    unfolding latest_of_def option.case by (intro exI [of _ "[]"]) simp
  ultimately show ?thesis using None by simp
qed

lemma latest_scan_correct:
  "latest_of cs latest \<Longrightarrow>
   latest_of (cs @ List.map_filter (zone_candidate tag) (zs @ concat parts)) (latest_scan tag zs parts latest)"
proof (induction tag zs parts latest arbitrary: cs rule: latest_scan.induct)
  case (3 tag z zs parts latest)
  show ?case
  proof (cases "zone_candidate tag z")
    case None
    with 3 show ?thesis by (simp add: List.map_filter_def)
  next
    case (Some c)
    with latest_of_step [OF 3(2), of c] have
      "latest_of (cs @ [c]) (case zone_candidate tag z of None \<Rightarrow> latest
        | Some candidate \<Rightarrow> (case latest of None \<Rightarrow> Some candidate
           | Some l \<Rightarrow> if shm_generation candidate > shm_generation l then Some candidate else Some l))"
      by (simp only: option.case)
    from 3(1) [OF this] Some show ?thesis by (simp add: List.map_filter_def)
  qed
qed (simp_all add: List.map_filter_def)

lemma latest_scan_latest:
  "latest_of (zone_candidates cycle tag) (ngx_healthcheck_find_latest_peers_shm cycle tag)"
proof (cases cycle)
  case (Some parts)
  have "latest_of [] None" by (simp add: latest_of_def)
  from latest_scan_correct [OF this] Some show ?thesis
    by (cases parts) (simp_all add: zone_candidates_def ngx_healthcheck_find_latest_peers_shm_def
        latest_of_def List.map_filter_def)
qed (simp add: latest_of_def zone_candidates_def ngx_healthcheck_find_latest_peers_shm_def)


end
