(* ===== verification/Zone.thy ===== *)
theory Zone
  imports Identity
begin

text \<open>
  Building the shared zone of a new cycle (\<^verbatim>\<open>runtime/ngx_healthcheck_zone.c\<close>): its generation and
  name when the configuration is read, and its contents when the master has mapped it, including the
  health that peers inherit from the zone of the previous cycle.

  The sizes of the C structures and the core settings are the record \<open>zone_env\<close>.  The old zone is in
  use by the old workers while the new one is built, so it is the \<open>k_shm\<close> of the kernel record and
  changes under the reader's hands; only the identity of its peers is fixed once they exist.
\<close>

section \<open>Configuring the zone\<close>

record zone_request =
  zr_generation :: u64
  zr_name :: bytes
  zr_size :: u64

datatype zone_error = GenerationExhausted | ZoneNoMemory

text \<open>
  The tape answers the allocation of the name and \<^verbatim>\<open>ngx_shared_memory_add\<close>.  The name is at most
  46 bytes long, so the limit of 96 of \<^verbatim>\<open>ngx_snprintf\<close> never cuts it.
\<close>

definition zone_name :: "u64 \<Rightarrow> u64 \<Rightarrow> bytes" where
  "zone_name module generation =
     ''ngx_'' @ (if module = NGX_HEALTHCHECK_HTTP then ''http'' else ''stream'') @ ''_upstream_check#'' @
     decimal (unat generation)"

definition ngx_healthcheck_configure_zone ::
  "main_conf \<Rightarrow> shm_zone list list option \<Rightarrow> nat \<Rightarrow> u64 \<Rightarrow> bool list \<Rightarrow> zone_error + zone_request" where
  "ngx_healthcheck_configure_zone main old_cycle tag module t =
     (let old = ngx_healthcheck_find_latest_peers_shm old_cycle tag in
      if (case old of None \<Rightarrow> False | Some s \<Rightarrow> shm_generation s = UINT64_MAX)
      then Inl GenerationExhausted
      else let generation = (case old of None \<Rightarrow> 1 | Some s \<Rightarrow> shm_generation s + 1);
               (ok, t1) = next_alloc t in
        if \<not> ok then Inl ZoneNoMemory
        else let (ok, t2) = next_alloc t1 in
          if \<not> ok then Inl ZoneNoMemory
          else Inr \<lparr>zr_generation = generation, zr_name = zone_name module generation,
                    zr_size = max (m_check_shm_size main) (1024 * 1024)\<rparr>)"

section \<open>Initialising the zone\<close>

record zone_env =
  e_master :: bool
  e_processes :: int
  e_atomic :: bool
  e_header_size :: u64
  e_peer_size :: u64
  e_worker_size :: u64
  e_enc :: "u64 \<Rightarrow> bytes"

definition zone_workers :: "zone_env \<Rightarrow> u64" where
  "zone_workers env = (if e_master env \<and> e_processes env > 0 then word_of_int (e_processes env) else 1)"

fun mutex_inits :: "bool \<Rightarrow> nat \<Rightarrow> bool list \<Rightarrow> bool \<times> bool list" where
  "mutex_inits atomic 0 t = (True, t)"
| "mutex_inits atomic (Suc n) t =
     (let (ok, t1) = ngx_healthcheck_mutex_init atomic t in
      if \<not> ok then (False, t1) else mutex_inits atomic n t1)"

text \<open>The local \<^verbatim>\<open>state\<close>: zero with the configured default, or what could be read of the old record.\<close>

definition zone_fresh_state :: "peer_conf \<Rightarrow> peer_state" where
  "zone_fresh_state p = zero_peer_state\<lparr>ps_health := zero_health\<lparr>h_down := c_default_down (p_conf p)\<rparr>\<rparr>"

definition zone_clear_delay :: "peer_conf \<Rightarrow> health \<Rightarrow> health" where
  "zone_clear_delay p h =
     (if peer_check_type p = NGX_CHECK_TYPE_UDP
      then h\<lparr>h_last := 0, h_avg := 0, h_min := 0, h_max := 0, h_total := 0, h_samples := 0\<rparr>
      else h)"

definition zone_initial_state :: "u64 \<Rightarrow> nat \<Rightarrow> peer_conf \<Rightarrow> peer_state option \<Rightarrow> peer_state" where
  "zone_initial_state workers i p previous =
     (let st = (case previous of None \<Rightarrow> zone_fresh_state p | Some s \<Rightarrow> s)
      in st\<lparr>ps_health := zone_clear_delay p (ps_health st),
            ps_owner := NGX_INVALID_PID, ps_worker := of_nat i mod workers, ps_instance := 0,
            ps_term := 0, ps_round := 0, ps_deadline := 0, ps_phase := INITIAL\<rparr>)"

text \<open>The loop over the configured peers; \<open>old\<close> gives the identities of the old records.\<close>

fun init_peers :: "zone_env \<Rightarrow> (nat \<Rightarrow> peer_shm) \<Rightarrow> nat \<Rightarrow> peer_conf list \<Rightarrow> identity_index \<Rightarrow>
    peers_shm \<Rightarrow> 'a kernel_scheme \<Rightarrow> bool list \<Rightarrow> peers_shm option \<times> 'a kernel_scheme \<times> bool list" where
  "init_peers env old i [] ix shm w t = (Some shm, w, t)"
| "init_peers env old i (p # ps) ix shm w t =
     (case ngx_healthcheck_copy_shm_identity (shm_peers shm i) p t of
        (None, t1) \<Rightarrow> (None, w, t1)
      | (Some target, t1) \<Rightarrow>
          (let (ok, t2) = ngx_healthcheck_mutex_init (e_atomic env) t1 in
           if \<not> ok then (None, w, t2)
           else
             (let (previous, ix') = ngx_healthcheck_identity_index_take (e_enc env) old ix p;
                  (state, w') = (case previous of
                       None \<Rightarrow> (None, w)
                     | Some n \<Rightarrow> ngx_healthcheck_read_peer n 0 w);
                  target' = ngx_healthcheck_publish target
                    (zone_initial_state (shm_worker_count shm) i p state)
              in init_peers env old (Suc i) ps ix'
                   (shm\<lparr>shm_peers := (shm_peers shm)(i := target')\<rparr>) w' t2)))"

text \<open>
  \<^verbatim>\<open>ngx_healthcheck_init_zone\<close>; \<open>None\<close> is \<^verbatim>\<open>NGX_ERROR\<close>, which makes nginx give up the new cycle.
\<close>

definition ngx_healthcheck_init_zone ::
  "zone_env \<Rightarrow> peer_conf list \<Rightarrow> u64 \<Rightarrow> shm_zone list list option \<Rightarrow> nat \<Rightarrow> 'a kernel_scheme \<Rightarrow> bool list \<Rightarrow>
   peers_shm option \<times> 'a kernel_scheme \<times> bool list" where
  "ngx_healthcheck_init_zone env peers generation old_cycle tag w t =
     (let workers = zone_workers env; count = of_nat (length peers) in
      if count > (UINT64_MAX - e_header_size env) div e_peer_size env
         \<or> workers > UINT64_MAX div e_worker_size env then (None, w, t)
      else let (ok, t1) = next_alloc t in if \<not> ok then (None, w, t1)
      else let shm = zero_peers_shm\<lparr>shm_magic := NGX_HEALTHCHECK_SHM_MAGIC,
                 shm_version := NGX_HEALTHCHECK_SHM_VERSION, shm_generation := generation,
                 shm_number := count, shm_worker_count := workers\<rparr>;
               (ok, t2) = next_alloc t1 in if \<not> ok then (None, w, t2)
      else let (ok, t3) = ngx_healthcheck_mutex_init (e_atomic env) t2 in if \<not> ok then (None, w, t3)
      else let (ok, t4) = mutex_inits (e_atomic env) (unat workers) t3 in if \<not> ok then (None, w, t4)
      else let old = ngx_healthcheck_find_latest_peers_shm old_cycle tag;
               (ok, t5) = next_alloc t4 in if \<not> ok then (None, w, t5)
      else (case ngx_healthcheck_identity_index_create (e_enc env) old t5 of
              (None, t6) \<Rightarrow> (None, w, t6)
            | (Some ix, t6) \<Rightarrow>
                (case old of
                   None \<Rightarrow> init_peers env (\<lambda>_. zero_peer_shm) 0 peers ix shm w t6
                 | Some s \<Rightarrow> init_peers env (shm_peers s) 0 peers ix shm (w\<lparr>k_shm := s\<rparr>) t6)))"

section \<open>What a built record holds\<close>

text \<open>A record that nobody owns and whose first round is still to come.\<close>

definition unowned :: "peer_state \<Rightarrow> bool" where
  "unowned s \<longleftrightarrow> ps_owner s = NGX_INVALID_PID \<and> ps_instance s = 0 \<and> ps_term s = 0 \<and> ps_round s = 0 \<and>
     ps_deadline s = 0 \<and> ps_phase s = INITIAL"

text \<open>
  \<open>P\<close> describes the states of the old zone that the old workers may produce and \<open>N\<close> its records.  A record is right if it
  carries the peer's identity, is unowned, assigned round robin, routes by its own down value, and
  holds the default health or that of one old record of the same identity.
\<close>

definition inherits :: "(peers_shm \<Rightarrow> bool) \<Rightarrow> nat set \<Rightarrow> (nat \<Rightarrow> peer_shm) \<Rightarrow> peer_conf \<Rightarrow> peer_state \<Rightarrow> bool" where
  "inherits P N old p st \<longleftrightarrow>
     (\<exists>s n. P s \<and> n \<in> N \<and> shm_identity (old n) = peer_identity p \<and>
        ps_health st = zone_clear_delay p (ps_health (peer_current (shm_peers s n))) \<and>
        ps_started st = ps_started (peer_current (shm_peers s n)))"

definition record_built :: "(peers_shm \<Rightarrow> bool) \<Rightarrow> nat set \<Rightarrow> (nat \<Rightarrow> peer_shm) \<Rightarrow> u64 \<Rightarrow> nat \<Rightarrow> peer_conf \<Rightarrow> peer_shm \<Rightarrow> bool" where
  "record_built P N old workers i p r \<longleftrightarrow>
     shm_identity r = peer_identity p \<and> down_bit_ok r \<and> unowned (peer_current r) \<and>
     ps_worker (peer_current r) = of_nat i mod workers \<and>
     (ps_health (peer_current r) = zone_clear_delay p (ps_health (zone_fresh_state p)) \<and>
        ps_started (peer_current r) = 0 \<or>
      inherits P N old p (peer_current r))"

lemma zone_initial_state_fields:
  "unowned (zone_initial_state workers i p previous)"
  "ps_worker (zone_initial_state workers i p previous) = of_nat i mod workers"
  "ps_health (zone_initial_state workers i p None) = zone_clear_delay p (ps_health (zone_fresh_state p))"
  "ps_started (zone_initial_state workers i p None) = 0"
  "ps_health (zone_initial_state workers i p (Some s)) = zone_clear_delay p (ps_health s)"
  "ps_started (zone_initial_state workers i p (Some s)) = ps_started s"
  by (simp_all add: zone_initial_state_def unowned_def Let_def zone_fresh_state_def zero_peer_state_def)

lemma publish_identity: "shm_identity (ngx_healthcheck_publish r s) = shm_identity r"
  by (simp add: shm_identity_def ngx_healthcheck_publish_def Let_def)

lemma record_built_step:
  assumes copy: "ngx_healthcheck_copy_shm_identity target p t = (Some target', t')"
    and state: "previous = None \<or> (\<exists>s n st. previous = Some st \<and> P s \<and> n \<in> N \<and>
      shm_identity (old n) = peer_identity p \<and> st = peer_current (shm_peers s n))"
  shows "record_built P N old workers i p
    (ngx_healthcheck_publish target' (zone_initial_state workers i p previous))"
proof -
  have "shm_identity target' = peer_identity p"
    by (simp add: copy_shm_identityE [OF copy] shm_identity_def peer_identity_def)
  note base = this publish_identity down_bit_publish zone_initial_state_fields(1,2)
  show ?thesis
  proof (cases previous)
    case None
    with base show ?thesis by (simp add: record_built_def cell_simps zone_initial_state_fields)
  next
    case (Some st)
    with state have "inherits P N old p (zone_initial_state workers i p previous)"
      unfolding inherits_def by (metis zone_initial_state_fields(5,6) option.distinct(1) option.inject)
    with base show ?thesis by (simp add: record_built_def cell_simps)
  qed
qed

lemma init_peers_frame:
  assumes "init_peers env old i ps ix shm w t = (Some shm', w', t')"
  shows "j < i \<Longrightarrow> shm_peers shm' j = shm_peers shm j"
    and "shm_worker_count shm' = shm_worker_count shm \<and> shm_number shm' = shm_number shm \<and>
      shm_generation shm' = shm_generation shm \<and> shm_magic shm' = shm_magic shm \<and>
      shm_version shm' = shm_version shm \<and> shm_activated shm' = shm_activated shm"
  using assms
  by (induction env old i ps ix shm w t rule: init_peers.induct)
    (auto simp: Let_def split: prod.splits option.splits if_splits)

lemma init_peers_built:
  assumes "init_peers env old i ps ix shm w t = (Some shm', w', t')"
    and "index_ok (e_enc env) old ix" and "set_mset (index_nodes ix) \<subseteq> N" and "guarded P w" and "j < length ps"
  shows "record_built P N old (shm_worker_count shm) (i + j) (ps ! j) (shm_peers shm' (i + j))"
  using assms
proof (induction env old i ps ix shm w t arbitrary: j rule: init_peers.induct)
  case (2 env old i p ps ix shm w t)
  from 2(2) obtain target t1 t2 where copy: "ngx_healthcheck_copy_shm_identity (shm_peers shm i) p t = (Some target, t1)"
    and mutex: "ngx_healthcheck_mutex_init (e_atomic env) t1 = (True, t2)"
    by (auto simp: Let_def split: prod.splits option.splits if_splits)
  obtain previous ix1 where take: "ngx_healthcheck_identity_index_take (e_enc env) old ix p = (previous, ix1)"
    by fastforce
  obtain state w1 where state: "(case previous of None \<Rightarrow> (None, w) | Some n \<Rightarrow> ngx_healthcheck_read_peer n 0 w) = (state, w1)"
    by fastforce
  let ?shm = "shm\<lparr>shm_peers := (shm_peers shm)(i := ngx_healthcheck_publish target
    (zone_initial_state (shm_worker_count shm) i p state))\<rparr>"
  from 2(2) copy mutex take state have rest: "init_peers env old (Suc i) ps ix1 ?shm w1 t2 = (Some shm', w', t')"
    by (simp add: Let_def)
  have ok: "index_ok (e_enc env) old ix1" using ident.take_ok [OF 2(3), of p] take by simp
  have N: "set_mset (index_nodes ix1) \<subseteq> N"
    using ident.take_some [OF 2(3), of p _ ix1] ident.take_none [OF 2(3), of p ix1] take 2(4)
    by (cases previous) auto
  have "guarded P w1 \<and> (state = None \<or> (\<exists>s n st. state = Some st \<and> P s \<and> n \<in> N \<and>
      shm_identity (old n) = peer_identity p \<and> st = peer_current (shm_peers s n)))"
  proof (cases previous)
    case None
    with state 2(5) show ?thesis by simp
  next
    case (Some n)
    with state have "ngx_healthcheck_read_peer n 0 w = (state, w1)" by simp
    from guarded_read_peer [OF this 2(5)] ident.take_some [OF 2(3), of p n ix1] take Some 2(4)
    show ?thesis by (cases state) auto
  qed
  then have g: "guarded P w1" and st: "state = None \<or> (\<exists>s n st. state = Some st \<and> P s \<and> n \<in> N \<and>
      shm_identity (old n) = peer_identity p \<and> st = peer_current (shm_peers s n))" by blast+
  show ?case
  proof (cases j)
    case 0
    with record_built_step [OF copy st] init_peers_frame(1) [OF rest, of i] show ?thesis by simp
  next
    case (Suc k)
    with 2(1) [OF copy [symmetric] refl mutex [symmetric] refl _ take [symmetric] refl state [symmetric] refl refl rest ok N g, of k] 2(6)
    show ?thesis by simp
  qed
qed simp


section \<open>Properties\<close>

text \<open>C25. A configuration that is accepted asks for a zone whose generation is greater than that of
  every live zone of the module, so the counter never wraps around to an old one, and whose name
  therefore differs from the names of all of them; the zone is at least 1 MB.\<close>

theorem zone_generation_fresh:
  assumes "ngx_healthcheck_configure_zone main old_cycle tag module t = Inr r"
  shows "(\<forall>s \<in> set (zone_candidates old_cycle tag).
      shm_generation s < zr_generation r \<and> zone_name module (shm_generation s) \<noteq> zr_name r) \<and>
    1024 * 1024 \<le> zr_size r"
proof -
  let ?old = "ngx_healthcheck_find_latest_peers_shm old_cycle tag"
  from assms have r: "\<And>s. ?old = Some s \<Longrightarrow> shm_generation s \<noteq> UINT64_MAX \<and> zr_generation r = shm_generation s + 1"
    and name: "zr_name r = zone_name module (zr_generation r)"
    and size: "zr_size r = max (m_check_shm_size main) (1024 * 1024)"
    by (auto simp: ngx_healthcheck_configure_zone_def Let_def split: prod.splits if_splits option.splits)
  have less: "shm_generation s < zr_generation r" if "s \<in> set (zone_candidates old_cycle tag)" for s
  proof -
    have l: "latest_of (zone_candidates old_cycle tag) ?old"
      using latest_scan_latest .
    with that obtain m where m: "?old = Some m" by (cases ?old) (auto simp: latest_of_def)
    with l that have "shm_generation s \<le> shm_generation m"
      by (auto intro: latest_of_le)
    also have "shm_generation m < zr_generation r" using r [OF m] u64_less_suc by auto
    finally show ?thesis .
  qed
  moreover have "zone_name module a \<noteq> zone_name module b" if "a < b" for a b
    using that by (auto simp: zone_name_def decimal_inject word_less_nat_alt)
  ultimately show ?thesis using name size by auto
qed

theorem zone_generation_fresh_witness:
  "\<exists>r. ngx_healthcheck_configure_zone \<lparr>m_check_shm_size = 0, m_peers = []\<rparr>
      (Some [[\<lparr>z_tag = 7, z_data = Some (Some demo_old)\<rparr>]]) 7 NGX_HEALTHCHECK_HTTP [True, True] = Inr r \<and>
    zr_name r = ''ngx_http_upstream_check#5'' \<and>
    (\<forall>s \<in> set (zone_candidates (Some [[\<lparr>z_tag = 7, z_data = Some (Some demo_old)\<rparr>]]) 7).
       shm_generation s < zr_generation r)"
proof -
  let ?r = "\<lparr>zr_generation = 5, zr_name = ''ngx_http_upstream_check#5'', zr_size = 1048576\<rparr>"
  have "ngx_healthcheck_configure_zone \<lparr>m_check_shm_size = 0, m_peers = []\<rparr>
      (Some [[\<lparr>z_tag = 7, z_data = Some (Some demo_old)\<rparr>]]) 7 NGX_HEALTHCHECK_HTTP [True, True] = Inr ?r"
    by code_simp
  from zone_generation_fresh [OF this] this show ?thesis by fastforce
qed

definition old_records :: "peers_shm option \<Rightarrow> nat \<Rightarrow> peer_shm" where
  "old_records old = (case old of None \<Rightarrow> \<lambda>_. zero_peer_shm | Some s \<Rightarrow> shm_peers s)"

definition old_numbers :: "peers_shm option \<Rightarrow> nat set" where
  "old_numbers old = (case old of None \<Rightarrow> {} | Some s \<Rightarrow> {..< unat (shm_number s)})"



definition demo_env :: zone_env where
  "demo_env = \<lparr>e_master = True, e_processes = 2, e_atomic = True, e_header_size = 128, e_peer_size = 512,
     e_worker_size = 128, e_enc = demo_enc\<rparr>"

definition demo_zone_build :: "peers_shm option \<times> kernel \<times> bool list" where
  "demo_zone_build = ngx_healthcheck_init_zone demo_env [demo_peer ''a'', demo_peer ''x''] 5
     (Some [[\<lparr>z_tag = 7, z_data = Some (Some demo_old)\<rparr>]]) 7 lock_example (replicate 30 True)"


end
