(* ===== verification/Rounds.thy ===== *)
theory Rounds
  imports Delay ShmState Config
begin

text \<open>
  The decisions of \<^verbatim>\<open>runtime/ngx_healthcheck_schedule.c\<close> that are taken under the locks, as
  functions of the record they read: registering a worker, claiming a round (regularly or by
  takeover), marking it in flight, and submitting its result with the rise and fall counters.  Each
  returns the record that is published, so the handlers of the process and the interleavings of many
  processes are both built from these functions.
\<close>

section \<open>Registration\<close>

text \<open>
  Lines between taking and releasing the worker lock in \<^verbatim>\<open>ngx_healthcheck_register\<close>: \<open>Inl\<close> is an
  early return.
\<close>

definition register_record :: "bool \<Rightarrow> u64 \<Rightarrow> pid \<Rightarrow> u64 \<Rightarrow> worker_state \<Rightarrow> ngx_rc + worker_state" where
  "register_record registered instance pid now_ms state =
     (if \<not> registered then
        (if ws_instance state = UINT64_MAX then Inl NGX_ERROR
         else Inr (state\<lparr>ws_instance := ws_instance state + 1, ws_pid := pid, ws_exiting := 0,
                         ws_heartbeat := now_ms\<rparr>))
      else if ws_instance state \<noteq> instance \<or> ws_pid state \<noteq> pid \<or> ws_exiting state \<noteq> 0
      then Inl NGX_DECLINED
      else Inr (state\<lparr>ws_heartbeat := now_ms\<rparr>))"

text \<open>The exit registration of \<^verbatim>\<open>ngx_healthcheck_runtime_stop\<close>; \<open>None\<close> publishes nothing.\<close>

definition exit_record :: "u64 \<Rightarrow> pid \<Rightarrow> worker_state \<Rightarrow> worker_state option" where
  "exit_record instance pid state =
     (if ws_pid state = pid \<and> ws_instance state = instance then Some (state\<lparr>ws_exiting := 1\<rparr>) else None)"

text \<open>The test that a registration is the caller's own and still in force.\<close>

definition registration_valid :: "u64 \<Rightarrow> pid \<Rightarrow> worker_state \<Rightarrow> bool" where
  "registration_valid instance pid ws \<longleftrightarrow>
     \<not> (ws_instance ws \<noteq> instance \<or> ws_exiting ws \<noteq> 0 \<or> ws_pid ws \<noteq> pid)"

section \<open>Claiming a round\<close>

definition ngx_healthcheck_deadline :: "u64 \<Rightarrow> srv_conf \<Rightarrow> peer_state \<Rightarrow> u64" where
  "ngx_healthcheck_deadline activated_at conf state =
     (if ps_phase state \<noteq> INITIAL then ps_deadline state
      else ngx_healthcheck_add_time activated_at
             (ngx_healthcheck_add_time (max (c_check_interval conf) 1000)
                                       (max (c_check_interval conf div 2) 1)))"

text \<open>Who claims, and with which registration.\<close>

record claimant =
  cl_worker :: u64
  cl_instance :: u64
  cl_pid :: pid
  cl_grace :: u64

text \<open>Whether the regular or the takeover conditions let the claim go on; the wait is for \<^verbatim>\<open>*wait\<close>.\<close>

definition claim_regular :: "claimant \<Rightarrow> srv_conf \<Rightarrow> u64 \<Rightarrow> peer_state \<Rightarrow> ngx_rc \<times> u64" where
  "claim_regular c conf ms state =
     (if ps_worker state \<noteq> cl_worker c \<or> (ps_instance state \<noteq> 0 \<and> ps_instance state \<noteq> cl_instance c)
      then (NGX_DECLINED, 0)
      else if ps_phase state \<noteq> INITIAL \<and> ps_phase state \<noteq> WAITING then (NGX_AGAIN, 0)
      else if ps_started state \<noteq> 0 then
        (let due = ngx_healthcheck_add_time (ps_started state) (c_check_interval conf) in
         if ms < due then (NGX_AGAIN, due - ms) else (NGX_OK, 0))
      else (NGX_OK, 0))"

definition claim_takeover :: "claimant \<Rightarrow> srv_conf \<Rightarrow> u64 \<Rightarrow> u64 \<Rightarrow> peer_state \<Rightarrow> peer_state \<Rightarrow> ngx_rc \<times> u64" where
  "claim_takeover c conf activated_at ms observed state =
     (if ps_term state \<noteq> ps_term observed \<or> ps_round state \<noteq> ps_round observed
         \<or> ps_phase state \<noteq> ps_phase observed \<or> ps_deadline state \<noteq> ps_deadline observed
         \<or> ms < ngx_healthcheck_add_time (ngx_healthcheck_deadline activated_at conf state) (cl_grace c)
         \<or> (ps_worker state = cl_worker c \<and> ps_instance state = cl_instance c)
      then (NGX_AGAIN, 0) else (NGX_OK, 0))"

text \<open>The record of the new round.\<close>

definition claim_owner_same :: "claimant \<Rightarrow> peer_state \<Rightarrow> bool" where
  "claim_owner_same c state \<longleftrightarrow> \<not> (ps_worker state \<noteq> cl_worker c \<or> ps_instance state \<noteq> cl_instance c)"

definition claim_next :: "claimant \<Rightarrow> srv_conf \<Rightarrow> u64 \<Rightarrow> peer_state \<Rightarrow> peer_state" where
  "claim_next c conf ms state =
     state\<lparr>ps_term := (if claim_owner_same c state then ps_term state else ps_term state + 1),
           ps_worker := cl_worker c, ps_owner := cl_pid c, ps_instance := cl_instance c,
           ps_round := ps_round state + 1, ps_started := ms, ps_phase := PREPARING,
           ps_deadline := ngx_healthcheck_add_time ms (c_check_timeout conf)\<rparr>"

text \<open>
  The critical section of \<^verbatim>\<open>ngx_healthcheck_claim\<close>: the return code, the wait and the record that is
  current afterwards, which is the published new round exactly for \<^verbatim>\<open>NGX_OK\<close>.  \<open>takeover\<close> carries
  the observed record.
\<close>

definition claim_record :: "claimant \<Rightarrow> srv_conf \<Rightarrow> u64 \<Rightarrow> u64 \<Rightarrow> peer_state option \<Rightarrow> peer_state \<Rightarrow>
    ngx_rc \<times> u64 \<times> peer_state" where
  "claim_record c conf activated_at ms takeover state =
     (let (rc, wait) = (case takeover of
            Some observed \<Rightarrow> claim_takeover c conf activated_at ms observed state
          | None \<Rightarrow> claim_regular c conf ms state)
      in if rc \<noteq> NGX_OK then (rc, wait, state)
         else if ps_round state = UINT64_MAX \<or> (\<not> claim_owner_same c state \<and> ps_term state = UINT64_MAX)
         then (NGX_ERROR, wait, state)
         else (NGX_OK, wait, claim_next c conf ms state))"

section \<open>Holding and submitting a round\<close>

text \<open>What a probe remembers of its round.\<close>

record token =
  tk_worker :: u64
  tk_instance :: u64
  tk_pid :: pid
  tk_term :: u64
  tk_round :: u64

text \<open>The identity test of \<^verbatim>\<open>ngx_healthcheck_owned_lock\<close>.\<close>

definition owned_by :: "token \<Rightarrow> peer_state \<Rightarrow> bool" where
  "owned_by t state \<longleftrightarrow>
     \<not> (ps_worker state \<noteq> tk_worker t \<or> ps_instance state \<noteq> tk_instance t \<or> ps_term state \<noteq> tk_term t
        \<or> ps_round state \<noteq> tk_round t \<or> ps_owner state \<noteq> tk_pid t)"

definition waiting_record :: "u64 \<Rightarrow> peer_state \<Rightarrow> peer_state" where
  "waiting_record deadline state =
     (if ps_phase state = PREPARING then state\<lparr>ps_phase := INFLIGHT, ps_deadline := deadline\<rparr> else state)"

text \<open>The delay figures of a health record and back.\<close>

definition health_delay :: "health \<Rightarrow> delay_stats" where
  "health_delay h = \<lparr>ds_last = h_last h, ds_avg = h_avg h, ds_min = h_min h, ds_max = h_max h,
     ds_total = h_total h, ds_count = h_samples h\<rparr>"

definition set_health_delay :: "delay_stats \<Rightarrow> health \<Rightarrow> health" where
  "set_health_delay d h = h\<lparr>h_last := ds_last d, h_avg := ds_avg d, h_min := ds_min d, h_max := ds_max d,
     h_total := ds_total d, h_samples := ds_count d\<rparr>"

text \<open>The health after one result; \<open>sample\<close> is the measured delay of a success that has one.\<close>

definition health_success :: "srv_conf \<Rightarrow> health \<Rightarrow> health" where
  "health_success conf h =
     (let h1 = h\<lparr>h_fall_count := 0,
                 h_rise_count := (if h_rise_count h < UINT64_MAX then h_rise_count h + 1 else c_rise_count conf)\<rparr>
      in if h_rise_count h1 \<ge> c_rise_count conf then h1\<lparr>h_down := 0\<rparr> else h1)"

definition health_failure :: "srv_conf \<Rightarrow> health \<Rightarrow> health" where
  "health_failure conf h =
     (let h1 = h\<lparr>h_rise_count := 0,
                 h_fall_count := (if h_fall_count h < UINT64_MAX then h_fall_count h + 1 else c_fall_count conf)\<rparr>
      in if h_fall_count h1 \<ge> c_fall_count conf then h1\<lparr>h_down := 1\<rparr> else h1)"

definition health_sample :: "u64 option \<Rightarrow> health \<Rightarrow> health" where
  "health_sample sample h =
     (case sample of
        None \<Rightarrow> h
      | Some delay \<Rightarrow>
          (case ngx_healthcheck_update_delay (Some (health_delay h)) delay of
             (NGX_OK, Some d) \<Rightarrow> set_health_delay d h
           | _ \<Rightarrow> h))"

definition submit_health :: "srv_conf \<Rightarrow> bool \<Rightarrow> u64 option \<Rightarrow> health \<Rightarrow> health" where
  "submit_health conf result sample h =
     (if result then health_sample sample (health_success conf h) else health_failure conf h)"

text \<open>The published record of \<^verbatim>\<open>ngx_healthcheck_submit\<close> and the time at which the next round is due.\<close>

definition submit_next :: "srv_conf \<Rightarrow> peer_state \<Rightarrow> u64" where
  "submit_next conf state = ngx_healthcheck_add_time (ps_started state) (c_check_interval conf)"

definition submit_record :: "srv_conf \<Rightarrow> bool \<Rightarrow> u64 option \<Rightarrow> u64 \<Rightarrow> peer_state \<Rightarrow> peer_state" where
  "submit_record conf result sample now state =
     (let h = (submit_health conf result sample (ps_health state))\<lparr>h_access_time := now div 1000000\<rparr>
      in state\<lparr>ps_health := h, ps_phase := WAITING,
               ps_deadline := max (submit_next conf state) (h_access_time h)\<rparr>)"

section \<open>What the counters mean\<close>

text \<open>How many results at the end of a history (newest first) are equal to \<open>b\<close>.\<close>

definition streak :: "bool \<Rightarrow> bool list \<Rightarrow> nat" where
  "streak b rs = length (takeWhile (\<lambda>r. r = b) rs)"

lemma streak_simps [simp]: "streak b [] = 0" "streak b (r # rs) = (if r = b then Suc (streak b rs) else 0)"
  by (simp_all add: streak_def)

lemma streak_le: "streak b rs \<le> length rs"
  by (simp add: streak_def length_takeWhile_le)

text \<open>
  The verdict without counters, over the history newest first: the latest moment at which
  \<open>rise\<close> successes in a row or \<open>fall\<close> failures in a row had been seen decides.
\<close>

fun verdict :: "nat \<Rightarrow> nat \<Rightarrow> u64 \<Rightarrow> bool list \<Rightarrow> u64" where
  "verdict rise fall d0 [] = d0"
| "verdict rise fall d0 (r # rs) =
     (if rise \<le> streak True (r # rs) then 0
      else if fall \<le> streak False (r # rs) then 1
      else verdict rise fall d0 rs)"

text \<open>The results of rounds in the order in which they were submitted.\<close>

primrec submit_all :: "srv_conf \<Rightarrow> (bool \<times> u64 option) list \<Rightarrow> health \<Rightarrow> health" where
  "submit_all conf [] h = h"
| "submit_all conf (r # rs) h = submit_all conf rs (submit_health conf (fst r) (snd r) h)"

lemma health_sample_fields [simp]:
  "h_rise_count (health_sample s h) = h_rise_count h" "h_fall_count (health_sample s h) = h_fall_count h"
  "h_down (health_sample s h) = h_down h" "h_access_time (health_sample s h) = h_access_time h"
  by (auto simp: health_sample_def set_health_delay_def split: option.split prod.split ngx_rc.split)

lemma submit_health_counts:
  "h_rise_count (submit_health conf r s h) =
     (if r then if h_rise_count h < UINT64_MAX then h_rise_count h + 1 else c_rise_count conf else 0)"
  "h_fall_count (submit_health conf r s h) =
     (if r then 0 else if h_fall_count h < UINT64_MAX then h_fall_count h + 1 else c_fall_count conf)"
  by (auto simp: submit_health_def health_success_def health_failure_def Let_def)

lemma submit_health_down:
  "h_down (submit_health conf r s h) =
     (if r then if c_rise_count conf \<le> h_rise_count (submit_health conf r s h) then 0 else h_down h
      else if c_fall_count conf \<le> h_fall_count (submit_health conf r s h) then 1 else h_down h)"
  by (auto simp: submit_health_def health_success_def health_failure_def Let_def)

definition health_matches :: "srv_conf \<Rightarrow> u64 \<Rightarrow> bool list \<Rightarrow> health \<Rightarrow> bool" where
  "health_matches conf d0 rs h \<longleftrightarrow>
     unat (h_rise_count h) = streak True rs \<and> unat (h_fall_count h) = streak False rs \<and>
     h_down h = verdict (unat (c_rise_count conf)) (unat (c_fall_count conf)) d0 rs"

lemma unat_count_step:
  assumes "unat (c :: u64) = n" and "Suc n < 2 ^ 64"
  shows "c < UINT64_MAX \<and> unat (c + 1) = Suc n"
proof -
  have "c \<noteq> UINT64_MAX" using assms unat_max_u64 by auto
  then show ?thesis using unat_suc_no_wrap [of c] assms(1) by (simp add: order.not_eq_order_implies_strict)
qed

lemma health_matches_step:
  assumes h: "health_matches conf d0 rs h" and n: "Suc (length rs) < 2 ^ 64"
    and c: "c_rise_count conf \<noteq> 0" "c_fall_count conf \<noteq> 0"
  shows "health_matches conf d0 (r # rs) (submit_health conf r s h)"
proof (cases r)
  case True
  have "unat (h_rise_count h) = streak True rs" using h by (simp add: health_matches_def)
  moreover have "Suc (streak True rs) < 2 ^ 64" using streak_le [of True rs] n by simp
  ultimately have step: "h_rise_count h < UINT64_MAX" "unat (h_rise_count h + 1) = Suc (streak True rs)"
    using unat_count_step by blast+
  have "0 < unat (c_fall_count conf)" using c by (simp add: unat_gt_0)
  with True h step show ?thesis
    by (auto simp: health_matches_def submit_health_counts submit_health_down word_le_nat_alt)
next
  case False
  have "unat (h_fall_count h) = streak False rs" using h by (simp add: health_matches_def)
  moreover have "Suc (streak False rs) < 2 ^ 64" using streak_le [of False rs] n by simp
  ultimately have step: "h_fall_count h < UINT64_MAX" "unat (h_fall_count h + 1) = Suc (streak False rs)"
    using unat_count_step by blast+
  have "0 < unat (c_rise_count conf)" using c by (simp add: unat_gt_0)
  with False h step show ?thesis
    by (auto simp: health_matches_def submit_health_counts submit_health_down word_le_nat_alt)
qed

lemma submit_all_matches:
  assumes "c_rise_count conf \<noteq> 0" "c_fall_count conf \<noteq> 0"
  shows "health_matches conf d0 old h \<Longrightarrow> length old + length rs < 2 ^ 64 \<Longrightarrow>
    health_matches conf d0 (rev (map fst rs) @ old) (submit_all conf rs h)"
proof (induction rs arbitrary: old h)
  case (Cons r rs)
  from health_matches_step [OF Cons.prems(1) _ assms, of "fst r" "snd r"] Cons.prems(2)
  have "health_matches conf d0 (fst r # old) (submit_health conf (fst r) (snd r) h)" by simp
  from Cons.IH [OF this] Cons.prems(2) show ?case by simp
qed simp

lemma health_sample_wf:
  assumes "delay_wf (health_delay h)"
  shows "delay_wf (health_delay (health_sample s h))"
proof (cases s)
  case (Some d)
  show ?thesis
  proof (cases "ngx_healthcheck_update_delay (Some (health_delay h)) d")
    case (Pair rc o')
    show ?thesis
    proof (cases "rc = NGX_OK \<and> o' \<noteq> None")
      case True
      then obtain s' where "o' = Some s'" by auto
      with True Pair delay_wf_update [OF assms] have "delay_wf s'" by simp
      moreover have "health_delay (set_health_delay s' h) = s'"
        by (simp add: health_delay_def set_health_delay_def)
      ultimately show ?thesis using True Some Pair \<open>o' = Some s'\<close> by (simp add: health_sample_def)
    next
      case False
      with Some Pair assms show ?thesis by (auto simp: health_sample_def split: ngx_rc.split option.split)
    qed
  qed
qed (simp add: health_sample_def assms)

text \<open>A health record as the code keeps it.\<close>

definition health_ok :: "health \<Rightarrow> bool" where
  "health_ok h \<longleftrightarrow> (h_rise_count h = 0 \<or> h_fall_count h = 0) \<and> h_down h \<in> {0, 1} \<and> delay_wf (health_delay h)"

lemma submit_health_ok:
  assumes "health_ok h"
  shows "health_ok (submit_health conf r s h)"
proof -
  have "delay_wf (health_delay (submit_health conf r s h))"
  proof (cases r)
    case True
    have "health_delay (health_success conf h) = health_delay h"
      by (simp add: health_success_def health_delay_def Let_def)
    with True assms health_sample_wf [of "health_success conf h" s] show ?thesis
      by (simp add: submit_health_def health_ok_def)
  next
    case False
    have "health_delay (health_failure conf h) = health_delay h"
      by (simp add: health_failure_def health_delay_def Let_def)
    with False assms show ?thesis by (simp add: submit_health_def health_ok_def)
  qed
  moreover have "h_rise_count (submit_health conf r s h) = 0 \<or> h_fall_count (submit_health conf r s h) = 0"
    by (simp add: submit_health_counts)
  moreover have "h_down (submit_health conf r s h) \<in> {0, 1}"
    using assms by (auto simp: submit_health_down health_ok_def)
  ultimately show ?thesis by (simp add: health_ok_def)
qed

section \<open>Properties\<close>

text \<open>C4. The counters and the down flag mean what the configuration promises: starting from a fresh
  record, after any sequence of submitted results \<open>rise_count\<close> and \<open>fall_count\<close> are the lengths of the
  current run of successes and of failures, and the peer is up or down according to the latest moment
  at which \<open>rise\<close> successes or \<open>fall\<close> failures in a row had been seen, whatever delays were measured.\<close>

theorem down_follows_streaks:
  assumes "c_rise_count conf \<noteq> 0" "c_fall_count conf \<noteq> 0" and "length rs < 2 ^ 64"
  shows "health_matches conf d0 (rev (map fst rs)) (submit_all conf rs (zero_health\<lparr>h_down := d0\<rparr>))"
  using submit_all_matches [OF assms(1,2), of d0 "[]" "zero_health\<lparr>h_down := d0\<rparr>" rs] assms(3)
  by (simp add: health_matches_def zero_health_def)

theorem down_follows_streaks_witness:
  "h_down (submit_all demo_conf [(False, None), (False, None), (True, Some 7), (False, None), (False, None),
     (False, None)] zero_health) = 1"
proof -
  let ?rs = "[(False, None), (False, None), (True, Some 7), (False, None), (False, None), (False, None)]"
  have "c_rise_count demo_conf \<noteq> 0" "c_fall_count demo_conf \<noteq> 0" by (simp_all add: demo_conf_def)
  from down_follows_streaks [OF this, of ?rs 0]
  have "health_matches demo_conf 0 (rev (map fst ?rs)) (submit_all demo_conf ?rs zero_health)"
    by (simp add: zero_health_def del: submit_all.simps)
  then show ?thesis by (simp add: health_matches_def demo_conf_def del: submit_all.simps)
qed

end
