(* ===== verification/Process.thy ===== *)
theory Process
  imports Rounds Identity "HOL-Library.State_Monad"
begin

text \<open>
  One worker process: its local runtime (\<^verbatim>\<open>runtime/ngx_healthcheck_runtime.h\<close>), the probe records
  and the connection of each, and the primitives the handlers are built from.  The handlers run in the
  state monad over the record \<open>process\<close>, which extends the kernel record by everything that is local to
  the process and by the tapes that answer its system calls.

  A probe and its events are named by the index of their peer: there is one probe slot and at most one
  connection per peer, and an event of a connection exists only as long as that connection.
\<close>

section \<open>Probes and connections\<close>

datatype errno = ENONE | EAGAIN | EINTR | ECONNREFUSED | ENOMEM | ENOBUFS | EMFILE | ENFILE | E_other int

datatype handler = NoHandler | IdleWrite | TcpEvent | TcpIdle | UdpWrite | UdpRead

text \<open>\<open>ev_timer\<close> is the delay the timer was last armed with, \<open>None\<close> while \<^verbatim>\<open>timer_set\<close> is 0.\<close>

record event =
  ev_timer :: "u64 option"
  ev_posted :: bool
  ev_ready :: bool
  ev_active :: bool
  ev_timedout :: bool
  ev_handler :: handler

record conn =
  cn_read :: event
  cn_write :: event
  cn_idle :: bool
  cn_close :: bool
  cn_error :: bool
  cn_timedout :: bool
  cn_reusable :: bool
  cn_requests :: u64
  cn_start :: u64

record probe =
  pb_conn :: "conn option"
  pb_timer :: "u64 option"
  pb_posted :: bool
  pb_instance :: u64
  pb_term :: u64
  pb_round :: u64
  pb_started :: u64
  pb_deadline :: u64
  pb_generation :: u64
  pb_delay :: u64
  pb_discarded :: u64
  pb_error :: errno
  pb_reason :: string
  pb_stage :: string
  pb_source :: string
  pb_active :: bool
  pb_pending :: bool
  pb_result :: bool
  pb_sample :: bool
  pb_attempted :: bool
  pb_sent :: bool
  pb_sending :: bool
  pb_prepared :: bool
  pb_waiting :: bool

text \<open>The part of a peer that is local to the process: its check timer and its probe.\<close>

record local_peer =
  lp_timer :: "u64 option"
  lp_posted :: bool
  lp_probe :: "probe option"

text \<open>Zeroed memory.\<close>

definition zero_event :: event where
  "zero_event = \<lparr>ev_timer = None, ev_posted = False, ev_ready = False, ev_active = False,
     ev_timedout = False, ev_handler = NoHandler\<rparr>"

definition zero_probe :: probe where
  "zero_probe = \<lparr>pb_conn = None, pb_timer = None, pb_posted = False, pb_instance = 0, pb_term = 0,
     pb_round = 0, pb_started = 0, pb_deadline = 0, pb_generation = 0, pb_delay = 0, pb_discarded = 0,
     pb_error = ENONE, pb_reason = [], pb_stage = [], pb_source = [], pb_active = False,
     pb_pending = False, pb_result = False, pb_sample = False, pb_attempted = False, pb_sent = False,
     pb_sending = False, pb_prepared = False, pb_waiting = False\<rparr>"

section \<open>The process\<close>

text \<open>
  The first group is \<^verbatim>\<open>ngx_upstream_check_peers_t\<close>, the second \<^verbatim>\<open>ngx_healthcheck_runtime_t\<close> (with
  \<open>r_present\<close> for \<^verbatim>\<open>peers->runtime != NULL\<close>).  The third answers the calls of the process: a signal
  may set a quit flag before any test of them; \<^verbatim>\<open>ngx_random\<close>, allocations, \<^verbatim>\<open>recv\<close> and \<^verbatim>\<open>send\<close> (result
  and errno), \<^verbatim>\<open>getsockopt(SO_ERROR)\<close> (result, value, errno), \<^verbatim>\<open>setsockopt\<close>, the registration and
  removal of event interest, and \<^verbatim>\<open>ngx_event_connect_peer\<close> (its code and the connection it leaves).  An
  exhausted tape answers 0, a failure or \<^verbatim>\<open>EAGAIN\<close>.  \<open>pr_msec\<close> is the cached \<^verbatim>\<open>ngx_current_msec\<close>,
  \<open>pr_level\<close> is \<^verbatim>\<open>ngx_event_flags & NGX_USE_LEVEL_EVENT\<close>, \<open>pr_hash\<close> is \<^verbatim>\<open>ngx_murmur_hash2\<close>.
\<close>

record process = kernel +
  pr_peers :: "peer_conf list"
  pr_generation :: u64
  pr_module :: u64
  pr_workers :: u64
  pr_local :: "nat \<Rightarrow> local_peer"
  r_present :: bool
  r_worker :: u64
  r_cursor :: u64
  r_instance :: u64
  r_grace :: u64
  r_interval :: u64
  r_preference :: u64
  r_budget :: u64
  r_registered :: bool
  r_timers_started :: bool
  r_stopping :: bool
  r_cleaned :: bool
  r_watch_timer :: "u64 option"
  r_watch_posted :: bool
  pr_quits :: "bool list"
  pr_random :: "u64 list"
  pr_alloc :: "bool list"
  pr_recv :: "(int \<times> errno) list"
  pr_send :: "(int \<times> errno) list"
  pr_soerror :: "(int \<times> errno \<times> errno) list"
  pr_setsockopt :: "bool list"
  pr_events :: "bool list"
  pr_connect :: "(ngx_rc \<times> conn option) list"
  pr_msec :: u64
  pr_level :: bool
  pr_hash :: "bytes \<Rightarrow> u32"

type_synonym 'a act = "(process, 'a) state"

abbreviation ret :: "'a \<Rightarrow> 'a act" where "ret \<equiv> State_Monad.return"
abbreviation skip :: "unit act" where "skip \<equiv> ret ()"

definition gets :: "(process \<Rightarrow> 'a) \<Rightarrow> 'a act" where
  "gets f = State (\<lambda>w. (f w, w))"

definition modify :: "(process \<Rightarrow> process) \<Rightarrow> unit act" where
  "modify f = State (\<lambda>w. ((), f w))"

definition "when" :: "bool \<Rightarrow> unit act \<Rightarrow> unit act" where
  "when b m = (if b then m else skip)"

lemma run_gets [simp]: "run_state (gets f) w = (f w, w)"
  by (simp add: gets_def)

lemma run_modify [simp]: "run_state (modify f) w = ((), f w)"
  by (simp add: modify_def)

section \<open>Primitives\<close>

definition read_clock :: "u64 option act" where "read_clock = State ngx_healthcheck_now"
definition take_lock :: "lock \<Rightarrow> u64 \<Rightarrow> ngx_rc act" where "take_lock l limit = State (ngx_healthcheck_lock l limit)"
definition drop_lock :: "lock \<Rightarrow> unit act" where "drop_lock l = modify (shmtx_unlock l)"

text \<open>\<^verbatim>\<open>ngx_quit || ngx_exiting || ngx_terminate\<close>; the flags are never cleared while the process works.\<close>

definition quitting :: "bool act" where
  "quitting = State (\<lambda>w. case pr_quits w of
     [] \<Rightarrow> (k_quit w, w)
   | b # bs \<Rightarrow> (k_quit w \<or> b, w\<lparr>k_quit := k_quit w \<or> b, pr_quits := bs\<rparr>))"

definition pool_alloc :: "bool act" where
  "pool_alloc = State (\<lambda>w. let (ok, t) = next_alloc (pr_alloc w) in (ok, w\<lparr>pr_alloc := t\<rparr>))"

definition event_call :: "bool act" where
  "event_call = State (\<lambda>w. let (ok, t) = next_alloc (pr_events w) in (ok, w\<lparr>pr_events := t\<rparr>))"

definition sys_setsockopt :: "bool act" where
  "sys_setsockopt = State (\<lambda>w. let (ok, t) = next_alloc (pr_setsockopt w) in (ok, w\<lparr>pr_setsockopt := t\<rparr>))"

definition ngx_random :: "u64 act" where
  "ngx_random = State (\<lambda>w. case pr_random w of [] \<Rightarrow> (0, w) | r # rs \<Rightarrow> (r, w\<lparr>pr_random := rs\<rparr>))"

definition sys_recv :: "(int \<times> errno) act" where
  "sys_recv = State (\<lambda>w. case pr_recv w of [] \<Rightarrow> ((- 1, EAGAIN), w) | r # rs \<Rightarrow> (r, w\<lparr>pr_recv := rs\<rparr>))"

definition sys_send :: "(int \<times> errno) act" where
  "sys_send = State (\<lambda>w. case pr_send w of [] \<Rightarrow> ((- 1, EAGAIN), w) | r # rs \<Rightarrow> (r, w\<lparr>pr_send := rs\<rparr>))"

definition getsockopt_error :: "(int \<times> errno \<times> errno) act" where
  "getsockopt_error = State (\<lambda>w. case pr_soerror w of
     [] \<Rightarrow> ((0, ENONE, ENONE), w) | r # rs \<Rightarrow> (r, w\<lparr>pr_soerror := rs\<rparr>))"

definition connect_peer :: "(ngx_rc \<times> conn option) act" where
  "connect_peer = State (\<lambda>w. case pr_connect w of
     [] \<Rightarrow> ((NGX_ERROR, None), w) | r # rs \<Rightarrow> (r, w\<lparr>pr_connect := rs\<rparr>))"

text \<open>Access to the slot, the probe and the connection of peer \<open>i\<close>.\<close>

definition peer_of :: "nat \<Rightarrow> process \<Rightarrow> peer_conf" where
  "peer_of i w = pr_peers w ! i"

definition conf_of :: "nat \<Rightarrow> process \<Rightarrow> srv_conf" where
  "conf_of i w = p_conf (peer_of i w)"

definition is_udp :: "nat \<Rightarrow> process \<Rightarrow> bool" where
  "is_udp i w \<longleftrightarrow> peer_check_type (peer_of i w) = NGX_CHECK_TYPE_UDP"

definition probe_of :: "nat \<Rightarrow> process \<Rightarrow> probe" where
  "probe_of i w = the (lp_probe (pr_local w i))"

definition upd_local :: "nat \<Rightarrow> (local_peer \<Rightarrow> local_peer) \<Rightarrow> unit act" where
  "upd_local i f = modify (\<lambda>w. w\<lparr>pr_local := (pr_local w)(i := f (pr_local w i))\<rparr>)"

definition upd_probe :: "nat \<Rightarrow> (probe \<Rightarrow> probe) \<Rightarrow> unit act" where
  "upd_probe i f = upd_local i (\<lambda>lp. lp\<lparr>lp_probe := map_option f (lp_probe lp)\<rparr>)"

definition upd_conn :: "nat \<Rightarrow> (conn \<Rightarrow> conn) \<Rightarrow> unit act" where
  "upd_conn i f = upd_probe i (\<lambda>p. p\<lparr>pb_conn := map_option f (pb_conn p)\<rparr>)"

definition get_conn :: "nat \<Rightarrow> conn option act" where
  "get_conn i = gets (\<lambda>w. pb_conn (probe_of i w))"

text \<open>\<^verbatim>\<open>ngx_healthcheck_timer\<close>: the delay that is handed to \<^verbatim>\<open>ngx_add_timer\<close>.\<close>

definition ngx_healthcheck_timer :: "u64 \<Rightarrow> u64" where
  "ngx_healthcheck_timer delay = min delay (drop_bit 1 UINT64_MAX)"

definition arm_check :: "nat \<Rightarrow> u64 \<Rightarrow> unit act" where
  "arm_check i delay = upd_local i (lp_timer_update (\<lambda>_. Some (ngx_healthcheck_timer delay)))"

definition disarm_check :: "nat \<Rightarrow> unit act" where
  "disarm_check i = upd_local i (lp_timer_update (\<lambda>_. None))"

definition arm_timeout :: "nat \<Rightarrow> u64 \<Rightarrow> unit act" where
  "arm_timeout i delay = upd_probe i (pb_timer_update (\<lambda>_. Some (ngx_healthcheck_timer delay)))"

definition arm_watch :: "u64 \<Rightarrow> unit act" where
  "arm_watch delay = modify (r_watch_timer_update (\<lambda>_. Some (ngx_healthcheck_timer delay)))"

end
