(* ===== verification/Runtime.thy ===== *)
theory Runtime
  imports Process
begin

text \<open>
  The runtime of a process (first half of \<^verbatim>\<open>runtime/ngx_healthcheck_schedule.c\<close>) with closing and
  cleaning up a probe (\<^verbatim>\<open>protocol/ngx_healthcheck_probe.c\<close>), which stopping needs: registration of
  the worker, the timers, starting and stopping, and the double lock under which a probe proves that
  its round is still its own, marks it in flight and submits its result.
\<close>

section \<open>Closing and cleaning up a probe\<close>

text \<open>
  The SO_LINGER call's answer is ignored by the code, but it is one call of the tape.  The connection
  object is gone afterwards, with its timers and posted events.
\<close>

definition ngx_healthcheck_probe_close :: "nat \<Rightarrow> unit act" where
  "ngx_healthcheck_probe_close i = do {
     connection \<leftarrow> get_conn i;
     (case connection of
        None \<Rightarrow> skip
      | Some c \<Rightarrow> do {
          linger \<leftarrow> sys_setsockopt;
          upd_probe i (\<lambda>p. p\<lparr>pb_conn := None\<rparr>)
        })
   }"

text \<open>
  Handing a connection over to idle monitoring, after the early exits.  \<open>idle\<close> is
  \<^verbatim>\<open>ngx_healthcheck_tcp_idle\<close> on the connection's read event, which is defined below, on top of
  stopping; \<open>ngx_healthcheck_probe_cleanup\<close> is this function with that handler.
\<close>

definition cleanup_retain :: "unit act \<Rightarrow> nat \<Rightarrow> conn \<Rightarrow> unit act" where
  "cleanup_retain idle i c = do {
     upd_conn i (\<lambda>c. c\<lparr>cn_read := (cn_read c)\<lparr>ev_timer := None\<rparr>, cn_write := (cn_write c)\<lparr>ev_timer := None\<rparr>\<rparr>);
     level \<leftarrow> gets pr_level;
     removed \<leftarrow> (if level \<and> ev_active (cn_write c) then event_call else ret True);
     if \<not> removed then ngx_healthcheck_probe_close i
     else do {
       upd_conn i (\<lambda>c. c\<lparr>cn_write := (cn_write c)\<lparr>ev_posted := False, ev_handler := IdleWrite,
            ev_active := ev_active (cn_write c) \<and> \<not> level\<rparr>,
          cn_read := (cn_read c)\<lparr>ev_handler := TcpIdle\<rparr>, cn_idle := True, cn_reusable := True\<rparr>);
       registered \<leftarrow> event_call;
       if \<not> registered then ngx_healthcheck_probe_close i
       else when (ev_ready (cn_read c)) idle
     }
   }"

definition cleanup_with :: "unit act \<Rightarrow> nat \<Rightarrow> bool \<Rightarrow> unit act" where
  "cleanup_with idle i reusable = do {
     upd_probe i (\<lambda>p. p\<lparr>pb_timer := None, pb_posted := False\<rparr>);
     connection \<leftarrow> get_conn i;
     (case connection of
        None \<Rightarrow> skip
      | Some c \<Rightarrow> do {
          w \<leftarrow> gets id;
          if \<not> reusable \<or> \<not> c_keep_connection (conf_of i w) \<or>
             peer_check_type (peer_of i w) \<noteq> NGX_CHECK_TYPE_TCP \<or> cn_error c \<or> cn_timedout c
          then ngx_healthcheck_probe_close i
          else cleanup_retain idle i c
        })
   }"

section \<open>Registration and timers\<close>

text \<open>The activation of the zone: once for all processes, under its own lock.\<close>

definition activate :: "u64 \<Rightarrow> u64 \<Rightarrow> bool act" where
  "activate now limit = do {
     active \<leftarrow> gets (\<lambda>w. shm_activated (k_shm w) \<noteq> 0);
     if active then ret True
     else do {
       rc \<leftarrow> take_lock ActivationLock limit;
       if rc \<noteq> NGX_OK then ret False
       else do {
         active \<leftarrow> gets (\<lambda>w. shm_activated (k_shm w) \<noteq> 0);
         when (\<not> active) (do {
           modify (\<lambda>w. w\<lparr>k_shm := (k_shm w)\<lparr>shm_activated_at := now div 1000000\<rparr>\<rparr>);
           modify (\<lambda>w. w\<lparr>k_shm := (k_shm w)\<lparr>shm_activated := 1\<rparr>\<rparr>)
         });
         drop_lock ActivationLock;
         ret True
       }
     }
   }"

definition worker_index :: "process \<Rightarrow> nat" where
  "worker_index w = unat (r_worker w)"

definition ngx_healthcheck_register :: "u64 \<Rightarrow> ngx_rc act" where
  "ngx_healthcheck_register limit = do {
     time \<leftarrow> read_clock;
     (case time of
        None \<Rightarrow> ret NGX_AGAIN
      | Some now \<Rightarrow> do {
          active \<leftarrow> activate now limit;
          if \<not> active then ret NGX_AGAIN
          else do {
            me \<leftarrow> gets worker_index;
            rc \<leftarrow> take_lock (WorkerLock me) limit;
            if rc \<noteq> NGX_OK then ret NGX_AGAIN
            else do {
              w \<leftarrow> gets id;
              (case register_record (r_registered w) (r_instance w) (k_pid w) (now div 1000000)
                      (shm_worker_state me w) of
                 Inl rc \<Rightarrow> do { drop_lock (WorkerLock me); ret rc }
               | Inr state \<Rightarrow> do {
                   modify (publish_worker me state);
                   modify (\<lambda>w. w\<lparr>r_instance := ws_instance state, r_registered := True\<rparr>);
                   drop_lock (WorkerLock me);
                   ret NGX_OK
                 })
            }
          }
        })
   }"

fun start_timers_loop :: "nat list \<Rightarrow> unit act" where
  "start_timers_loop [] = skip"
| "start_timers_loop (i # is) = do {
     w \<leftarrow> gets id;
     when (\<not> of_nat i mod pr_workers w \<noteq> r_worker w) (do {
       r \<leftarrow> ngx_random;
       arm_check i (r mod max (c_check_interval (conf_of i w)) 1000)
     });
     start_timers_loop is
   }"

definition ngx_healthcheck_start_timers :: "unit act" where
  "ngx_healthcheck_start_timers = do {
     w \<leftarrow> gets id;
     if r_timers_started w \<or> \<not> r_registered w then skip
     else do {
       modify (r_timers_started_update (\<lambda>_. True));
       start_timers_loop [0 ..< length (pr_peers w)]
     }
   }"

section \<open>Starting and stopping\<close>

text \<open>What \<^verbatim>\<open>ngx_healthcheck_runtime_init\<close> reads of nginx: the process type and the core settings.\<close>

record init_env =
  i_single :: bool
  i_worker :: u64
  i_timer_resolution :: u64

definition runtime_fields :: "init_env \<Rightarrow> process \<Rightarrow> process" where
  "runtime_fields env w =
     (let n = of_nat (length (pr_peers w));
          grace = max 1000 (ngx_healthcheck_mul_time (i_timer_resolution env) 2);
          interval = max 100 (i_timer_resolution env)
      in w\<lparr>r_present := True, r_worker := (if i_single env then 0 else i_worker env), r_cursor := 0,
           r_instance := 0, r_grace := grace, r_interval := interval,
           r_preference := max grace (ngx_healthcheck_mul_time
             (n div NGX_HEALTHCHECK_BATCH + (if n mod NGX_HEALTHCHECK_BATCH \<noteq> 0 then 1 else 0)) interval),
           r_budget := 0, r_registered := False, r_timers_started := False, r_stopping := False,
           r_cleaned := False, r_watch_timer := None, r_watch_posted := False\<rparr>)"

definition ngx_healthcheck_runtime_init :: "init_env \<Rightarrow> ngx_rc act" where
  "ngx_healthcheck_runtime_init env = do {
     none \<leftarrow> gets (\<lambda>w. pr_peers w = []);
     if none then ret NGX_OK
     else do {
       ok \<leftarrow> pool_alloc;
       if \<not> ok then ret NGX_ERROR
       else do {
         modify (runtime_fields env);
         time \<leftarrow> read_clock;
         (case time of
            None \<Rightarrow> skip
          | Some now \<Rightarrow> do {
              rc \<leftarrow> ngx_healthcheck_register (ngx_healthcheck_add_time now NGX_HEALTHCHECK_LOCK_NS);
              skip
            });
         ngx_healthcheck_start_timers;
         interval \<leftarrow> gets r_interval;
         arm_watch interval;
         ret NGX_OK
       }
     }
   }"

text \<open>One peer of the loop of \<^verbatim>\<open>ngx_healthcheck_runtime_stop\<close>; without reuse no idle handler runs.\<close>

definition stop_peer :: "nat \<Rightarrow> unit act" where
  "stop_peer i = do {
     upd_local i (\<lambda>lp. lp\<lparr>lp_timer := None, lp_posted := False\<rparr>);
     exists \<leftarrow> gets (\<lambda>w. lp_probe (pr_local w i) \<noteq> None);
     when exists (do {
       cleanup_with skip i False;
       upd_probe i (\<lambda>p. p\<lparr>pb_active := False, pb_pending := False\<rparr>)
     })
   }"

fun stop_peers :: "nat list \<Rightarrow> unit act" where
  "stop_peers [] = skip"
| "stop_peers (i # is) = do { stop_peer i; stop_peers is }"

definition stop_registration :: "unit act" where
  "stop_registration = do {
     me \<leftarrow> gets worker_index;
     rc \<leftarrow> take_lock (WorkerLock me) 0;
     when (rc = NGX_OK) (do {
       w \<leftarrow> gets id;
       (case exit_record (r_instance w) (k_pid w) (shm_worker_state me w) of
          None \<Rightarrow> skip
        | Some state \<Rightarrow> modify (publish_worker me state));
       drop_lock (WorkerLock me)
     })
   }"

definition ngx_healthcheck_runtime_stop :: "unit act" where
  "ngx_healthcheck_runtime_stop = do {
     w \<leftarrow> gets id;
     if \<not> r_present w then skip
     else do {
       modify (r_stopping_update (\<lambda>_. True));
       if r_cleaned w then skip
       else do {
         modify (\<lambda>w. w\<lparr>r_watch_timer := None, r_watch_posted := False\<rparr>);
         stop_peers [0 ..< length (pr_peers w)];
         when (r_registered w) stop_registration;
         modify (r_cleaned_update (\<lambda>_. True))
       }
     }
   }"

text \<open>\<^verbatim>\<open>runtime->stopping || ngx_quit || ngx_exiting || ngx_terminate\<close>.\<close>

definition leaving :: "bool act" where
  "leaving = do {
     stopping \<leftarrow> gets r_stopping;
     if stopping then ret True else quitting
   }"

definition ngx_healthcheck_stopping :: "bool act" where
  "ngx_healthcheck_stopping = do {
     gone \<leftarrow> leaving;
     if gone then do { ngx_healthcheck_runtime_stop; ret True } else ret False
   }"

section \<open>The double lock\<close>

datatype locked = Locked peer_state | Refused ngx_rc

definition probe_token :: "nat \<Rightarrow> process \<Rightarrow> token" where
  "probe_token i w = (let p = probe_of i w in
     \<lparr>tk_worker = r_worker w, tk_instance = pb_instance p, tk_pid = k_pid w,
      tk_term = pb_term p, tk_round = pb_round p\<rparr>)"

definition owned_limit :: "u64 \<Rightarrow> u64 option act" where
  "owned_limit limit = do {
     budget \<leftarrow> gets r_budget;
     let limit = (if limit = 0 \<and> budget \<noteq> 0 then budget else limit);
     if limit = 0 then do {
       time \<leftarrow> read_clock;
       ret (map_option (\<lambda>now. ngx_healthcheck_add_time now NGX_HEALTHCHECK_LOCK_NS) time)
     }
     else ret (Some limit)
   }"

definition ngx_healthcheck_owned_lock :: "nat \<Rightarrow> u64 \<Rightarrow> locked act" where
  "ngx_healthcheck_owned_lock i limit = do {
     gone \<leftarrow> leaving;
     w \<leftarrow> gets id;
     if gone \<or> pb_generation (probe_of i w) \<noteq> pr_generation w then ret (Refused NGX_DECLINED)
     else do {
       limit \<leftarrow> owned_limit limit;
       (case limit of
          None \<Rightarrow> ret (Refused NGX_AGAIN)
        | Some limit \<Rightarrow> do {
            rc \<leftarrow> take_lock (WorkerLock (worker_index w)) limit;
            if rc \<noteq> NGX_OK then ret (Refused NGX_AGAIN)
            else do {
              valid \<leftarrow> gets (\<lambda>w'. registration_valid (pb_instance (probe_of i w')) (k_pid w')
                                (shm_worker_state (worker_index w) w'));
              if \<not> valid then do { drop_lock (WorkerLock (worker_index w)); ret (Refused NGX_DECLINED) }
              else do {
                rc \<leftarrow> take_lock (PeerLock i) limit;
                if rc \<noteq> NGX_OK then do { drop_lock (WorkerLock (worker_index w)); ret (Refused NGX_AGAIN) }
                else do {
                  state \<leftarrow> gets (shm_peer_state i);
                  t \<leftarrow> gets (probe_token i);
                  if \<not> owned_by t state
                  then do {
                    drop_lock (PeerLock i);
                    drop_lock (WorkerLock (worker_index w));
                    ret (Refused NGX_DECLINED)
                  }
                  else ret (Locked state)
                }
              }
            }
          })
     }
   }"

definition ngx_healthcheck_owned_unlock :: "nat \<Rightarrow> unit act" where
  "ngx_healthcheck_owned_unlock i = do {
     drop_lock (PeerLock i);
     me \<leftarrow> gets worker_index;
     drop_lock (WorkerLock me)
   }"

definition ngx_healthcheck_probe_valid :: "nat \<Rightarrow> ngx_rc act" where
  "ngx_healthcheck_probe_valid i = do {
     r \<leftarrow> ngx_healthcheck_owned_lock i 0;
     (case r of
        Refused rc \<Rightarrow> ret rc
      | Locked state \<Rightarrow> do { ngx_healthcheck_owned_unlock i; ret NGX_OK })
   }"

definition ngx_healthcheck_probe_waiting :: "nat \<Rightarrow> ngx_rc act" where
  "ngx_healthcheck_probe_waiting i = do {
     p \<leftarrow> gets (probe_of i);
     if pb_waiting p then ret NGX_OK
     else do {
       r \<leftarrow> ngx_healthcheck_owned_lock i 0;
       (case r of
          Refused rc \<Rightarrow> ret rc
        | Locked state \<Rightarrow> do {
            when (ps_phase state = PREPARING)
              (modify (publish_peer i (waiting_record (pb_deadline p) state)));
            upd_probe i (pb_waiting_update (\<lambda>_. True));
            ngx_healthcheck_owned_unlock i;
            ret NGX_OK
          })
     }
   }"

section \<open>Submitting a result\<close>

text \<open>The log messages at the end are left out.\<close>

definition ngx_healthcheck_submit :: "nat \<Rightarrow> u64 \<Rightarrow> ngx_rc act" where
  "ngx_healthcheck_submit i limit = do {
     r \<leftarrow> ngx_healthcheck_owned_lock i limit;
     (case r of
        Refused rc \<Rightarrow> ret rc
      | Locked state \<Rightarrow> do {
          gone \<leftarrow> (if ps_phase state \<noteq> PREPARING \<and> ps_phase state \<noteq> INFLIGHT then ret True else quitting);
          if gone then do { ngx_healthcheck_owned_unlock i; ret NGX_DECLINED }
          else do {
            time \<leftarrow> read_clock;
            (case time of
               None \<Rightarrow> do { ngx_healthcheck_owned_unlock i; ret NGX_AGAIN }
             | Some now \<Rightarrow> do {
                 w \<leftarrow> gets id;
                 let p = probe_of i w;
                 let state' = submit_record (conf_of i w) (pb_result p)
                   (if pb_sample p then Some (pb_delay p) else None) now state;
                 modify (publish_peer i state');
                 ngx_healthcheck_owned_unlock i;
                 upd_probe i (pb_pending_update (\<lambda>_. False));
                 when (h_access_time (ps_health state') \<ge> submit_next (conf_of i w) state) (arm_check i 0);
                 ret NGX_OK
               })
          }
        })
   }"

end
