(* ===== verification/Probe.thy ===== *)
theory Probe
  imports Runtime
begin

text \<open>
  The protocol handlers (\<^verbatim>\<open>protocol/*.c\<close>) with \<^verbatim>\<open>ngx_healthcheck_finish\<close>: idle monitoring of a kept
  connection, the common entry test of every I/O event, the TCP and UDP events, the timeout, starting
  and resuming a probe.  Every handler acts on the probe of peer \<open>i\<close>; an event function whose C
  argument is one of the two events of the connection is given the same index.

  The retry loops end with their counter (8 attempts); the idle loop consumes one entry of the \<open>recv\<close>
  tape per turn and so ends with the tape.
\<close>

section \<open>Idle monitoring\<close>

abbreviation (input) NGX_HEALTHCHECK_IDLE_DISCARD_MAX :: u64 where
  "NGX_HEALTHCHECK_IDLE_DISCARD_MAX \<equiv> 4096"

text \<open>
  The loop: \<open>True\<close> where the function returns and keeps the connection, \<open>False\<close> where it breaks out
  and closes it.  The entries of the tape are consumed one by one.
\<close>

definition idle_keep :: "nat \<Rightarrow> bool act" where
  "idle_keep i = do {
     upd_conn i (\<lambda>c. c\<lparr>cn_read := (cn_read c)\<lparr>ev_ready := False\<rparr>\<rparr>);
     ok \<leftarrow> event_call;
     ret ok
   }"

fun idle_loop :: "nat \<Rightarrow> (int \<times> errno) list \<Rightarrow> process \<Rightarrow> bool \<times> process" where
  "idle_loop i [] w = run_state (idle_keep i) (w\<lparr>pr_recv := []\<rparr>)"
| "idle_loop i ((n, e) # tape) w =
     (if n > 0 then
        (let w1 = snd (run_state (upd_probe i (\<lambda>p. p\<lparr>pb_discarded := pb_discarded p + word_of_int n\<rparr>))
                    (w\<lparr>pr_recv := tape\<rparr>))
         in if pb_discarded (probe_of i w1) > NGX_HEALTHCHECK_IDLE_DISCARD_MAX then (False, w1)
            else idle_loop i tape w1)
      else if n = - 1 \<and> e = EINTR then idle_loop i tape (w\<lparr>pr_recv := tape\<rparr>)
      else if n = - 1 \<and> e = EAGAIN then run_state (idle_keep i) (w\<lparr>pr_recv := tape\<rparr>)
      else (False, w\<lparr>pr_recv := tape\<rparr>))"

text \<open>Tests \<^verbatim>\<open>connection->close || event->timedout || probe_valid == NGX_DECLINED\<close> in order.\<close>

definition idle_invalid :: "nat \<Rightarrow> conn \<Rightarrow> bool act" where
  "idle_invalid i c =
     (if cn_close c \<or> ev_timedout (cn_read c) then ret True
      else do { rc \<leftarrow> ngx_healthcheck_probe_valid i; ret (rc = NGX_DECLINED) })"

definition ngx_healthcheck_tcp_idle :: "nat \<Rightarrow> unit act" where
  "ngx_healthcheck_tcp_idle i = do {
     connection \<leftarrow> get_conn i;
     (case connection of
        None \<Rightarrow> skip
      | Some c \<Rightarrow> do {
          gone \<leftarrow> do { q \<leftarrow> quitting; if q then ret True else gets r_stopping };
          if gone then ngx_healthcheck_runtime_stop
          else do {
            invalid \<leftarrow> idle_invalid i c;
            if invalid then ngx_healthcheck_probe_close i
            else do {
              tape \<leftarrow> gets pr_recv;
              keep \<leftarrow> State (idle_loop i tape);
              if keep then skip else ngx_healthcheck_probe_close i
            }
          }
        })
   }"

definition ngx_healthcheck_probe_cleanup :: "nat \<Rightarrow> bool \<Rightarrow> unit act" where
  "ngx_healthcheck_probe_cleanup i reusable = cleanup_with (ngx_healthcheck_tcp_idle i) i reusable"

section \<open>Finishing a round\<close>

definition finish_sample :: "nat \<Rightarrow> bool \<Rightarrow> unit act" where
  "finish_sample i result = do {
     w \<leftarrow> gets id;
     let fresh = (case pb_conn (probe_of i w) of None \<Rightarrow> False | Some c \<Rightarrow> cn_requests c = 0);
     let sample = (result \<and> peer_check_type (peer_of i w) = NGX_CHECK_TYPE_TCP \<and> fresh);
     upd_probe i (pb_sample_update (\<lambda>_. sample));
     when sample (do {
       time \<leftarrow> read_clock;
       (case time of
          None \<Rightarrow> upd_probe i (pb_sample_update (\<lambda>_. False))
        | Some now \<Rightarrow> upd_probe i (\<lambda>p. p\<lparr>pb_delay := min (now div 1000000 - pb_started p) UINT64_MAX\<rparr>))
     })
   }"

definition ngx_healthcheck_finish :: "nat \<Rightarrow> bool \<Rightarrow> string \<Rightarrow> string \<Rightarrow> errno \<Rightarrow> unit act" where
  "ngx_healthcheck_finish i result reason source error = do {
     p \<leftarrow> gets (probe_of i);
     if \<not> pb_active p \<or> pb_pending p then skip
     else do {
       upd_probe i (\<lambda>p. p\<lparr>pb_active := False, pb_pending := True, pb_result := result,
         pb_reason := reason, pb_source := source, pb_error := error\<rparr>);
       finish_sample i result;
       rc \<leftarrow> ngx_healthcheck_submit i 0;
       when (rc = NGX_DECLINED) (upd_probe i (pb_pending_update (\<lambda>_. False)));
       when result (upd_conn i (\<lambda>c. c\<lparr>cn_requests := cn_requests c + 1\<rparr>));
       ngx_healthcheck_probe_cleanup i (rc = NGX_OK \<and> result)
     }
   }"

section \<open>Timeout and the entry of an I/O event\<close>

definition ngx_healthcheck_timeout :: "nat \<Rightarrow> unit act" where
  "ngx_healthcheck_timeout i = do {
     p \<leftarrow> gets (probe_of i);
     if \<not> pb_active p \<or> pb_pending p then skip
     else do {
       gone \<leftarrow> do { q \<leftarrow> quitting; if q then ret True else gets r_stopping };
       if gone then ngx_healthcheck_runtime_stop
       else do {
         rc \<leftarrow> ngx_healthcheck_probe_valid i;
         if rc = NGX_DECLINED
         then do {
           upd_probe i (pb_active_update (\<lambda>_. False));
           ngx_healthcheck_probe_cleanup i False
         }
         else do {
           time \<leftarrow> read_clock;
           (case time of
              None \<Rightarrow> arm_timeout i 1
            | Some now \<Rightarrow> do {
                deadline \<leftarrow> gets (\<lambda>w. pb_deadline (probe_of i w));
                if now div 1000000 < deadline then arm_timeout i (deadline - now div 1000000)
                else do {
                  udp \<leftarrow> gets (is_udp i);
                  if udp
                  then ngx_healthcheck_finish i True ''deadline without confirmed failure'' ''timer'' ENONE
                  else ngx_healthcheck_finish i False ''tcp timeout'' ''timer'' ENONE
                }
              })
         }
       }
     }
   }"

text \<open>\<open>True\<close> is a non-NULL result.\<close>

definition ngx_healthcheck_io_ready :: "nat \<Rightarrow> bool act" where
  "ngx_healthcheck_io_ready i = do {
     p \<leftarrow> gets (probe_of i);
     if pb_conn p = None \<or> \<not> pb_active p \<or> pb_pending p then ret False
     else do {
       gone \<leftarrow> do { q \<leftarrow> quitting; if q then ret True else gets r_stopping };
       if gone then do { ngx_healthcheck_runtime_stop; ret False }
       else do {
         rc \<leftarrow> ngx_healthcheck_probe_valid i;
         if rc = NGX_DECLINED
         then do {
           ngx_healthcheck_probe_cleanup i False;
           upd_probe i (pb_active_update (\<lambda>_. False));
           ret False
         }
         else if rc \<noteq> NGX_OK then ret False
         else do {
           time \<leftarrow> read_clock;
           (case time of
              None \<Rightarrow> ret False
            | Some now \<Rightarrow> do {
                deadline \<leftarrow> gets (\<lambda>w. pb_deadline (probe_of i w));
                if now div 1000000 \<ge> deadline then do { ngx_healthcheck_timeout i; ret False }
                else ret True
              })
         }
       }
     }
   }"

section \<open>TCP\<close>

text \<open>The four calls stop at the first failure; \<open>tunable\<close> is \<^verbatim>\<open>NGX_HAVE_KEEPALIVE_TUNABLE\<close>.\<close>

fun setsockopts :: "nat \<Rightarrow> bool act" where
  "setsockopts 0 = ret True"
| "setsockopts (Suc n) = do { ok \<leftarrow> sys_setsockopt; if \<not> ok then ret False else setsockopts n }"

definition ngx_healthcheck_tcp_keepalive :: "bool \<Rightarrow> bool act" where
  "ngx_healthcheck_tcp_keepalive tunable = (if tunable then setsockopts 4 else ret False)"

definition ngx_healthcheck_tcp_peek :: "nat \<Rightarrow> bool act" where
  "ngx_healthcheck_tcp_peek i = do {
     (n, e) \<leftarrow> sys_recv;
     let error = (if n = - 1 then e else ENONE);
     if n = 1 \<or> (n = - 1 \<and> error = EAGAIN) then ret True
     else do {
       upd_probe i (pb_error_update (\<lambda>_. error));
       ret False
     }
   }"

definition ngx_healthcheck_tcp_event :: "nat \<Rightarrow> unit act" where
  "ngx_healthcheck_tcp_event i = do {
     ready \<leftarrow> ngx_healthcheck_io_ready i;
     if \<not> ready then skip
     else do {
       ok \<leftarrow> ngx_healthcheck_tcp_peek i;
       error \<leftarrow> gets (\<lambda>w. pb_error (probe_of i w));
       ngx_healthcheck_finish i ok (if ok then ''tcp peek success'' else ''tcp closed or error'')
         ''recv'' (if ok then ENONE else error)
     }
   }"

section \<open>UDP\<close>

text \<open>\<open>True\<close> is \<^verbatim>\<open>NGX_AGAIN\<close>: the round goes on.\<close>

definition ngx_healthcheck_udp_error :: "nat \<Rightarrow> string \<Rightarrow> errno \<Rightarrow> bool act" where
  "ngx_healthcheck_udp_error i source error = do {
     time \<leftarrow> read_clock;
     (case time of
        None \<Rightarrow> do { ngx_healthcheck_finish i True ''monotonic clock unavailable'' ''clock'' ENONE; ret False }
      | Some now \<Rightarrow> do {
          p \<leftarrow> gets (probe_of i);
          if now div 1000000 \<ge> pb_deadline p
          then do { ngx_healthcheck_finish i True ''deadline without confirmed failure'' ''timer'' ENONE; ret False }
          else if pb_attempted p \<and> error = ECONNREFUSED
          then do { ngx_healthcheck_finish i False ''connection refused'' source error; ret False }
          else if error = ENOMEM \<or> error = ENOBUFS \<or> error = EMFILE \<or> error = ENFILE
          then do { ngx_healthcheck_finish i True ''local resource error'' source error; ret False }
          else do {
            upd_probe i (\<lambda>p. p\<lparr>pb_error := error, pb_source := source,
              pb_reason := ''unconfirmed socket error''\<rparr>);
            ret True
          }
        })
   }"

definition ngx_healthcheck_udp_wait_reply :: "nat \<Rightarrow> unit act" where
  "ngx_healthcheck_udp_wait_reply i = do {
     upd_probe i (\<lambda>p. p\<lparr>pb_sending := False,
       pb_stage := (if pb_sent p then ''wait reply'' else ''wait after send error'')\<rparr>);
     w \<leftarrow> gets id;
     let remove = (pr_level w \<and> (case pb_conn (probe_of i w) of None \<Rightarrow> False | Some c \<Rightarrow> ev_active (cn_write c)));
     removed \<leftarrow> (if remove then event_call else ret True);
     if \<not> removed then ngx_healthcheck_finish i True ''event removal failed'' ''event'' ENONE
     else do {
       when remove (upd_conn i (\<lambda>c. c\<lparr>cn_write := (cn_write c)\<lparr>ev_active := False\<rparr>\<rparr>));
       registered \<leftarrow> event_call;
       when (\<not> registered) (ngx_healthcheck_finish i True ''read event registration failed'' ''event'' ENONE)
     }
   }"

text \<open>Posting an event to \<^verbatim>\<open>ngx_posted_next_events\<close>.\<close>

definition post_write :: "nat \<Rightarrow> unit act" where
  "post_write i = upd_conn i (\<lambda>c. c\<lparr>cn_write := (cn_write c)\<lparr>ev_posted := True\<rparr>\<rparr>)"

definition post_read :: "nat \<Rightarrow> unit act" where
  "post_read i = upd_conn i (\<lambda>c. c\<lparr>cn_read := (cn_read c)\<lparr>ev_posted := True\<rparr>\<rparr>)"

text \<open>After the send loop without an answer: write interest for \<^verbatim>\<open>EAGAIN\<close>.\<close>

definition udp_write_again :: "nat \<Rightarrow> unit act" where
  "udp_write_again i = do {
     upd_conn i (\<lambda>c. c\<lparr>cn_write := (cn_write c)\<lparr>ev_ready := False\<rparr>\<rparr>);
     registered \<leftarrow> event_call;
     if \<not> registered
     then ngx_healthcheck_finish i True ''write event registration failed'' ''event'' ENONE
     else upd_conn i (\<lambda>c. c\<lparr>cn_write := (cn_write c)\<lparr>ev_active := True\<rparr>\<rparr>)
   }"

text \<open>The send loop with the attempts that are left.\<close>

fun udp_write_loop :: "nat \<Rightarrow> nat \<Rightarrow> unit act" where
  "udp_write_loop i 0 = post_write i"
| "udp_write_loop i (Suc k) = do {
     upd_probe i (pb_attempted_update (\<lambda>_. True));
     payload \<leftarrow> gets (\<lambda>w. c_send (conf_of i w));
     (n, e) \<leftarrow> sys_send;
     let error = (if n = - 1 then e else ENONE);
     if n = int (length payload) then do {
       upd_probe i (pb_sent_update (\<lambda>_. True));
       ngx_healthcheck_udp_wait_reply i
     }
     else if n \<ge> 0 then ngx_healthcheck_finish i True ''incomplete datagram send'' ''send'' ENONE
     else if error = EINTR then do {
       ready \<leftarrow> ngx_healthcheck_io_ready i;
       if \<not> ready then skip else udp_write_loop i k
     }
     else if error \<noteq> EAGAIN then do {
       again \<leftarrow> ngx_healthcheck_udp_error i ''send'' error;
       when again (ngx_healthcheck_udp_wait_reply i)
     }
     else udp_write_again i
   }"

definition ngx_healthcheck_udp_write :: "nat \<Rightarrow> unit act" where
  "ngx_healthcheck_udp_write i = do {
     ready \<leftarrow> ngx_healthcheck_io_ready i;
     p \<leftarrow> gets (probe_of i);
     if \<not> ready \<or> \<not> pb_sending p then skip else udp_write_loop i 8
   }"

text \<open>
  The query of SO_ERROR: \<open>Some error\<close> where the loop is left with an answer, \<open>None\<close> where the
  function returns, after 8 interrupted attempts with the read event posted.
\<close>

fun udp_query_loop :: "nat \<Rightarrow> nat \<Rightarrow> errno option act" where
  "udp_query_loop i 0 = do { post_read i; ret None }"
| "udp_query_loop i (Suc k) = do {
     (rc, socket_error, e) \<leftarrow> getsockopt_error;
     if rc = 0 then ret (Some socket_error)
     else if e \<noteq> EINTR then do {
       ngx_healthcheck_finish i True ''socket error query failed'' ''getsockopt'' e;
       ret None
     }
     else do {
       ready \<leftarrow> ngx_healthcheck_io_ready i;
       if \<not> ready then ret None else udp_query_loop i k
     }
   }"

definition udp_read_again :: "nat \<Rightarrow> unit act" where
  "udp_read_again i = do {
     upd_conn i (\<lambda>c. c\<lparr>cn_read := (cn_read c)\<lparr>ev_ready := False\<rparr>\<rparr>);
     registered \<leftarrow> event_call;
     when (\<not> registered) (ngx_healthcheck_finish i True ''read event registration failed'' ''event'' ENONE)
   }"

fun udp_recv_loop :: "nat \<Rightarrow> nat \<Rightarrow> unit act" where
  "udp_recv_loop i 0 = post_read i"
| "udp_recv_loop i (Suc k) = do {
     (n, e) \<leftarrow> sys_recv;
     let error = (if n = - 1 then e else ENONE);
     if n \<ge> 0
     then ngx_healthcheck_finish i True (if n = 0 then ''empty UDP reply'' else ''UDP reply'') ''recv'' ENONE
     else if error = EINTR then do {
       ready \<leftarrow> ngx_healthcheck_io_ready i;
       if \<not> ready then skip else udp_recv_loop i k
     }
     else if error \<noteq> EAGAIN then do {
       again \<leftarrow> ngx_healthcheck_udp_error i ''recv'' error;
       if \<not> again then skip else udp_read_again i
     }
     else udp_read_again i
   }"

definition ngx_healthcheck_udp_read :: "nat \<Rightarrow> unit act" where
  "ngx_healthcheck_udp_read i = do {
     ready \<leftarrow> ngx_healthcheck_io_ready i;
     if \<not> ready then skip
     else do {
       answer \<leftarrow> udp_query_loop i 8;
       (case answer of
          None \<Rightarrow> skip
        | Some socket_error \<Rightarrow> do {
            again \<leftarrow> (if socket_error \<noteq> ENONE then ngx_healthcheck_udp_error i ''SO_ERROR'' socket_error
                      else ret True);
            if \<not> again then skip else udp_recv_loop i 8
          })
     }
   }"

section \<open>Starting and resuming a probe\<close>

text \<open>The handler that an event of the connection carries.\<close>

definition run_handler :: "handler \<Rightarrow> nat \<Rightarrow> unit act" where
  "run_handler h i = (case h of
       TcpEvent \<Rightarrow> ngx_healthcheck_tcp_event i
     | TcpIdle \<Rightarrow> ngx_healthcheck_tcp_idle i
     | UdpWrite \<Rightarrow> ngx_healthcheck_udp_write i
     | UdpRead \<Rightarrow> ngx_healthcheck_udp_read i
     | IdleWrite \<Rightarrow> skip
     | NoHandler \<Rightarrow> skip)"

text \<open>
  A kept connection is taken up again if it is young enough and a peek finds it alive: \<open>True\<close> for the
  jump to \<^verbatim>\<open>connected\<close> with \<open>rc = NGX_OK\<close>.  Otherwise it is closed.
\<close>

definition start_reuse :: "nat \<Rightarrow> bool act" where
  "start_reuse i = do {
     w \<leftarrow> gets id;
     (case pb_conn (probe_of i w) of
        None \<Rightarrow> ret False
      | Some c \<Rightarrow>
          if c_rehandshake (conf_of i w) \<noteq> 0 \<and> pr_msec w - cn_start c \<ge> c_rehandshake (conf_of i w)
          then do { ngx_healthcheck_probe_close i; ret False }
          else do {
            ok \<leftarrow> ngx_healthcheck_tcp_peek i;
            if ok then do {
              upd_conn i (\<lambda>c. c\<lparr>cn_idle := False, cn_close := False, cn_reusable := False\<rparr>);
              ret True
            }
            else do { ngx_healthcheck_probe_close i; ret False }
          })
   }"

text \<open>A new connection: \<open>Some rc\<close> goes on to \<^verbatim>\<open>connected\<close>, \<open>None\<close> has finished the round.\<close>

definition start_connect :: "bool \<Rightarrow> nat \<Rightarrow> ngx_rc option act" where
  "start_connect tunable i = do {
     udp \<leftarrow> gets (is_udp i);
     (rc, connection) \<leftarrow> connect_peer;
     upd_probe i (\<lambda>p. p\<lparr>pb_conn := connection\<rparr>);
     if rc = NGX_ERROR \<or> rc = NGX_DECLINED \<or> connection = None
     then do {
       ngx_healthcheck_finish i udp ''socket preparation failed'' ''ngx_event_connect_peer'' ENONE;
       ret None
     }
     else do {
       msec \<leftarrow> gets pr_msec;
       upd_conn i (\<lambda>c. c\<lparr>cn_start := msec\<rparr>);
       upd_probe i (\<lambda>p. p\<lparr>pb_discarded := 0\<rparr>);
       keepalive \<leftarrow> gets (\<lambda>w. c_keepalive (conf_of i w));
       ok \<leftarrow> (if \<not> udp \<and> keepalive then ngx_healthcheck_tcp_keepalive tunable else ret True);
       if \<not> ok then do {
         ngx_healthcheck_probe_close i;
         ngx_healthcheck_finish i False ''keepalive socket option failed'' ''setsockopt'' ENONE;
         ret None
       }
       else ret (Some rc)
     }
   }"

definition start_connected :: "nat \<Rightarrow> ngx_rc \<Rightarrow> unit act" where
  "start_connected i rc = do {
     udp \<leftarrow> gets (is_udp i);
     upd_conn i (\<lambda>c. c\<lparr>cn_write := (cn_write c)\<lparr>ev_handler := (if udp then UdpWrite else TcpEvent)\<rparr>,
                       cn_read := (cn_read c)\<lparr>ev_handler := (if udp then UdpRead else TcpEvent)\<rparr>\<rparr>);
     upd_probe i (\<lambda>p. p\<lparr>pb_prepared := True\<rparr>);
     time \<leftarrow> read_clock;
     (case time of
        None \<Rightarrow> ngx_healthcheck_finish i udp ''monotonic clock unavailable'' ''clock'' ENONE
      | Some now \<Rightarrow> do {
          timeout \<leftarrow> gets (\<lambda>w. c_check_timeout (conf_of i w));
          when (\<not> udp) (upd_probe i (\<lambda>p. p\<lparr>pb_deadline := ngx_healthcheck_add_time (now div 1000000) timeout\<rparr>));
          upd_probe i (\<lambda>p. p\<lparr>pb_stage := (if udp then ''send'' else ''tcp check'')\<rparr>);
          waited \<leftarrow> ngx_healthcheck_probe_waiting i;
          deadline \<leftarrow> gets (\<lambda>w. pb_deadline (probe_of i w));
          arm_timeout i (if now div 1000000 < deadline then deadline - now div 1000000 else 0);
          when (rc = NGX_OK) (run_handler (if udp then UdpWrite else TcpEvent) i)
        })
   }"

definition ngx_healthcheck_probe_start :: "bool \<Rightarrow> nat \<Rightarrow> unit act" where
  "ngx_healthcheck_probe_start tunable i = do {
     rc \<leftarrow> ngx_healthcheck_probe_valid i;
     if rc = NGX_DECLINED
     then do { upd_probe i (pb_active_update (\<lambda>_. False)); ngx_healthcheck_probe_cleanup i False }
     else if rc \<noteq> NGX_OK then skip
     else do {
       time \<leftarrow> read_clock;
       (case time of
          None \<Rightarrow> skip
        | Some now \<Rightarrow> do {
            deadline \<leftarrow> gets (\<lambda>w. pb_deadline (probe_of i w));
            if now div 1000000 \<ge> deadline then ngx_healthcheck_timeout i
            else do {
              reused \<leftarrow> start_reuse i;
              if reused then start_connected i NGX_OK
              else do {
                r \<leftarrow> start_connect tunable i;
                (case r of None \<Rightarrow> skip | Some rc \<Rightarrow> start_connected i rc)
              }
            }
          })
     }
   }"

definition ngx_healthcheck_probe_resume :: "bool \<Rightarrow> nat \<Rightarrow> unit act" where
  "ngx_healthcheck_probe_resume tunable i = do {
     p \<leftarrow> gets (probe_of i);
     if \<not> pb_active p then skip
     else if \<not> pb_prepared p then ngx_healthcheck_probe_start tunable i
     else do {
       waited \<leftarrow> ngx_healthcheck_probe_waiting i;
       time \<leftarrow> read_clock;
       deadline \<leftarrow> gets (\<lambda>w. pb_deadline (probe_of i w));
       if (case time of None \<Rightarrow> False | Some now \<Rightarrow> now div 1000000 \<ge> deadline)
       then ngx_healthcheck_timeout i
       else do {
         connection \<leftarrow> get_conn i;
         (case connection of
            None \<Rightarrow> skip
          | Some c \<Rightarrow> when (ev_ready (cn_read c)) (run_handler (ev_handler (cn_read c)) i));
         p \<leftarrow> gets (probe_of i);
         (case pb_conn p of
            None \<Rightarrow> skip
          | Some c \<Rightarrow> when (pb_active p \<and> ev_ready (cn_write c)) (run_handler (ev_handler (cn_write c)) i))
       }
     }
   }"

end
