(* ===== verification/Schedule.thy ===== *)
theory Schedule
  imports Probe
begin

text \<open>
  The scheduler (second half of \<^verbatim>\<open>runtime/ngx_healthcheck_schedule.c\<close>): claiming a round, the check
  timer of a peer, the choice of the worker that takes over an abandoned peer, and the watch timer
  that retries, resumes, retires and takes over.
\<close>

section \<open>Claiming\<close>

definition claimant_of :: "process \<Rightarrow> claimant" where
  "claimant_of w = \<lparr>cl_worker = r_worker w, cl_instance = r_instance w, cl_pid = k_pid w, cl_grace = r_grace w\<rparr>"

text \<open>The critical section with both locks; the result carries the wait and the claimed record.\<close>

definition claim_locked :: "nat \<Rightarrow> peer_state option \<Rightarrow> u64 \<Rightarrow> u64 \<Rightarrow> (ngx_rc \<times> u64 \<times> peer_state) act" where
  "claim_locked i takeover ms limit = do {
     me \<leftarrow> gets worker_index;
     rc \<leftarrow> take_lock (WorkerLock me) limit;
     if rc \<noteq> NGX_OK then ret (NGX_AGAIN, 0, zero_peer_state)
     else do {
       valid \<leftarrow> gets (\<lambda>w. registration_valid (r_instance w) (k_pid w) (shm_worker_state me w));
       if \<not> valid then do { drop_lock (WorkerLock me); ret (NGX_DECLINED, 0, zero_peer_state) }
       else do {
         rc \<leftarrow> take_lock (PeerLock i) limit;
         if rc \<noteq> NGX_OK then do { drop_lock (WorkerLock me); ret (NGX_AGAIN, 0, zero_peer_state) }
         else do {
           w \<leftarrow> gets id;
           let (rc, wait, state) = claim_record (claimant_of w) (conf_of i w) (shm_activated_at (k_shm w)) ms
                                     takeover (shm_peer_state i w);
           when (rc = NGX_OK) (modify (publish_peer i state));
           drop_lock (PeerLock i);
           drop_lock (WorkerLock me);
           ret (rc, wait, state)
         }
       }
     }
   }"

text \<open>The local part of a successful claim, before the probe is started.\<close>

definition claim_adopt :: "nat \<Rightarrow> u64 \<Rightarrow> peer_state \<Rightarrow> unit act" where
  "claim_adopt i ms state = do {
     upd_conn i (\<lambda>c. c\<lparr>cn_read := (cn_read c)\<lparr>ev_posted := False\<rparr>, cn_write := (cn_write c)\<lparr>ev_posted := False\<rparr>\<rparr>);
     generation \<leftarrow> gets pr_generation;
     upd_probe i (\<lambda>p. p\<lparr>pb_instance := ps_instance state, pb_term := ps_term state, pb_round := ps_round state,
       pb_generation := generation, pb_started := ms, pb_deadline := ps_deadline state, pb_active := True,
       pb_attempted := False, pb_sent := False, pb_sending := True, pb_prepared := False, pb_sample := False,
       pb_waiting := False, pb_stage := ''prepare'', pb_reason := ''pending'', pb_source := ''none'',
       pb_error := ENONE\<rparr>);
     conf \<leftarrow> gets (conf_of i);
     arm_timeout i (c_check_timeout conf);
     arm_check i (c_check_interval conf)
   }"

text \<open>The allocation of the probe slot at the first claim: \<open>False\<close> if it fails.\<close>

definition claim_slot :: "nat \<Rightarrow> bool act" where
  "claim_slot i = do {
     exists \<leftarrow> gets (\<lambda>w. lp_probe (pr_local w i) \<noteq> None);
     if exists then ret True
     else do {
       ok \<leftarrow> pool_alloc;
       when ok (upd_local i (lp_probe_update (\<lambda>_. Some zero_probe)));
       ret ok
     }
   }"

text \<open>The result carries the wait in ms; \<open>takeover\<close> is the observed record of a takeover.\<close>

definition ngx_healthcheck_claim :: "bool \<Rightarrow> nat \<Rightarrow> peer_state option \<Rightarrow> u64 \<Rightarrow> (ngx_rc \<times> u64) act" where
  "ngx_healthcheck_claim tunable i takeover limit = do {
     registered \<leftarrow> gets r_registered;
     stop \<leftarrow> (if \<not> registered then ret True else ngx_healthcheck_stopping);
     if stop then ret (NGX_DECLINED, 0)
     else do {
       ok \<leftarrow> claim_slot i;
       p \<leftarrow> gets (probe_of i);
       if \<not> ok then ret (NGX_ERROR, 0)
       else if pb_active p \<or> pb_pending p then ret (NGX_AGAIN, 0)
       else do {
         time \<leftarrow> read_clock;
         (case time of
            None \<Rightarrow> ret (NGX_AGAIN, 0)
          | Some now \<Rightarrow> do {
              let ms = now div 1000000;
              (rc, wait, state) \<leftarrow> claim_locked i takeover ms
                (if limit = 0 then ngx_healthcheck_add_time now NGX_HEALTHCHECK_LOCK_NS else limit);
              if rc \<noteq> NGX_OK then ret (rc, wait)
              else do {
                claim_adopt i ms state;
                ngx_healthcheck_probe_start tunable i;
                ret (NGX_OK, wait)
              }
            })
       }
     }
   }"

section \<open>The check timer\<close>

abbreviation (input) NGX_HEALTHCHECK_CLAIM_RETRY_MS :: u64 where "NGX_HEALTHCHECK_CLAIM_RETRY_MS \<equiv> 10"
abbreviation (input) NGX_HEALTHCHECK_BUSY_RETRY_MS :: u64 where "NGX_HEALTHCHECK_BUSY_RETRY_MS \<equiv> 100"

definition begin_dispatch :: "nat \<Rightarrow> ngx_rc \<Rightarrow> u64 \<Rightarrow> unit act" where
  "begin_dispatch i rc wait =
     (if rc = NGX_OK then skip
      else if rc = NGX_DECLINED then do {
        disarm_check i;
        exists \<leftarrow> gets (\<lambda>w. lp_probe (pr_local w i) \<noteq> None);
        when exists (ngx_healthcheck_probe_cleanup i False)
      }
      else if rc = NGX_AGAIN then arm_check i (if wait \<noteq> 0 then wait else NGX_HEALTHCHECK_CLAIM_RETRY_MS)
      else do {
        interval \<leftarrow> gets (\<lambda>w. c_check_interval (conf_of i w));
        arm_check i interval
      })"

definition ngx_healthcheck_begin :: "bool \<Rightarrow> nat \<Rightarrow> unit act" where
  "ngx_healthcheck_begin tunable i = do {
     stop \<leftarrow> ngx_healthcheck_stopping;
     if stop then skip
     else do {
       busy \<leftarrow> gets (\<lambda>w. case lp_probe (pr_local w i) of None \<Rightarrow> False | Some p \<Rightarrow> pb_active p \<or> pb_pending p);
       if busy then arm_check i NGX_HEALTHCHECK_BUSY_RETRY_MS
       else do {
         (rc, wait) \<leftarrow> ngx_healthcheck_claim tunable i None 0;
         begin_dispatch i rc wait
       }
     }
   }"

section \<open>The preferred worker\<close>

text \<open>The 17 key bytes: the module and two 64-bit numbers, most significant byte first.\<close>

definition big_endian :: "u64 \<Rightarrow> bytes" where
  "big_endian v = map (\<lambda>k. char_of (unat (drop_bit (8 * (7 - k)) v))) [0 ..< 8]"

definition ngx_healthcheck_score :: "(bytes \<Rightarrow> u32) \<Rightarrow> u64 \<Rightarrow> u64 \<Rightarrow> u64 \<Rightarrow> u32" where
  "ngx_healthcheck_score murmur module index worker =
     murmur (char_of (unat module) # big_endian index @ big_endian worker)"

text \<open>Whether worker \<open>j\<close> may take the peer over.\<close>

definition candidate_ok :: "nat \<Rightarrow> peer_state \<Rightarrow> u64 \<Rightarrow> u64 \<Rightarrow> worker_state \<Rightarrow> bool" where
  "candidate_ok j state ms grace candidate \<longleftrightarrow>
     \<not> (ws_instance candidate = 0 \<or> ws_exiting candidate \<noteq> 0
        \<or> (of_nat j = ps_worker state \<and> ws_instance candidate = ps_instance state)
        \<or> ms < ws_heartbeat candidate \<or> ms - ws_heartbeat candidate \<ge> grace)"

text \<open>The loop; \<open>best\<close> starts as \<^verbatim>\<open>(ngx_uint_t) -1\<close> and \<open>highest\<close> as 0.  \<open>None\<close> is the early \<^verbatim>\<open>return 0\<close>.\<close>

fun preferred_loop :: "nat \<Rightarrow> peer_state \<Rightarrow> u64 \<Rightarrow> u64 \<Rightarrow> nat list \<Rightarrow> u64 \<Rightarrow> u32 \<Rightarrow> u64 option act" where
  "preferred_loop i state ms limit [] best highest = ret (Some best)"
| "preferred_loop i state ms limit (j # js) best highest = do {
     fresh \<leftarrow> read_clock;
     if (case fresh of None \<Rightarrow> True | Some t \<Rightarrow> t \<ge> limit) then ret None
     else do {
       candidate \<leftarrow> State (ngx_healthcheck_read_worker j limit);
       w \<leftarrow> gets id;
       (case candidate of
          None \<Rightarrow> preferred_loop i state ms limit js best highest
        | Some c \<Rightarrow>
            if \<not> candidate_ok j state ms (r_grace w) c then preferred_loop i state ms limit js best highest
            else
              (let score = ngx_healthcheck_score (pr_hash w) (pr_module w) (p_index (peer_of i w)) (of_nat j)
               in if best = UINT64_MAX \<or> score > highest
                  then preferred_loop i state ms limit js (of_nat j) score
                  else preferred_loop i state ms limit js best highest))
     }
   }"

definition ngx_healthcheck_preferred :: "nat \<Rightarrow> peer_state \<Rightarrow> u64 \<Rightarrow> u64 \<Rightarrow> bool act" where
  "ngx_healthcheck_preferred i state ms limit = do {
     n \<leftarrow> gets pr_workers;
     best \<leftarrow> preferred_loop i state ms limit [0 ..< unat n] UINT64_MAX 0;
     me \<leftarrow> gets r_worker;
     ret (best = Some me)
   }"

section \<open>The watch timer\<close>

text \<open>A probe whose round is no longer the published one is retired.\<close>

definition watch_retire :: "nat \<Rightarrow> unit act" where
  "watch_retire i = do {
     ngx_healthcheck_probe_cleanup i False;
     upd_probe i (\<lambda>p. p\<lparr>pb_active := False, pb_pending := False\<rparr>);
     disarm_check i
   }"

text \<open>Taking over a peer of another registration; \<open>False\<close> where the clock fails and the loop breaks.\<close>

definition watch_takeover :: "bool \<Rightarrow> nat \<Rightarrow> peer_state \<Rightarrow> u64 \<Rightarrow> bool act" where
  "watch_takeover tunable i state limit = do {
     w \<leftarrow> gets id;
     let eligible = ngx_healthcheck_add_time
       (ngx_healthcheck_deadline (shm_activated_at (k_shm w)) (conf_of i w) state) (r_grace w);
     time \<leftarrow> read_clock;
     (case time of
        None \<Rightarrow> ret False
      | Some now \<Rightarrow> do {
          let ms = now div 1000000;
          go \<leftarrow> (if ms \<ge> eligible then
                    (if ms \<ge> ngx_healthcheck_add_time eligible (r_preference w) then ret True
                     else ngx_healthcheck_preferred i state ms limit)
                  else ret False);
          when go (do { r \<leftarrow> ngx_healthcheck_claim tunable i (Some state) limit; skip });
          ret True
        })
   }"

text \<open>The part of a visit after a successful read of the record, up to the label \<^verbatim>\<open>next\<close>.\<close>

definition watch_record :: "bool \<Rightarrow> nat \<Rightarrow> peer_state \<Rightarrow> u64 \<Rightarrow> bool act" where
  "watch_record tunable i state limit = do {
     w \<leftarrow> gets id;
     when (ps_phase state = INITIAL \<and> ps_instance state = 0 \<and> ps_worker state = r_worker w
           \<and> lp_timer (pr_local w i) = None) (do {
       r \<leftarrow> ngx_random;
       arm_check i (r mod max (c_check_interval (conf_of i w)) 1000)
     });
     when (case lp_probe (pr_local w i) of
             None \<Rightarrow> False
           | Some p \<Rightarrow> ps_worker state \<noteq> r_worker w \<or> ps_instance state \<noteq> pb_instance p
               \<or> ps_term state \<noteq> pb_term p \<or> ps_round state \<noteq> pb_round p)
       (watch_retire i);
     if ps_worker state = r_worker w \<and> ps_instance state = r_instance w
     then do {
       active \<leftarrow> gets (\<lambda>w. case lp_probe (pr_local w i) of None \<Rightarrow> False | Some p \<Rightarrow> pb_active p);
       when active (ngx_healthcheck_probe_resume tunable i);
       ret True
     }
     else watch_takeover tunable i state limit
   }"

text \<open>One visit of the loop with the test after \<^verbatim>\<open>next\<close>; \<open>False\<close> leaves the loop.\<close>

definition watch_visit :: "bool \<Rightarrow> nat \<Rightarrow> u64 \<Rightarrow> bool act" where
  "watch_visit tunable i limit = do {
     pending \<leftarrow> gets (\<lambda>w. case lp_probe (pr_local w i) of None \<Rightarrow> False | Some p \<Rightarrow> pb_pending p);
     when pending (do {
       rc \<leftarrow> ngx_healthcheck_submit i limit;
       when (rc = NGX_DECLINED) (upd_probe i (pb_pending_update (\<lambda>_. False)))
     });
     record \<leftarrow> State (ngx_healthcheck_read_peer i limit);
     go \<leftarrow> (case record of None \<Rightarrow> ret True | Some state \<Rightarrow> watch_record tunable i state limit);
     if \<not> go then ret False
     else do {
       time \<leftarrow> read_clock;
       ret (case time of None \<Rightarrow> False | Some now \<Rightarrow> now < limit)
     }
   }"

text \<open>The loop with the visits that are left; each visit moves the cursor on.\<close>

fun watch_loop :: "bool \<Rightarrow> nat \<Rightarrow> u64 \<Rightarrow> unit act" where
  "watch_loop tunable 0 limit = skip"
| "watch_loop tunable (Suc n) limit = do {
     w \<leftarrow> gets id;
     modify (\<lambda>w. w\<lparr>r_cursor := (r_cursor w + 1) mod of_nat (length (pr_peers w))\<rparr>);
     go \<leftarrow> watch_visit tunable (unat (r_cursor w)) limit;
     if go then watch_loop tunable n limit else skip
   }"

definition watch_rearm :: "unit act" where
  "watch_rearm = do {
     modify (r_budget_update (\<lambda>_. 0));
     w \<leftarrow> gets id;
     when (\<not> r_stopping w) (arm_watch (r_interval w))
   }"

definition ngx_healthcheck_watch :: "bool \<Rightarrow> unit act" where
  "ngx_healthcheck_watch tunable = do {
     stop \<leftarrow> ngx_healthcheck_stopping;
     if stop then skip
     else do {
       time \<leftarrow> read_clock;
       (case time of
          None \<Rightarrow> watch_rearm
        | Some now \<Rightarrow> do {
            let limit = ngx_healthcheck_add_time now NGX_HEALTHCHECK_LOCK_NS;
            modify (r_budget_update (\<lambda>_. limit));
            rc \<leftarrow> ngx_healthcheck_register limit;
            if rc = NGX_DECLINED then ngx_healthcheck_runtime_stop
            else do {
              w \<leftarrow> gets id;
              when (r_registered w)
                (watch_loop tunable (min (length (pr_peers w)) (unat (NGX_HEALTHCHECK_BATCH))) limit);
              watch_rearm
            }
          })
     }
   }"

end
