(* ===== verification/Protocol.thy ===== *)
theory Protocol
  imports Rounds
begin

text \<open>
  The shared zone as a concurrent object.  A step is one critical section of one process (or one store
  to the activation words): registering, leaving, claiming a round, marking it in flight, submitting
  its result.  Processes interleave freely, die between steps and are replaced; the theorems are about
  every trace of such steps.
\<close>

section \<open>Steps\<close>

text \<open>What a step depends on besides the zone: the process and the configuration of the peers.\<close>

record actor =
  ac_worker :: u64
  ac_pid :: pid
  ac_conf :: "nat \<Rightarrow> srv_conf"
  ac_grace :: u64

definition with_peer :: "nat \<Rightarrow> peer_state \<Rightarrow> peers_shm \<Rightarrow> peers_shm" where
  "with_peer i st s = s\<lparr>shm_peers := (shm_peers s)(i := ngx_healthcheck_publish (shm_peers s i) st)\<rparr>"

definition with_worker :: "nat \<Rightarrow> worker_state \<Rightarrow> peers_shm \<Rightarrow> peers_shm" where
  "with_worker i st s = s\<lparr>shm_workers := (shm_workers s)(i := ngx_healthcheck_publish_worker (shm_workers s i) st)\<rparr>"

definition peer_now :: "peers_shm \<Rightarrow> nat \<Rightarrow> peer_state" where
  "peer_now s i = peer_current (shm_peers s i)"

definition worker_now :: "peers_shm \<Rightarrow> nat \<Rightarrow> worker_state" where
  "worker_now s i = worker_current (shm_workers s i)"

text \<open>
  Labels record what the traces are asked about: a claim with the new record and whether it was a
  takeover, a submission with the record it found.
\<close>

datatype label = Internal | Registered nat | Claimed nat bool peer_state | Submitted nat peer_state bool

definition in_round :: "peer_state \<Rightarrow> bool" where
  "in_round st \<longleftrightarrow> ps_phase st = PREPARING \<or> ps_phase st = INFLIGHT"

inductive proc_step :: "actor \<Rightarrow> label \<Rightarrow> peers_shm \<Rightarrow> peers_shm \<Rightarrow> bool" for a :: actor where
  activation_time: "shm_activated s = 0 \<Longrightarrow> proc_step a Internal s (s\<lparr>shm_activated_at := t\<rparr>)"
| activation_flag: "shm_activated s = 0 \<Longrightarrow> proc_step a Internal s (s\<lparr>shm_activated := 1\<rparr>)"
| registration:
    "register_record False inst (ac_pid a) ms (worker_now s (unat (ac_worker a))) = Inr st \<Longrightarrow>
     proc_step a (Registered (unat (ac_worker a))) s (with_worker (unat (ac_worker a)) st s)"
| heartbeat:
    "register_record True inst (ac_pid a) ms (worker_now s (unat (ac_worker a))) = Inr st \<Longrightarrow>
     proc_step a Internal s (with_worker (unat (ac_worker a)) st s)"
| leaving:
    "exit_record inst (ac_pid a) (worker_now s (unat (ac_worker a))) = Some st \<Longrightarrow>
     proc_step a Internal s (with_worker (unat (ac_worker a)) st s)"
| claiming:
    "claim_record \<lparr>cl_worker = ac_worker a, cl_instance = inst, cl_pid = ac_pid a, cl_grace = ac_grace a\<rparr>
       (ac_conf a i) (shm_activated_at s) ms takeover (peer_now s i) = (NGX_OK, wait, st) \<Longrightarrow>
     proc_step a (Claimed i (takeover \<noteq> None) st) s (with_peer i st s)"
| waiting:
    "owned_by t (peer_now s i) \<Longrightarrow> tk_worker t = ac_worker a \<Longrightarrow> tk_pid t = ac_pid a \<Longrightarrow>
     ps_phase (peer_now s i) = PREPARING \<Longrightarrow>
     proc_step a Internal s (with_peer i (waiting_record d (peer_now s i)) s)"
| submitting:
    "owned_by t (peer_now s i) \<Longrightarrow> tk_worker t = ac_worker a \<Longrightarrow> tk_pid t = ac_pid a \<Longrightarrow>
     in_round (peer_now s i) \<Longrightarrow>
     proc_step a (Submitted i (peer_now s i) result) s
       (with_peer i (submit_record (ac_conf a i) result sample now (peer_now s i)) s)"

inductive_cases claimed_stepE: "proc_step a (Claimed i t st) s s'"
inductive_cases submitted_stepE: "proc_step a (Submitted i st r) s s'"

text \<open>A trace of steps of any processes out of \<open>A\<close>.\<close>

inductive trace :: "actor set \<Rightarrow> peers_shm \<Rightarrow> label list \<Rightarrow> peers_shm \<Rightarrow> bool"
  for A :: "actor set" and s :: peers_shm where
  trace_nil: "trace A s [] s"
| trace_snoc: "trace A s ls s' \<Longrightarrow> a \<in> A \<Longrightarrow> proc_step a l s' s'' \<Longrightarrow> trace A s (ls @ [l]) s''"

section \<open>What a step does to one record\<close>

lemma peer_now_with_peer [simp]: "peer_now (with_peer i st s) j = (if j = i then st else peer_now s j)"
  by (simp add: peer_now_def with_peer_def cell_simps)

lemma peer_now_with_worker [simp]: "peer_now (with_worker i st s) j = peer_now s j"
  by (simp add: peer_now_def with_worker_def)

lemma worker_now_with_peer [simp]: "worker_now (with_peer i st s) j = worker_now s j"
  by (simp add: worker_now_def with_peer_def)

lemma worker_now_with_worker [simp]:
  "worker_now (with_worker i st s) j = (if j = i then st else worker_now s j)"
  by (simp add: worker_now_def with_worker_def cell_simps)

lemma peer_now_activation [simp]:
  "peer_now (s\<lparr>shm_activated_at := t\<rparr>) j = peer_now s j" "peer_now (s\<lparr>shm_activated := b\<rparr>) j = peer_now s j"
  "worker_now (s\<lparr>shm_activated_at := t\<rparr>) j = worker_now s j" "worker_now (s\<lparr>shm_activated := b\<rparr>) j = worker_now s j"
  by (simp_all add: peer_now_def worker_now_def)

text \<open>The identity of a round.\<close>

definition round_key :: "peer_state \<Rightarrow> u64 \<times> u64 \<times> pid \<times> u64 \<times> u64" where
  "round_key st = (ps_worker st, ps_instance st, ps_owner st, ps_term st, ps_round st)"

lemma claim_recordE:
  assumes "claim_record c conf act ms takeover st = (NGX_OK, wait, st')"
  obtains "st' = claim_next c conf ms st" "ps_round st \<noteq> UINT64_MAX"
    "claim_owner_same c st \<or> ps_term st \<noteq> UINT64_MAX"
    "case takeover of
       None \<Rightarrow> claim_regular c conf ms st = (NGX_OK, wait)
     | Some observed \<Rightarrow> claim_takeover c conf act ms observed st = (NGX_OK, wait)"
  using assms by (cases takeover) (auto simp: claim_record_def split: prod.splits if_splits)

lemma claim_next_fields:
  "round_key (claim_next c conf ms st) =
     (cl_worker c, cl_instance c, cl_pid c, if claim_owner_same c st then ps_term st else ps_term st + 1,
      ps_round st + 1)"
  "in_round (claim_next c conf ms st)" "ps_health (claim_next c conf ms st) = ps_health st"
  "ps_started (claim_next c conf ms st) = ms"
  "ps_round (claim_next c conf ms st) = ps_round st + 1"
  "ps_term (claim_next c conf ms st) = (if claim_owner_same c st then ps_term st else ps_term st + 1)"
  "ps_worker (claim_next c conf ms st) = cl_worker c" "ps_instance (claim_next c conf ms st) = cl_instance c"
  by (simp_all add: claim_next_def round_key_def in_round_def)

lemma waiting_record_fields [simp]:
  "round_key (waiting_record d st) = round_key st" "in_round (waiting_record d st) = in_round st"
  "ps_health (waiting_record d st) = ps_health st" "ps_started (waiting_record d st) = ps_started st"
  by (simp_all add: waiting_record_def round_key_def in_round_def)

lemma submit_record_fields [simp]:
  "round_key (submit_record conf r sm t st) = round_key st" "\<not> in_round (submit_record conf r sm t st)"
  "ps_started (submit_record conf r sm t st) = ps_started st"
  by (simp_all add: submit_record_def round_key_def in_round_def Let_def)

text \<open>The effect of a step on the record of peer \<open>i\<close>, in the four cases that matter.\<close>

lemma step_record:
  assumes "proc_step a l s s'"
  obtains (same) "peer_now s' i = peer_now s i" "\<And>t st. l \<noteq> Claimed i t st" "\<And>st r. l \<noteq> Submitted i st r"
  | (wait) d where "peer_now s' i = waiting_record d (peer_now s i)" "l = Internal"
  | (claim) c act ms takeover wait where
      "claim_record c (ac_conf a i) act ms takeover (peer_now s i) = (NGX_OK, wait, peer_now s' i)"
      "l = Claimed i (takeover \<noteq> None) (peer_now s' i)" "cl_pid c = ac_pid a" "cl_worker c = ac_worker a" "cl_grace c = ac_grace a" "act = shm_activated_at s"
  | (submit) r sm t where "peer_now s' i = submit_record (ac_conf a i) r sm t (peer_now s i)"
      "l = Submitted i (peer_now s i) r" "in_round (peer_now s i)"
      "ps_owner (peer_now s i) = ac_pid a" "ps_worker (peer_now s i) = ac_worker a"
  using assms
proof cases
  case (claiming inst j ms takeover wait st)
  show thesis
  proof (cases "j = i")
    case True
    with claiming show thesis by (intro claim) auto
  next
    case False
    with claiming show thesis by (intro same) auto
  qed
next
  case (waiting t j d)
  then show thesis by (cases "j = i") (auto intro: wait same)
next
  case (submitting t j result sample now)
  show thesis
  proof (cases "j = i")
    case True
    with submitting show thesis by (intro submit) (auto simp: owned_by_def)
  next
    case False
    with submitting show thesis by (intro same) auto
  qed
qed (auto intro: same split: if_splits)

section \<open>Histories\<close>

fun claim_of :: "nat \<Rightarrow> label \<Rightarrow> peer_state option" where
  "claim_of i (Claimed j t st) = (if j = i then Some st else None)"
| "claim_of i _ = None"

fun submit_of :: "nat \<Rightarrow> label \<Rightarrow> peer_state option" where
  "submit_of i (Submitted j st r) = (if j = i then Some st else None)"
| "submit_of i _ = None"

definition claims :: "nat \<Rightarrow> label list \<Rightarrow> peer_state list" where
  "claims i ls = List.map_filter (claim_of i) ls"

definition submits :: "nat \<Rightarrow> label list \<Rightarrow> peer_state list" where
  "submits i ls = List.map_filter (submit_of i) ls"

lemma history_snoc [simp]:
  "claims i (ls @ [l]) = claims i ls @ (case claim_of i l of None \<Rightarrow> [] | Some st \<Rightarrow> [st])"
  "submits i (ls @ [l]) = submits i ls @ (case submit_of i l of None \<Rightarrow> [] | Some st \<Rightarrow> [st])"
  by (simp_all add: claims_def submits_def List.map_filter_def split: option.split)

lemma history_nil [simp]: "claims i [] = []" "submits i [] = []"
  by (simp_all add: claims_def submits_def List.map_filter_def)

text \<open>Who owns a term.\<close>

definition term_owner :: "peer_state \<Rightarrow> u64 \<times> u64" where
  "term_owner st = (ps_worker st, ps_instance st)"

definition history_ok :: "nat \<Rightarrow> label list \<Rightarrow> peers_shm \<Rightarrow> bool" where
  "history_ok i ls s \<longleftrightarrow>
     sorted_wrt (<) (map ps_round (claims i ls)) \<and>
     (\<forall>c \<in> set (claims i ls). ps_round c \<le> ps_round (peer_now s i)) \<and>
     sorted_wrt (<) (map ps_round (submits i ls)) \<and>
     (\<forall>c \<in> set (submits i ls). ps_round c \<le> ps_round (peer_now s i) \<and>
        (in_round (peer_now s i) \<longrightarrow> ps_round c < ps_round (peer_now s i))) \<and>
     (\<forall>c \<in> set (submits i ls). round_key c \<in> round_key ` set (claims i ls)) \<and>
     (in_round (peer_now s i) \<longrightarrow> round_key (peer_now s i) \<in> round_key ` set (claims i ls))"

text \<open>
  A list of claims whose terms never fall, each term with one owner; \<open>t\<close> and \<open>own\<close> are the term and
  the owner of the current record.
\<close>

definition owned_terms :: "('c \<Rightarrow> 't :: linorder) \<Rightarrow> ('c \<Rightarrow> 'o) \<Rightarrow> 'c list \<Rightarrow> 't \<Rightarrow> 'o \<Rightarrow> bool" where
  "owned_terms f g cs t own \<longleftrightarrow>
     (\<forall>c \<in> set cs. f c \<le> t \<and> (f c = t \<longrightarrow> g c = own)) \<and>
     (\<forall>c \<in> set cs. \<forall>d \<in> set cs. f c = f d \<longrightarrow> g c = g d) \<and> sorted_wrt (\<le>) (map f cs)"

lemma owned_terms_snoc:
  assumes "owned_terms f g cs t own" and "f c = t \<and> g c = own \<or> t < f c"
  shows "owned_terms f g (cs @ [c]) (f c) (g c)"
proof -
  have old: "f x \<le> f c \<and> (f x = f c \<longrightarrow> g x = g c)" if "x \<in> set cs" for x
  proof -
    have "f x \<le> t" "f x = t \<Longrightarrow> g x = own" using assms(1) that unfolding owned_terms_def by blast+
    then show ?thesis using assms(2) by auto
  qed
  have pairs: "\<forall>c \<in> set cs. \<forall>d \<in> set cs. f c = f d \<longrightarrow> g c = g d" and sorted: "sorted_wrt (\<le>) (map f cs)"
    using assms(1) unfolding owned_terms_def by blast+
  show ?thesis
    unfolding owned_terms_def
  proof (intro conjI)
    show "\<forall>x \<in> set (cs @ [c]). \<forall>y \<in> set (cs @ [c]). f x = f y \<longrightarrow> g x = g y"
    proof (intro ballI impI)
      fix x y
      assume "x \<in> set (cs @ [c])" "y \<in> set (cs @ [c])" and eq: "f x = f y"
      then consider "x \<in> set cs" "y \<in> set cs" | "x \<in> set cs" "y = c" | "x = c" "y \<in> set cs" | "x = c" "y = c"
        by auto
      then show "g x = g y"
      proof cases
        case 1
        with pairs eq show ?thesis by blast
      next
        case 2
        with old [of x] eq show ?thesis by simp
      next
        case 3
        with old [of y] eq show ?thesis by simp
      qed simp
    qed
    show "sorted_wrt (\<le>) (map f (cs @ [c]))" using sorted old by (simp add: sorted_wrt_append)
  qed (use old in auto)
qed

definition terms_ok :: "nat \<Rightarrow> label list \<Rightarrow> peers_shm \<Rightarrow> bool" where
  "terms_ok i ls s \<longleftrightarrow>
     owned_terms ps_term term_owner (claims i ls) (ps_term (peer_now s i)) (term_owner (peer_now s i))"

lemma round_key_fields: "round_key a = round_key b \<Longrightarrow> ps_round a = ps_round b"
  "round_key a = round_key b \<Longrightarrow> ps_term a = ps_term b" "round_key a = round_key b \<Longrightarrow> term_owner a = term_owner b"
  by (simp_all add: round_key_def term_owner_def)

lemma no_label:
  "(\<And>t st. l \<noteq> Claimed i t st) \<Longrightarrow> claim_of i l = None" "(\<And>st r. l \<noteq> Submitted i st r) \<Longrightarrow> submit_of i l = None"
  by (cases l; auto)+

lemma history_ok_step:
  assumes h: "history_ok i ls s" and step: "proc_step a l s s'"
  shows "history_ok i (ls @ [l]) s'"
  using step
proof (cases rule: step_record [where i = i])
  case same
  note n = no_label(1) [OF same(2)] no_label(2) [OF same(3)]
  show ?thesis using h unfolding history_ok_def history_snoc same(1) n option.case append_Nil2 .
next
  case (wait d)
  have "ps_round (waiting_record d st) = ps_round st" for st by (simp add: waiting_record_def)
  with wait h show ?thesis by (simp add: history_ok_def)
next
  case (claim c act ms takeover wait)
  from claim(1) have n: "peer_now s' i = claim_next c (ac_conf a i) ms (peer_now s i)"
    and r: "ps_round (peer_now s i) \<noteq> UINT64_MAX" by (auto elim: claim_recordE)
  have less: "ps_round (peer_now s i) < ps_round (peer_now s' i)"
    using u64_less_suc [OF r] by (simp add: n claim_next_fields)
  have "ps_round c' < ps_round (peer_now s' i)" if "ps_round c' \<le> ps_round (peer_now s i)" for c'
    using that less by (rule order.strict_trans1)
  with h claim(2) show ?thesis
    by (auto simp: history_ok_def sorted_wrt_append order.strict_implies_order)
next
  case (submit r sm t)
  have eq: "ps_round (peer_now s' i) = ps_round (peer_now s i)"
    by (rule round_key_fields(1)) (simp add: submit(1))
  with h submit(1,2,3) show ?thesis
    by (auto simp: history_ok_def sorted_wrt_append)
qed

lemma terms_ok_step:
  assumes h: "terms_ok i ls s" and step: "proc_step a l s s'"
  shows "terms_ok i (ls @ [l]) s'"
  using step
proof (cases rule: step_record [where i = i])
  case same
  note n = no_label(1) [OF same(2)]
  show ?thesis using h unfolding terms_ok_def history_snoc same(1) n option.case append_Nil2 .
next
  case (wait d)
  have e: "ps_term (waiting_record d st) = ps_term st" "term_owner (waiting_record d st) = term_owner st" for st
    by (simp_all add: waiting_record_def term_owner_def)
  show ?thesis
    using h unfolding terms_ok_def history_snoc wait e claim_of.simps option.case append_Nil2 .
next
  case (claim c act ms takeover wait)
  from claim(1) have n: "peer_now s' i = claim_next c (ac_conf a i) ms (peer_now s i)"
    and t: "claim_owner_same c (peer_now s i) \<or> ps_term (peer_now s i) \<noteq> UINT64_MAX"
    by (auto elim: claim_recordE)
  have "ps_term (peer_now s' i) = ps_term (peer_now s i) \<and> term_owner (peer_now s' i) = term_owner (peer_now s i) \<or>
      ps_term (peer_now s i) < ps_term (peer_now s' i)"
    using t u64_less_suc [of "ps_term (peer_now s i)"]
    by (auto simp: n claim_next_fields term_owner_def claim_owner_same_def)
  from owned_terms_snoc [OF h [unfolded terms_ok_def] this] claim(2) show ?thesis
    by (simp add: terms_ok_def)
next
  case (submit r sm t)
  have e: "ps_term (peer_now s' i) = ps_term (peer_now s i)" "term_owner (peer_now s' i) = term_owner (peer_now s i)"
    by (rule round_key_fields(2,3), simp add: submit(1))+
  show ?thesis
    using h unfolding terms_ok_def history_snoc e submit(2) claim_of.simps option.case append_Nil2 .
qed

lemma trace_history:
  assumes "trace A s0 ls s" and "\<not> in_round (peer_now s0 i)"
  shows "history_ok i ls s \<and> terms_ok i ls s"
  using assms(1)
proof induction
  case trace_nil
  then show ?case using assms(2) by (simp add: history_ok_def terms_ok_def owned_terms_def)
next
  case (trace_snoc ls s' a l s'')
  then show ?case by (blast intro: history_ok_step terms_ok_step)
qed

text \<open>Rounds and terms never go back.\<close>

lemma step_mono:
  assumes "proc_step a l s s'"
  shows "ps_round (peer_now s i) \<le> ps_round (peer_now s' i)" "ps_term (peer_now s i) \<le> ps_term (peer_now s' i)"
    "ps_term (peer_now s' i) = ps_term (peer_now s i) \<Longrightarrow> term_owner (peer_now s' i) = term_owner (peer_now s i)"
  using assms
proof (atomize(full), cases rule: step_record [where i = i])
  case (wait d)
  then show "ps_round (peer_now s i) \<le> ps_round (peer_now s' i) \<and> ps_term (peer_now s i) \<le> ps_term (peer_now s' i) \<and>
    (ps_term (peer_now s' i) = ps_term (peer_now s i) \<longrightarrow> term_owner (peer_now s' i) = term_owner (peer_now s i))"
    by (simp add: waiting_record_def term_owner_def)
next
  case (claim c act ms takeover wait)
  from claim(1) have n: "peer_now s' i = claim_next c (ac_conf a i) ms (peer_now s i)"
    and r: "ps_round (peer_now s i) \<noteq> UINT64_MAX"
    and t: "claim_owner_same c (peer_now s i) \<or> ps_term (peer_now s i) \<noteq> UINT64_MAX"
    by (auto elim: claim_recordE)
  show "ps_round (peer_now s i) \<le> ps_round (peer_now s' i) \<and> ps_term (peer_now s i) \<le> ps_term (peer_now s' i) \<and>
    (ps_term (peer_now s' i) = ps_term (peer_now s i) \<longrightarrow> term_owner (peer_now s' i) = term_owner (peer_now s i))"
    using u64_less_suc [OF r] t u64_less_suc [of "ps_term (peer_now s i)"]
    by (auto simp: n claim_next_fields term_owner_def claim_owner_same_def order.strict_implies_order)
next
  case (submit r sm t)
  then show "ps_round (peer_now s i) \<le> ps_round (peer_now s' i) \<and> ps_term (peer_now s i) \<le> ps_term (peer_now s' i) \<and>
    (ps_term (peer_now s' i) = ps_term (peer_now s i) \<longrightarrow> term_owner (peer_now s' i) = term_owner (peer_now s i))"
    by (simp add: submit_record_def term_owner_def Let_def)
qed simp

text \<open>What comes after a record: a later round of a later term, or of the same term and owner.\<close>

definition follows :: "peer_state \<Rightarrow> peer_state \<Rightarrow> bool" where
  "follows st st' \<longleftrightarrow> ps_round st \<le> ps_round st' \<and>
     (ps_term st < ps_term st' \<or> ps_term st = ps_term st' \<and> term_owner st = term_owner st')"

lemma follows_trans: "follows a b \<Longrightarrow> follows b c \<Longrightarrow> follows a c"
  by (auto simp: follows_def)

lemma step_follows: "proc_step a l s s' \<Longrightarrow> follows (peer_now s i) (peer_now s' i)"
  using step_mono [of a l s s' i] by (auto simp: follows_def order.order_iff_strict)

lemma trace_follows: "trace A s ls s' \<Longrightarrow> follows (peer_now s i) (peer_now s' i) \<and>
    (\<forall>st \<in> set (submits i ls) \<union> set (claims i ls). follows (peer_now s i) st)"
proof (induction rule: trace.induct)
  case (trace_snoc ls s' a l s'')
  have f: "follows (peer_now s i) (peer_now s'' i)"
    using trace_snoc.IH step_follows [OF trace_snoc.hyps(3)] follows_trans by blast
  from trace_snoc.hyps(3) show ?case
  proof (cases rule: step_record [where i = i])
    case same
    with trace_snoc.IH f show ?thesis by (simp add: no_label)
  qed (use trace_snoc.IH f in auto)
qed (simp add: follows_def)

lemma trace_split:
  assumes "trace A s (ls1 @ ls2) s''"
  obtains s' where "trace A s ls1 s'" "trace A s' ls2 s''"
  using assms
proof (induction ls2 arbitrary: s'' thesis rule: rev_induct)
  case Nil
  then show ?case using trace_nil by auto
next
  case (snoc l ls2)
  from snoc.prems(2) obtain m a where "trace A s (ls1 @ ls2) m" "a \<in> A" "proc_step a l m s''"
    by (auto elim: trace.cases)
  then show ?case using snoc.IH snoc.prems(1) trace.trace_snoc by metis
qed

text \<open>The start of the current round is the start of the last claim.\<close>

lemma step_started:
  assumes "proc_step a l s s'"
  shows "case claim_of i l of None \<Rightarrow> ps_started (peer_now s' i) = ps_started (peer_now s i) | Some st \<Rightarrow> peer_now s' i = st"
  using assms
proof (cases rule: step_record [where i = i])
  case same
  then show ?thesis by (simp add: no_label)
qed auto

lemma trace_started:
  "trace A s ls s' \<Longrightarrow> claims i ls \<noteq> [] \<Longrightarrow> ps_started (peer_now s' i) = ps_started (last (claims i ls))"
proof (induction rule: trace.induct)
  case (trace_snoc ls s' a l s'')
  from step_started [OF trace_snoc.hyps(3), of i] trace_snoc.IH trace_snoc.prems show ?case
    by (auto split: option.splits)
qed simp

text \<open>Out of a round, the round of the last claim has been submitted.\<close>

lemma step_key:
  assumes "proc_step a l s s'"
  shows "case claim_of i l of None \<Rightarrow> round_key (peer_now s' i) = round_key (peer_now s i) | Some st \<Rightarrow> peer_now s' i = st \<and> in_round st"
    and "in_round (peer_now s i) \<Longrightarrow> \<not> in_round (peer_now s' i) \<Longrightarrow> submit_of i l = Some (peer_now s i) \<and> claim_of i l = None"
    and "claim_of i l = None \<Longrightarrow> in_round (peer_now s' i) \<Longrightarrow> in_round (peer_now s i)"
  using assms
  by (atomize(full), cases rule: step_record [where i = i])
    (auto simp: no_label claim_next_fields elim!: claim_recordE)

lemma trace_submitted:
  assumes "trace A s ls s'" and "claims i ls \<noteq> []"
  shows "round_key (peer_now s' i) = round_key (last (claims i ls)) \<and>
    (\<not> in_round (peer_now s' i) \<longrightarrow> round_key (last (claims i ls)) \<in> round_key ` set (submits i ls))"
  using assms
proof (induction rule: trace.induct)
  case (trace_snoc ls s' a l s'')
  show ?case
  proof (cases "claim_of i l")
    case None
    with step_key [OF trace_snoc.hyps(3), of i] trace_snoc.IH trace_snoc.prems show ?thesis
      by (cases "in_round (peer_now s' i)") auto
  next
    case (Some st)
    with step_key(1) [OF trace_snoc.hyps(3), of i] show ?thesis by simp
  qed
qed simp

section \<open>The records themselves\<close>

definition record_ok :: "peer_shm \<Rightarrow> bool" where
  "record_ok p \<longleftrightarrow> down_bit_ok p \<and> health_ok (ps_health (peer_current p))"

definition records_ok :: "peers_shm \<Rightarrow> bool" where
  "records_ok s \<longleftrightarrow> (\<forall>i. record_ok (shm_peers s i))"

lemma health_ok_access: "health_ok (h\<lparr>h_access_time := t\<rparr>) = health_ok h"
  by (simp add: health_ok_def health_delay_def)

lemma records_ok_with_peer:
  "records_ok s \<Longrightarrow> health_ok (ps_health st) \<Longrightarrow> records_ok (with_peer i st s)"
  by (simp add: records_ok_def record_ok_def with_peer_def down_bit_publish cell_simps)

lemma records_ok_now: "records_ok s \<Longrightarrow> health_ok (ps_health (peer_now s i))"
  by (simp add: records_ok_def record_ok_def peer_now_def)

lemma records_ok_step: "proc_step a l s s' \<Longrightarrow> records_ok s \<Longrightarrow> records_ok s'"
proof (induction rule: proc_step.induct)
  case (claiming inst i s ms takeover wait st)
  then show ?case
    by (auto intro!: records_ok_with_peer elim!: claim_recordE simp: claim_next_fields records_ok_now)
next
  case (waiting t s i d)
  then show ?case by (auto intro!: records_ok_with_peer simp: records_ok_now)
next
  case (submitting t s i result sample now)
  then show ?case
    by (auto intro!: records_ok_with_peer
        simp: submit_record_def Let_def health_ok_access submit_health_ok records_ok_now)
qed (simp_all add: records_ok_def with_worker_def)

lemma records_ok_trace: "trace A s ls s' \<Longrightarrow> records_ok s \<Longrightarrow> records_ok s'"
  by (induction rule: trace.induct) (auto dest: records_ok_step)

section \<open>Registrations\<close>

lemma step_registration:
  assumes "proc_step a l s s'"
  shows "unat (ws_instance (worker_now s' j)) =
    unat (ws_instance (worker_now s j)) + (if l = Registered j then 1 else 0)"
  using assms
  by cases (auto simp: register_record_def exit_record_def unat_suc_no_wrap split: if_splits)

section \<open>Properties\<close>

text \<open>C1. However processes interleave, die and are replaced: the rounds of a peer are claimed one after
  the other with strictly increasing numbers, every round is submitted at most once, and only a round
  that was claimed is submitted, by the worker, instance and process that claimed it.\<close>

theorem rounds_committed_once:
  assumes "trace A s ls s'" and "\<not> in_round (peer_now s i)"
  shows "sorted_wrt (<) (map ps_round (claims i ls)) \<and> sorted_wrt (<) (map ps_round (submits i ls)) \<and>
    distinct (map ps_round (submits i ls)) \<and> round_key ` set (submits i ls) \<subseteq> round_key ` set (claims i ls)"
proof -
  have h: "history_ok i ls s'" using trace_history [OF assms] by blast
  then have "sorted_wrt (<) (map ps_round (submits i ls))" by (simp add: history_ok_def)
  then have "distinct (map ps_round (submits i ls))" by (simp add: strict_sorted_iff)
  with h show ?thesis by (auto simp: history_ok_def)
qed

text \<open>C3. Fencing: within one term all rounds of a peer belong to one worker instance, terms never go
  back, and once a round has been claimed (by a takeover, say) nothing that carries an older round, or
  the term of another owner, is submitted or claimed any more.\<close>

theorem stale_owners_fenced:
  assumes "trace A s (ls @ Claimed i takeover st # ls') s'" and "\<not> in_round (peer_now s i)"
  shows "sorted_wrt (\<le>) (map ps_term (claims i (ls @ Claimed i takeover st # ls'))) \<and>
    (\<forall>st' \<in> set (submits i ls') \<union> set (claims i ls'). follows st st')"
proof
  from trace_history [OF assms]
  show "sorted_wrt (\<le>) (map ps_term (claims i (ls @ Claimed i takeover st # ls')))"
    unfolding terms_ok_def owned_terms_def by blast
  from assms(1) have "trace A s ((ls @ [Claimed i takeover st]) @ ls') s'" by simp
  then obtain m where m: "trace A s (ls @ [Claimed i takeover st]) m" "trace A m ls' s'" by (rule trace_split)
  from m(1) obtain m0 a where "proc_step a (Claimed i takeover st) m0 m"
    by (auto elim: trace.cases)
  from step_started [OF this, of i] have "peer_now m i = st" by simp
  with trace_follows [OF m(2), of i]
  show "\<forall>st' \<in> set (submits i ls') \<union> set (claims i ls'). follows st st'" by auto
qed

text \<open>C7. Probing cadence: a regular claim starts its round no earlier than the check interval after
  the start of the round before it and only when that round has been submitted, no matter which
  process ran it.\<close>

theorem probing_cadence:
  assumes "trace A s (ls @ [Claimed i False st]) s'" and "claims i ls \<noteq> []"
    and "ps_started (last (claims i ls)) \<noteq> 0" and "\<forall>a \<in> A. c_check_interval (ac_conf a i) = interval"
  shows "ngx_healthcheck_add_time (ps_started (last (claims i ls))) interval \<le> ps_started st \<and>
    round_key (last (claims i ls)) \<in> round_key ` set (submits i ls)"
proof -
  from assms(1) obtain m a where m: "trace A s ls m" "a \<in> A" "proc_step a (Claimed i False st) m s'"
    by (auto elim: trace.cases)
  have started: "ps_started (peer_now m i) = ps_started (last (claims i ls))"
    using trace_started [OF m(1) assms(2)] .
  from m(3) show ?thesis
  proof (cases rule: step_record [where i = i])
    case (claim c act ms takeover wait)
    then have "takeover = None" "st = peer_now s' i" by auto
    with claim(1) have "st = claim_next c (ac_conf a i) ms (peer_now m i)"
      "claim_regular c (ac_conf a i) ms (peer_now m i) = (NGX_OK, wait)" by (auto elim: claim_recordE)
    with assms(3,4) m(2) started have "\<not> in_round (peer_now m i)"
      "ngx_healthcheck_add_time (ps_started (last (claims i ls))) interval \<le> ps_started st"
      by (auto simp: claim_regular_def Let_def claim_next_fields not_less in_round_def split: if_splits)
    with trace_submitted [OF m(1) assms(2)] show ?thesis by blast
  qed auto
qed

text \<open>C6. A takeover: it happens only when the deadline of the abandoned round (or, before the first
  round, the start deadline counted from the activation of the zone) has passed by the grace time, it
  always moves the peer to another registration under a greater term, and it keeps the health.\<close>

theorem takeover_waits_for_grace:
  assumes "proc_step a (Claimed i True st) s s'"
  shows "ngx_healthcheck_add_time (ngx_healthcheck_deadline (shm_activated_at s) (ac_conf a i) (peer_now s i))
      (ac_grace a) \<le> ps_started st \<and>
    ps_term (peer_now s i) < ps_term st \<and> term_owner st \<noteq> term_owner (peer_now s i) \<and>
    ps_health st = ps_health (peer_now s i) \<and> peer_now s' i = st"
proof -
  from assms obtain inst ms takeover wait where 1: "takeover \<noteq> None" "s' = with_peer i st s" and rec:
    "claim_record \<lparr>cl_worker = ac_worker a, cl_instance = inst, cl_pid = ac_pid a, cl_grace = ac_grace a\<rparr>
       (ac_conf a i) (shm_activated_at s) ms takeover (peer_now s i) = (NGX_OK, wait, st)"
    by (rule claimed_stepE) blast
  then obtain observed where o: "takeover = Some observed" by auto
  let ?c = "\<lparr>cl_worker = ac_worker a, cl_instance = inst, cl_pid = ac_pid a, cl_grace = ac_grace a\<rparr>"
  from rec o have n: "st = claim_next ?c (ac_conf a i) ms (peer_now s i)"
    and t: "claim_owner_same ?c (peer_now s i) \<or> ps_term (peer_now s i) \<noteq> UINT64_MAX"
    and c: "claim_takeover ?c (ac_conf a i) (shm_activated_at s) ms observed (peer_now s i) = (NGX_OK, wait)"
    by (auto elim: claim_recordE)
  from c have "\<not> claim_owner_same ?c (peer_now s i)"
    "ngx_healthcheck_add_time (ngx_healthcheck_deadline (shm_activated_at s) (ac_conf a i) (peer_now s i))
      (ac_grace a) \<le> ms"
    by (auto simp: claim_takeover_def claim_owner_same_def not_less split: if_splits)
  with n t 1 u64_less_suc show ?thesis
    by (auto simp: claim_next_fields term_owner_def claim_owner_same_def)
qed

text \<open>C31. The instance number of a worker slot counts its registrations exactly and never wraps, so two
  processes that register in one slot never share an instance.\<close>

theorem instances_count_registrations:
  assumes "trace A s ls s'"
  shows "unat (ws_instance (worker_now s' j)) =
    unat (ws_instance (worker_now s j)) + length (filter (\<lambda>l. l = Registered j) ls)"
  using assms
proof induction
  case (trace_snoc ls s' a l s'')
  with step_registration [OF trace_snoc.hyps(3), of j] show ?case by simp
qed simp

text \<open>C11. In every reachable zone every record is sound: successes and failures are not counted at the
  same time, the down value is 0 or 1 and is the one that request routing reads from the published
  word, and the delay figures are consistent.\<close>

theorem records_stay_sound:
  assumes "trace A s ls s'" and "records_ok s"
  shows "records_ok s'"
  by (rule records_ok_trace [OF assms])


section \<open>A concrete trace\<close>

text \<open>
  Worker 0 claims peer 0 at 5 s, submits a success, claims again at 9 s and dies; worker 1 takes the
  peer over at 13 s.
\<close>

definition demo_actor :: "u64 \<Rightarrow> pid \<Rightarrow> actor" where
  "demo_actor worker pid = \<lparr>ac_worker = worker, ac_pid = pid, ac_conf = (\<lambda>_. demo_conf), ac_grace = 1000\<rparr>"

definition demo_claim :: "u64 \<Rightarrow> pid \<Rightarrow> u64 \<Rightarrow> peer_state \<Rightarrow> peer_state" where
  "demo_claim worker pid ms st =
     claim_next \<lparr>cl_worker = worker, cl_instance = 1, cl_pid = pid, cl_grace = 1000\<rparr> demo_conf ms st"

definition demo1 :: peer_state where "demo1 = demo_claim 0 10 5000 zero_peer_state"
definition demo2 :: peer_state where "demo2 = submit_record demo_conf True (Some 3) 5003000000 demo1"
definition demo3 :: peer_state where "demo3 = demo_claim 0 10 9000 demo2"
definition demo4 :: peer_state where "demo4 = demo_claim 1 20 13000 demo3"

definition demo_labels :: "label list" where
  "demo_labels = [Claimed 0 False demo1, Submitted 0 demo1 True, Claimed 0 False demo3]"

definition demo_zone :: peers_shm where
  "demo_zone = with_peer 0 demo3 (with_peer 0 demo2 (with_peer 0 demo1 zero_peers_shm))"

lemma peer_now_zero: "peer_now zero_peers_shm i = zero_peer_state"
  by (simp add: peer_now_def zero_peers_shm_def zero_peer_shm_def peer_current_def slot_get_def)

lemma demo_claim_step:
  assumes "peer_now s 0 = st" and "claim_record \<lparr>cl_worker = w, cl_instance = 1, cl_pid = p, cl_grace = 1000\<rparr>
      demo_conf (shm_activated_at s) ms takeover st = (NGX_OK, wait, demo_claim w p ms st)"
  shows "proc_step (demo_actor w p) (Claimed 0 (takeover \<noteq> None) (demo_claim w p ms st)) s
    (with_peer 0 (demo_claim w p ms st) s)"
  by (rule proc_step.claiming [where inst = 1 and ms = ms]) (use assms in \<open>simp add: demo_actor_def\<close>)

lemma demo_submit_step:
  "proc_step (demo_actor 0 10) (Submitted 0 demo1 True) (with_peer 0 demo1 s)
     (with_peer 0 demo2 (with_peer 0 demo1 s))"
proof -
  have "owned_by \<lparr>tk_worker = 0, tk_instance = 1, tk_pid = 10, tk_term = 1, tk_round = 1\<rparr> demo1" "in_round demo1"
    by (simp_all add: owned_by_def demo1_def demo_claim_def claim_next_def zero_peer_state_def
        claim_owner_same_def in_round_def)
  then show ?thesis
    using proc_step.submitting [of "\<lparr>tk_worker = 0, tk_instance = 1, tk_pid = 10, tk_term = 1, tk_round = 1\<rparr>"
        "with_peer 0 demo1 s" 0 "demo_actor 0 10" True "Some 3" 5003000000]
    by (simp add: demo2_def demo_actor_def)
qed

lemma demo_trace: "trace {demo_actor 0 10, demo_actor 1 20} zero_peers_shm demo_labels demo_zone"
proof -
  let ?A = "{demo_actor 0 10, demo_actor 1 20}"
  let ?s1 = "with_peer 0 demo1 zero_peers_shm"
  have "proc_step (demo_actor 0 10) (Claimed 0 False demo1) zero_peers_shm ?s1"
    using demo_claim_step [of zero_peers_shm zero_peer_state 0 10 5000 None 0]
    by (simp add: peer_now_zero demo1_def claim_record_def claim_regular_def zero_peer_state_def demo_claim_def
        claim_owner_same_def)
  then have t1: "trace ?A zero_peers_shm [Claimed 0 False demo1] ?s1"
    using trace_snoc [OF trace_nil, of "demo_actor 0 10" ?A] by auto
  have t2: "trace ?A zero_peers_shm ([Claimed 0 False demo1] @ [Submitted 0 demo1 True]) (with_peer 0 demo2 ?s1)"
    by (rule trace_snoc [OF t1 _ demo_submit_step]) simp
  have "claim_record \<lparr>cl_worker = 0, cl_instance = 1, cl_pid = 10, cl_grace = 1000\<rparr> demo_conf 0 9000 None demo2 =
      (NGX_OK, 0, demo_claim 0 10 9000 demo2)" by code_simp
  then have "proc_step (demo_actor 0 10) (Claimed 0 False demo3) (with_peer 0 demo2 ?s1) demo_zone"
    using demo_claim_step [of "with_peer 0 demo2 ?s1" demo2 0 10 9000 None 0]
    by (simp add: demo3_def demo_zone_def with_peer_def zero_peers_shm_def peer_now_def cell_simps)
  from trace_snoc [OF t2 _ this] show ?thesis by (simp add: demo_labels_def)
qed

lemma demo_takeover_step:
  "proc_step (demo_actor 1 20) (Claimed 0 True demo4) demo_zone (with_peer 0 demo4 demo_zone)"
proof -
  have "claim_record \<lparr>cl_worker = 1, cl_instance = 1, cl_pid = 20, cl_grace = 1000\<rparr> demo_conf 0 13000 (Some demo3) demo3 =
      (NGX_OK, 0, demo_claim 1 20 13000 demo3)" by code_simp
  then show ?thesis
    using demo_claim_step [of demo_zone demo3 1 20 13000 "Some demo3" 0]
    by (simp add: demo4_def demo_zone_def with_peer_def zero_peers_shm_def peer_now_def cell_simps)
qed

lemma demo_trace_takeover: "trace {demo_actor 0 10, demo_actor 1 20} zero_peers_shm
    (demo_labels @ Claimed 0 True demo4 # []) (with_peer 0 demo4 demo_zone)"
  by (rule trace_snoc [OF demo_trace _ demo_takeover_step]) simp

lemma zero_not_in_round: "\<not> in_round (peer_now zero_peers_shm i)"
  by (simp add: peer_now_zero in_round_def zero_peer_state_def)

lemma zero_records_ok: "records_ok zero_peers_shm"
  by (simp add: records_ok_def record_ok_def zero_peers_shm_def down_bit_ok_def zero_peer_shm_def
      peer_current_def slot_get_def zero_peer_state_def zero_health_def health_ok_def delay_wf_def health_delay_def)

theorem rounds_committed_once_witness:
  "distinct (map ps_round (submits 0 demo_labels)) \<and> submits 0 demo_labels = [demo1]"
  using rounds_committed_once [OF demo_trace zero_not_in_round, of 0]
  by (simp add: demo_labels_def submits_def List.map_filter_def)

theorem stale_owners_fenced_witness: "sorted_wrt (\<le>) (map ps_term [demo1, demo3, demo4])"
  using stale_owners_fenced [OF demo_trace_takeover zero_not_in_round]
  by (simp add: demo_labels_def claims_def List.map_filter_def)

theorem probing_cadence_witness:
  "ngx_healthcheck_add_time (ps_started demo1) 3000 \<le> ps_started demo3"
proof -
  have d: "demo_labels = [Claimed 0 False demo1, Submitted 0 demo1 True] @ [Claimed 0 False demo3]"
    by (simp add: demo_labels_def)
  have c: "claims 0 [Claimed 0 False demo1, Submitted 0 demo1 True] = [demo1]"
    by (simp add: claims_def List.map_filter_def)
  have s: "ps_started demo1 \<noteq> 0" by (simp add: demo1_def demo_claim_def claim_next_def)
  from probing_cadence [OF demo_trace [unfolded d], of 3000] show ?thesis
    by (simp add: c s demo_actor_def demo_conf_def)
qed

theorem takeover_waits_for_grace_witness: "ps_term demo3 < ps_term demo4"
  using takeover_waits_for_grace [OF demo_takeover_step]
  by (simp add: demo_zone_def peer_now_def with_peer_def cell_simps)

theorem records_stay_sound_witness: "records_ok demo_zone"
  using records_stay_sound [OF demo_trace zero_records_ok] .


theorem instances_count_registrations_witness:
  "ws_instance (worker_now demo_zone 3) = 0"
proof -
  have "unat (ws_instance (worker_now demo_zone 3)) =
      unat (ws_instance (worker_now zero_peers_shm 3)) + length (filter (\<lambda>l. l = Registered 3) demo_labels)"
    by (rule instances_count_registrations [OF demo_trace])
  then show ?thesis
    by (simp add: demo_labels_def worker_now_def zero_peers_shm_def zero_worker_shm_def worker_current_def
        slot_get_def zero_worker_state_def unat_eq_zero_iff)
qed

end
