(* ===== verification/Guarantee.thy ===== *)
theory Guarantee
  imports Schedule Protocol
begin

text \<open>
  What every handler of a process guarantees, whatever its tapes answer: it gives back every lock it
  took, it leaves its configuration alone, and it changes the shared zone by the steps of the protocol
  only.  The guarantee is a preorder on process states that is proved handler by handler; composition
  is a locale, so that the handlers without a critical section follow from their parts.
\<close>

section \<open>Relations that compose\<close>

text \<open>
  A reflexive and transitive relation between the states before and after is kept by every action that
  is built from actions that keep it.
\<close>

locale composable =
  fixes R :: "process \<Rightarrow> process \<Rightarrow> bool"
  assumes refl: "R w w" and trans: "R u v \<Longrightarrow> R v w \<Longrightarrow> R u w"
begin

abbreviation keeps :: "'a act \<Rightarrow> bool" where "keeps \<equiv> state_io_rel R"

lemma keeps_ret: "keeps (ret x)"
  by (simp add: state_io_rel_def refl)

lemma keeps_gets: "keeps (gets f)"
  by (simp add: state_io_rel_def refl)

lemma keeps_modify: "(\<And>w. R w (f w)) \<Longrightarrow> keeps (modify f)"
  by (simp add: state_io_rel_def)

lemma keeps_bind: "keeps m \<Longrightarrow> (\<And>x. keeps (f x)) \<Longrightarrow> keeps (State_Monad.bind m f)"
  unfolding state_io_rel_def by (auto split: prod.split) (metis snd_conv trans)

lemma keeps_when: "(b \<Longrightarrow> keeps m) \<Longrightarrow> keeps (when b m)"
  by (simp add: when_def keeps_ret)

lemma keeps_if: "(b \<Longrightarrow> keeps m) \<Longrightarrow> (\<not> b \<Longrightarrow> keeps n) \<Longrightarrow> keeps (if b then m else n)"
  by simp

lemma keeps_option: "keeps m \<Longrightarrow> (\<And>x. keeps (f x)) \<Longrightarrow> keeps (case o' of None \<Rightarrow> m | Some x \<Rightarrow> f x)"
  by (simp split: option.split)

lemma keeps_pair: "(\<And>x y. keeps (f x y)) \<Longrightarrow> keeps (case p of (x, y) \<Rightarrow> f x y)"
  by (simp split: prod.split)

lemma keeps_let: "(\<And>x. keeps (f x)) \<Longrightarrow> keeps (let x = t in f x)"
  by (simp add: Let_def)

lemma keeps_locked: "(\<And>st. keeps (f st)) \<Longrightarrow> (\<And>rc. keeps (g rc)) \<Longrightarrow>
    keeps (case r of Locked st \<Rightarrow> f st | Refused rc \<Rightarrow> g rc)"
  by (simp split: locked.split)

lemmas keeps_rules = keeps_ret keeps_gets keeps_bind keeps_when keeps_if keeps_option keeps_pair keeps_let
  keeps_locked

end

section \<open>The guarantee\<close>

definition actor_of :: "process \<Rightarrow> actor" where
  "actor_of w = \<lparr>ac_worker = r_worker w, ac_pid = k_pid w, ac_conf = (\<lambda>i. p_conf (pr_peers w ! i)),
     ac_grace = r_grace w\<rparr>"

text \<open>A property of the zone that no step of the process breaks.\<close>

definition step_closed :: "actor \<Rightarrow> (peers_shm \<Rightarrow> bool) \<Rightarrow> bool" where
  "step_closed a P \<longleftrightarrow> (\<forall>l s s'. proc_step a l s s' \<longrightarrow> P s \<longrightarrow> P s')"

text \<open>The fields that are fixed once the runtime has been initialised.\<close>

definition same_setup :: "process \<Rightarrow> process \<Rightarrow> bool" where
  "same_setup w w' \<longleftrightarrow>
     pr_peers w' = pr_peers w \<and> pr_generation w' = pr_generation w \<and> pr_module w' = pr_module w \<and>
     pr_workers w' = pr_workers w \<and> r_worker w' = r_worker w \<and> k_pid w' = k_pid w \<and>
     r_grace w' = r_grace w \<and> r_interval w' = r_interval w \<and> r_preference w' = r_preference w \<and>
     r_present w' = r_present w"

definition drifts :: "process \<Rightarrow> process \<Rightarrow> bool" where
  "drifts w w' \<longleftrightarrow> same_setup w w' \<and> (\<forall>P. step_closed (actor_of w) P \<longrightarrow> guarded P w \<longrightarrow> guarded P w')"

definition evolves :: "process \<Rightarrow> process \<Rightarrow> bool" where
  "evolves w w' \<longleftrightarrow> drifts w w' \<and> k_held w' = k_held w"

lemma actor_of_same: "same_setup w w' \<Longrightarrow> actor_of w' = actor_of w"
  by (simp add: same_setup_def actor_of_def)

lemma drifts_refl: "drifts w w"
  by (simp add: drifts_def same_setup_def)

lemma drifts_trans: "drifts u v \<Longrightarrow> drifts v w \<Longrightarrow> drifts u w"
  by (auto simp: drifts_def actor_of_same) (simp add: same_setup_def)

lemma evolves_trans: "evolves u v \<Longrightarrow> evolves v w \<Longrightarrow> evolves u w"
  by (auto simp: evolves_def intro: drifts_trans)

interpretation ev: composable evolves
proof
  show "evolves w w" for w by (simp add: evolves_def drifts_refl)
  show "evolves u v \<Longrightarrow> evolves v w \<Longrightarrow> evolves u w" for u v w by (rule evolves_trans)
qed

text \<open>A change outside the zone, the locks and the tape of the others.\<close>

lemma drifts_local:
  "same_setup w w' \<Longrightarrow> k_shm w' = k_shm w \<Longrightarrow> k_try w' = k_try w \<Longrightarrow> drifts w w'"
  by (simp add: drifts_def guarded_def)

lemma evolves_local:
  "same_setup w w' \<Longrightarrow> k_shm w' = k_shm w \<Longrightarrow> k_try w' = k_try w \<Longrightarrow> k_held w' = k_held w \<Longrightarrow> evolves w w'"
  by (simp add: evolves_def drifts_local)

text \<open>A step of the protocol.\<close>

lemma drifts_step:
  assumes "proc_step (actor_of w) l (k_shm w) s" and "w' = w\<lparr>k_shm := s\<rparr>"
  shows "drifts w w'"
  using assms by (auto simp: drifts_def same_setup_def guarded_def step_closed_def)

lemma drifts_unlock: "drifts w (shmtx_unlock l w)"
  by (rule drifts_local) (simp_all add: shmtx_unlock_def same_setup_def)

lemma drifts_lock:
  assumes "ngx_healthcheck_lock l limit w = (rc, w')"
  shows "drifts w w' \<and> k_held w' = (if rc = NGX_OK then l # k_held w else k_held w)"
proof -
  have "same_setup w w'" "k_held w' = (if rc = NGX_OK then l # k_held w else k_held w)"
    using assms by (cases rule: lockE; simp add: same_setup_def)+
  with guarded_lock [OF assms] show ?thesis by (simp add: drifts_def)
qed

section \<open>Primitives\<close>

lemma keeps_state: "(\<And>w r w'. f w = (r, w') \<Longrightarrow> evolves w w') \<Longrightarrow> ev.keeps (State f)"
  unfolding state_io_rel_def by (metis state.sel prod.collapse)

lemma keeps_local:
  "(\<And>w r w'. f w = (r, w') \<Longrightarrow> same_setup w w' \<and> k_shm w' = k_shm w \<and> k_try w' = k_try w \<and> k_held w' = k_held w)
    \<Longrightarrow> ev.keeps (State f)"
  by (rule keeps_state) (auto intro: evolves_local)

lemma evolves_now: "ngx_healthcheck_now w = (r, w') \<Longrightarrow> evolves w w'"
  by (rule evolves_local) (auto elim!: nowE simp: same_setup_def)

lemma keeps_primitives:
  "ev.keeps read_clock" "ev.keeps quitting" "ev.keeps pool_alloc" "ev.keeps event_call" "ev.keeps sys_setsockopt"
  "ev.keeps ngx_random" "ev.keeps sys_recv" "ev.keeps sys_send" "ev.keeps getsockopt_error" "ev.keeps connect_peer"
  unfolding read_clock_def quitting_def pool_alloc_def event_call_def sys_setsockopt_def ngx_random_def sys_recv_def
    sys_send_def getsockopt_error_def connect_peer_def
  by (rule keeps_state, erule evolves_now)
    (rule keeps_local, auto simp: same_setup_def Let_def split: list.splits prod.splits)+

lemma keeps_updates:
  "ev.keeps (upd_local i f)" "ev.keeps (upd_probe i g)" "ev.keeps (upd_conn i h)" "ev.keeps (get_conn i)"
  "ev.keeps (arm_check i d)" "ev.keeps (disarm_check i)" "ev.keeps (arm_timeout i d)" "ev.keeps (arm_watch d)"
proof -
  have "ev.keeps (upd_local i f)" for f
    unfolding upd_local_def by (rule ev.keeps_modify, rule evolves_local) (simp_all add: same_setup_def)
  then show "ev.keeps (upd_local i f)" "ev.keeps (upd_probe i g)" "ev.keeps (upd_conn i h)"
    "ev.keeps (arm_check i d)" "ev.keeps (disarm_check i)" "ev.keeps (arm_timeout i d)"
    by (simp_all add: upd_probe_def upd_conn_def arm_check_def disarm_check_def arm_timeout_def)
  show "ev.keeps (get_conn i)" by (simp add: get_conn_def ev.keeps_gets)
  show "ev.keeps (arm_watch d)"
    unfolding arm_watch_def by (rule ev.keeps_modify, rule evolves_local) (simp_all add: same_setup_def)
qed

lemmas guarantee = ev.keeps_rules keeps_primitives keeps_updates

section \<open>Critical sections\<close>

text \<open>
  Between taking and dropping a lock the zone changes by one step.  The rules put the pieces of a
  section together: what happened up to the lock, the step, and the unlocking.
\<close>

lemma drifts_held: "drifts w w' \<Longrightarrow> k_held w' = k_held w \<Longrightarrow> evolves w w'"
  by (simp add: evolves_def)

lemma unlock_fields [simp]:
  "k_held (shmtx_unlock l w) = remove1 l (k_held w)" "k_shm (shmtx_unlock l w) = k_shm w"
  "r_worker (shmtx_unlock l w) = r_worker w"
  by (simp_all add: shmtx_unlock_def)

lemma run_locks [simp]:
  "run_state (take_lock l limit) w = ngx_healthcheck_lock l limit w"
  "run_state (drop_lock l) w = ((), shmtx_unlock l w)"
  "run_state (when b m) w = (if b then run_state m w else ((), w))"
  by (simp_all add: take_lock_def drop_lock_def when_def)

lemma worker_index_drifts: "drifts w w' \<Longrightarrow> worker_index w' = worker_index w"
  by (simp add: drifts_def same_setup_def worker_index_def)

lemma publish_peer_step:
  "publish_peer i st w = w\<lparr>k_shm := with_peer i st (k_shm w)\<rparr>"
  by (simp add: publish_peer_def with_peer_def)

lemma publish_worker_step:
  "publish_worker i st w = w\<lparr>k_shm := with_worker i st (k_shm w)\<rparr>"
  by (simp add: publish_worker_def with_worker_def)

lemma shm_peer_state_now: "shm_peer_state i w = peer_now (k_shm w) i"
  by (simp add: shm_peer_state_def peer_now_def)

lemma shm_worker_state_now: "shm_worker_state i w = worker_now (k_shm w) i"
  by (simp add: shm_worker_state_def worker_now_def)

lemma evolves_read_peer: "ngx_healthcheck_read_peer i limit w = (r, w') \<Longrightarrow> evolves w w'"
proof -
  assume r: "ngx_healthcheck_read_peer i limit w = (r, w')"
  then have "same_setup w w' \<and> k_held w' = k_held w"
    by (cases rule: read_peerE) (simp_all add: same_setup_def)
  with guarded_read_peer [OF r] show ?thesis by (simp add: evolves_def drifts_def)
qed

lemma evolves_read_worker: "ngx_healthcheck_read_worker i limit w = (r, w') \<Longrightarrow> evolves w w'"
proof -
  assume r: "ngx_healthcheck_read_worker i limit w = (r, w')"
  obtain rc w1 where l: "ngx_healthcheck_lock (WorkerLock i) limit w = (rc, w1)" by fastforce
  note d = drifts_lock [OF l]
  show ?thesis
  proof (cases "rc = NGX_OK")
    case True
    with r l have "w' = shmtx_unlock (WorkerLock i) w1" by (simp add: ngx_healthcheck_read_worker_def)
    with d True drifts_unlock [of w1 "WorkerLock i"] show ?thesis
      by (auto intro!: drifts_held intro: drifts_trans)
  next
    case False
    with r l have "w' = w1" by (simp add: ngx_healthcheck_read_worker_def split: ngx_rc.splits)
    with d False show ?thesis by (auto intro: drifts_held)
  qed
qed

lemma keeps_activate: "ev.keeps (activate now limit)"
proof
  fix b w w'
  assume r: "run_state (activate now limit) w = (b, w')"
  obtain rc w1 where l: "ngx_healthcheck_lock ActivationLock limit w = (rc, w1)" by fastforce
  note d = drifts_lock [OF l]
  show "evolves w w'"
  proof (cases "shm_activated (k_shm w) \<noteq> 0 \<or> rc \<noteq> NGX_OK")
    case True
    with r l d show ?thesis
      by (auto simp: activate_def ev.refl intro: drifts_held split: if_splits)
  next
    case False
    let ?t = "w1\<lparr>k_shm := (k_shm w1)\<lparr>shm_activated_at := now div 1000000\<rparr>\<rparr>"
    let ?f = "?t\<lparr>k_shm := (k_shm ?t)\<lparr>shm_activated := 1\<rparr>\<rparr>"
    let ?w2 = "if shm_activated (k_shm w1) \<noteq> 0 then w1 else ?f"
    from False r l have w': "w' = shmtx_unlock ActivationLock ?w2"
      by (auto simp: activate_def split: if_splits)
    have "drifts w1 ?t" if "shm_activated (k_shm w1) = 0"
      by (rule drifts_step [OF proc_step.activation_time [OF that]]) simp
    moreover have "drifts ?t ?f" if "shm_activated (k_shm w1) = 0"
      by (rule drifts_step [OF proc_step.activation_flag]) (use that in auto)
    ultimately have "drifts w1 ?w2" by (auto intro: drifts_trans drifts_refl)
    with d drifts_unlock have "drifts w w'" unfolding w' by (blast intro: drifts_trans)
    moreover have "k_held w' = k_held w" using d False by (simp add: w')
    ultimately show ?thesis by (rule drifts_held)
  qed
qed

text \<open>A section under the own worker lock that may publish a registration.\<close>

lemma evolves_worker_section:
  assumes l: "ngx_healthcheck_lock (WorkerLock (worker_index w)) limit w = (NGX_OK, w1)"
    and step: "w2 = w1 \<or> (\<exists>st la. w2 = w1\<lparr>k_shm := with_worker (worker_index w) st (k_shm w1)\<rparr> \<and>
      proc_step (actor_of w) la (k_shm w1) (with_worker (worker_index w) st (k_shm w1)))"
    and same: "same_setup w2 w3" "k_shm w3 = k_shm w2" "k_try w3 = k_try w2" "k_held w3 = k_held w2"
  shows "evolves w (shmtx_unlock (WorkerLock (worker_index w)) w3)"
proof -
  note d = drifts_lock [OF l]
  have a: "actor_of w1 = actor_of w" using d by (auto simp: drifts_def intro: actor_of_same)
  have "drifts w1 w2"
  proof -
    from step consider "w2 = w1" | st la where "w2 = w1\<lparr>k_shm := with_worker (worker_index w) st (k_shm w1)\<rparr>"
      "proc_step (actor_of w) la (k_shm w1) (with_worker (worker_index w) st (k_shm w1))" by blast
    then show ?thesis
    proof cases
      case 2
      show ?thesis by (rule drifts_step [of _ la]) (use 2 a in auto)
    qed (simp add: drifts_refl)
  qed
  moreover have "drifts w2 w3" by (rule drifts_local [OF same(1-3)])
  ultimately have "drifts w (shmtx_unlock (WorkerLock (worker_index w)) w3)"
    using d drifts_unlock by (blast intro: drifts_trans)
  moreover have "k_held w2 = k_held w1" using step by auto
  then have "k_held (shmtx_unlock (WorkerLock (worker_index w)) w3) = k_held w" using d same(4) by simp
  ultimately show ?thesis by (rule drifts_held)
qed

lemma register_step:
  assumes "register_record registered inst (k_pid w) ms (worker_now s (worker_index w)) = Inr st"
  shows "\<exists>la. proc_step (actor_of w) la s (with_worker (worker_index w) st s)"
proof (cases registered)
  case True
  with assms show ?thesis
    using proc_step.heartbeat [of inst "actor_of w" ms s st]
    by (auto simp: actor_of_def worker_index_def)
next
  case False
  with assms show ?thesis
    using proc_step.registration [of inst "actor_of w" ms s st]
    by (auto simp: actor_of_def worker_index_def)
qed

lemma keeps_register_section: "ev.keeps (do {
            me \<leftarrow> gets worker_index;
            rc \<leftarrow> take_lock (WorkerLock me) limit;
            if rc \<noteq> NGX_OK then ret NGX_AGAIN
            else do {
              w \<leftarrow> gets id;
              (case register_record (r_registered w) (r_instance w) (k_pid w) ms
                      (shm_worker_state me w) of
                 Inl rc \<Rightarrow> do { drop_lock (WorkerLock me); ret rc }
               | Inr state \<Rightarrow> do {
                   modify (publish_worker me state);
                   modify (\<lambda>w. w\<lparr>r_instance := ws_instance state, r_registered := True\<rparr>);
                   drop_lock (WorkerLock me);
                   ret NGX_OK
                 })
            }
          })" (is "ev.keeps ?m")
proof
  fix r w w'
  assume run: "run_state ?m w = (r, w')"
  obtain rc w1 where l: "ngx_healthcheck_lock (WorkerLock (worker_index w)) limit w = (rc, w1)" by fastforce
  note d = drifts_lock [OF l]
  have idx: "worker_index w1 = worker_index w" "k_pid w1 = k_pid w"
    using d worker_index_drifts by (auto simp: drifts_def same_setup_def)
  show "evolves w w'"
  proof (cases "rc = NGX_OK")
    case False
    with run l d show ?thesis by (auto intro: drifts_held)
  next
    case ok: True
    show ?thesis
    proof (cases "register_record (r_registered w1) (r_instance w1) (k_pid w1) ms (shm_worker_state (worker_index w) w1)")
      case (Inl e)
      with run l ok have "w' = shmtx_unlock (WorkerLock (worker_index w)) w1" by simp
      with evolves_worker_section [OF l [unfolded ok], of w1 w1] show ?thesis by (simp add: same_setup_def)
    next
      case (Inr st)
      let ?w2 = "w1\<lparr>k_shm := with_worker (worker_index w) st (k_shm w1)\<rparr>"
      let ?w3 = "?w2\<lparr>r_instance := ws_instance st, r_registered := True\<rparr>"
      from Inr run l ok have w': "w' = shmtx_unlock (WorkerLock (worker_index w)) ?w3"
        by (simp add: publish_worker_step)
      from register_step [of "r_registered w1" "r_instance w1" w ms "k_shm w1" st] Inr idx
      have "\<exists>la. proc_step (actor_of w) la (k_shm w1) (with_worker (worker_index w) st (k_shm w1))"
        by (simp add: shm_worker_state_now)
      then show ?thesis unfolding w'
        by (intro evolves_worker_section [OF l [unfolded ok], of ?w2 ?w3]) (auto simp: same_setup_def)
    qed
  qed
qed

lemma keeps_register: "ev.keeps (ngx_healthcheck_register limit)"
  unfolding ngx_healthcheck_register_def
  by (intro ev.keeps_bind ev.keeps_option ev.keeps_ret ev.keeps_if keeps_primitives keeps_activate
      keeps_register_section)

lemma keeps_stop_registration: "ev.keeps stop_registration"
proof
  fix r w w'
  assume run: "run_state stop_registration w = (r, w')"
  obtain rc w1 where l: "ngx_healthcheck_lock (WorkerLock (worker_index w)) 0 w = (rc, w1)" by fastforce
  note d = drifts_lock [OF l]
  have pid: "k_pid w1 = k_pid w" using d by (auto simp: drifts_def same_setup_def)
  show "evolves w w'"
  proof (cases "rc = NGX_OK")
    case False
    with run l d show ?thesis by (auto simp: stop_registration_def intro: drifts_held)
  next
    case ok: True
    show ?thesis
    proof (cases "exit_record (r_instance w1) (k_pid w1) (shm_worker_state (worker_index w) w1)")
      case None
      with run l ok have "w' = shmtx_unlock (WorkerLock (worker_index w)) w1"
        by (simp add: stop_registration_def)
      with evolves_worker_section [OF l [unfolded ok], of w1 w1] show ?thesis by (simp add: same_setup_def)
    next
      case (Some st)
      let ?w2 = "w1\<lparr>k_shm := with_worker (worker_index w) st (k_shm w1)\<rparr>"
      from Some run l ok have w': "w' = shmtx_unlock (WorkerLock (worker_index w)) ?w2"
        by (simp add: stop_registration_def publish_worker_step)
      from Some pid have "proc_step (actor_of w) Internal (k_shm w1) (with_worker (worker_index w) st (k_shm w1))"
        using proc_step.leaving [of "r_instance w1" "actor_of w" "k_shm w1" st]
        by (simp add: actor_of_def worker_index_def shm_worker_state_now)
      then show ?thesis unfolding w'
        by (intro evolves_worker_section [OF l [unfolded ok], of ?w2 ?w2]) (auto simp: same_setup_def)
    qed
  qed
qed

section \<open>The double lock and what is done under it\<close>

lemma keeps_leaving: "ev.keeps leaving"
  unfolding leaving_def by (intro guarantee)

lemma keeps_owned_limit: "ev.keeps (owned_limit limit)"
  unfolding owned_limit_def by (intro guarantee)

lemma evolves_drifts: "evolves w w' \<Longrightarrow> drifts w w'"
  by (simp add: evolves_def)

text \<open>The part of the double lock after its limit is known.\<close>

definition owned_sections :: "nat \<Rightarrow> nat \<Rightarrow> u64 \<Rightarrow> locked act" where
  "owned_sections i me limit = do {
     rc \<leftarrow> take_lock (WorkerLock me) limit;
     if rc \<noteq> NGX_OK then ret (Refused NGX_AGAIN)
     else do {
       valid \<leftarrow> gets (\<lambda>w. registration_valid (pb_instance (probe_of i w)) (k_pid w) (shm_worker_state me w));
       if \<not> valid then do { drop_lock (WorkerLock me); ret (Refused NGX_DECLINED) }
       else do {
         rc \<leftarrow> take_lock (PeerLock i) limit;
         if rc \<noteq> NGX_OK then do { drop_lock (WorkerLock me); ret (Refused NGX_AGAIN) }
         else do {
           state \<leftarrow> gets (shm_peer_state i);
           t \<leftarrow> gets (probe_token i);
           if \<not> owned_by t state
           then do { drop_lock (PeerLock i); drop_lock (WorkerLock me); ret (Refused NGX_DECLINED) }
           else ret (Locked state)
         }
       }
     }
   }"

lemma owned_sectionsE:
  assumes run: "run_state (owned_sections i me limit) w = (r, w')"
  obtains (refused) rc where "r = Refused rc" "evolves w w'"
  | (locked) "r = Locked (peer_now (k_shm w') i)" "drifts w w'"
      "k_held w' = PeerLock i # WorkerLock me # k_held w"
      "owned_by (probe_token i w') (peer_now (k_shm w') i)"
proof -
  obtain rc w1 where l: "ngx_healthcheck_lock (WorkerLock me) limit w = (rc, w1)" by fastforce
  obtain rc' w2 where l': "ngx_healthcheck_lock (PeerLock i) limit w1 = (rc', w2)" by fastforce
  note d = drifts_lock [OF l] and d' = drifts_lock [OF l']
  note u = drifts_unlock [of w1 "WorkerLock me"] drifts_unlock [of w2 "WorkerLock me"]
    drifts_unlock [of w2 "PeerLock i"] drifts_unlock [of "shmtx_unlock (PeerLock i) w2" "WorkerLock me"]
  let ?valid = "registration_valid (pb_instance (probe_of i w1)) (k_pid w1) (shm_worker_state me w1)"
  let ?owned = "owned_by (probe_token i w2) (shm_peer_state i w2)"
  consider (w) "rc \<noteq> NGX_OK" | (v) "rc = NGX_OK" "\<not> ?valid" | (p) "rc = NGX_OK" "?valid" "rc' \<noteq> NGX_OK"
    | (o) "rc = NGX_OK" "?valid" "rc' = NGX_OK" "\<not> ?owned"
    | (ok) "rc = NGX_OK" "?valid" "rc' = NGX_OK" "?owned" by blast
  then show thesis
  proof cases
    case w
    with run l have "r = Refused NGX_AGAIN" "w' = w1" by (simp_all add: owned_sections_def)
    with d w show thesis by (auto intro: refused drifts_held)
  next
    case v
    with run l have "r = Refused NGX_DECLINED" "w' = shmtx_unlock (WorkerLock me) w1"
      by (simp_all add: owned_sections_def)
    with d v u show thesis by (auto intro!: refused drifts_held intro: drifts_trans)
  next
    case p
    with run l l' have "r = Refused NGX_AGAIN" "w' = shmtx_unlock (WorkerLock me) w2"
      by (simp_all add: owned_sections_def)
    with d d' p u show thesis by (auto intro!: refused drifts_held intro: drifts_trans)
  next
    case o
    with run l l' have "r = Refused NGX_DECLINED" "w' = shmtx_unlock (WorkerLock me) (shmtx_unlock (PeerLock i) w2)"
      by (simp_all add: owned_sections_def)
    with d d' o u show thesis by (auto intro!: refused drifts_held intro: drifts_trans)
  next
    case ok
    with run l l' have "r = Locked (shm_peer_state i w2)" "w' = w2" by (auto simp: owned_sections_def)
    with d d' ok show thesis by (auto intro!: locked intro: drifts_trans simp: shm_peer_state_now)
  qed
qed

lemma owned_lock_sections:
  "ngx_healthcheck_owned_lock i limit = do {
     gone \<leftarrow> leaving;
     w \<leftarrow> gets id;
     if gone \<or> pb_generation (probe_of i w) \<noteq> pr_generation w then ret (Refused NGX_DECLINED)
     else do {
       limit \<leftarrow> owned_limit limit;
       (case limit of
          None \<Rightarrow> ret (Refused NGX_AGAIN)
        | Some limit \<Rightarrow> owned_sections i (worker_index w) limit)
     }
   }"
  unfolding ngx_healthcheck_owned_lock_def owned_sections_def ..

lemma owned_lockE:
  assumes run: "run_state (ngx_healthcheck_owned_lock i limit) w = (r, w')"
  obtains (refused) rc where "r = Refused rc" "evolves w w'"
  | (locked) "r = Locked (peer_now (k_shm w') i)" "drifts w w'"
      "k_held w' = PeerLock i # WorkerLock (worker_index w) # k_held w"
      "owned_by (probe_token i w') (peer_now (k_shm w') i)"
proof -
  obtain gone w1 where g: "run_state leaving w = (gone, w1)" by fastforce
  obtain lim w2 where lim: "run_state (owned_limit limit) w1 = (lim, w2)" by fastforce
  have e1: "evolves w w1" using keeps_leaving g by (rule state_io_relD)
  have e2: "evolves w1 w2" using keeps_owned_limit lim by (rule state_io_relD)
  have idx: "worker_index w1 = worker_index w" using e1 by (simp add: evolves_def worker_index_drifts)
  show thesis
  proof (cases "gone \<or> pb_generation (probe_of i w1) \<noteq> pr_generation w1")
    case True
    with run g have "r = Refused NGX_DECLINED" "w' = w1"
      by (auto simp: owned_lock_sections split: if_splits)
    with e1 show thesis by (auto intro: refused)
  next
    case nogo: False
    show thesis
    proof (cases lim)
      case None
      with run g lim nogo have "r = Refused NGX_AGAIN" "w' = w2" by (auto simp: owned_lock_sections)
      with e1 e2 show thesis by (auto intro: refused evolves_trans)
    next
      case (Some l)
      with run g lim nogo have sec: "run_state (owned_sections i (worker_index w) l) w2 = (r, w')"
        by (auto simp: owned_lock_sections idx)
      have d: "drifts w w2" "k_held w2 = k_held w" using evolves_trans [OF e1 e2] by (simp_all add: evolves_def)
      from sec show thesis
      proof (cases rule: owned_sectionsE)
        case (refused rc)
        then show thesis using that(1) evolves_trans [OF e1 e2] evolves_trans by blast
      next
        case locked
        then show thesis using that(2) d drifts_trans by metis
      qed
    qed
  qed
qed

text \<open>Unlocking after a section that changed the zone by at most one step.\<close>

lemma run_owned_unlock:
  "run_state (ngx_healthcheck_owned_unlock i) w =
     ((), shmtx_unlock (WorkerLock (worker_index w)) (shmtx_unlock (PeerLock i) w))"
  by (simp add: ngx_healthcheck_owned_unlock_def worker_index_def)

lemma evolves_owned_section:
  assumes l: "run_state (ngx_healthcheck_owned_lock i limit) w = (Locked st, w1)"
    and d: "drifts w1 w2" "k_held w2 = k_held w1"
  shows "evolves w (shmtx_unlock (WorkerLock (worker_index w2)) (shmtx_unlock (PeerLock i) w2))"
  using l
proof (cases rule: owned_lockE)
  case locked
  have "drifts w w2" using locked(2) d(1) by (rule drifts_trans)
  moreover from this have "worker_index w2 = worker_index w" by (rule worker_index_drifts)
  moreover note drifts_trans [OF drifts_trans [OF \<open>drifts w w2\<close> drifts_unlock] drifts_unlock]
  ultimately show ?thesis
    using locked(3) d(2) by (auto intro!: drifts_held)
qed simp

lemma probe_token_fields:
  "tk_worker (probe_token i w) = ac_worker (actor_of w)" "tk_pid (probe_token i w) = ac_pid (actor_of w)"
  by (simp_all add: probe_token_def actor_of_def Let_def)

lemma keeps_probe_valid: "ev.keeps (ngx_healthcheck_probe_valid i)"
proof
  fix r w w'
  assume run: "run_state (ngx_healthcheck_probe_valid i) w = (r, w')"
  obtain l w1 where l: "run_state (ngx_healthcheck_owned_lock i 0) w = (l, w1)" by fastforce
  show "evolves w w'"
  proof (cases l)
    case (Locked st)
    with run l have "w' = shmtx_unlock (WorkerLock (worker_index w1)) (shmtx_unlock (PeerLock i) w1)"
      by (simp add: ngx_healthcheck_probe_valid_def run_owned_unlock)
    with evolves_owned_section [OF l [unfolded Locked] drifts_refl] show ?thesis by simp
  next
    case (Refused rc)
    from l show ?thesis
    proof (cases rule: owned_lockE)
      case (refused rc')
      with run l Refused show ?thesis by (simp add: ngx_healthcheck_probe_valid_def)
    qed (use Refused in simp)
  qed
qed

text \<open>A publication of peer \<open>i\<close> that is a step, followed by local changes.\<close>

lemma drifts_publish:
  assumes "proc_step (actor_of w) la (k_shm w) (with_peer i st (k_shm w))"
  shows "drifts w (publish_peer i st w)"
  by (rule drifts_step [OF assms]) (simp add: publish_peer_step)

lemma publish_fields [simp]: "k_held (publish_peer i st w) = k_held w" "k_shm (publish_peer i st w) = with_peer i st (k_shm w)"
  by (simp_all add: publish_peer_step)

lemma keeps_probe_waiting: "ev.keeps (ngx_healthcheck_probe_waiting i)"
proof
  fix r w w'
  assume run: "run_state (ngx_healthcheck_probe_waiting i) w = (r, w')"
  let ?p = "probe_of i w"
  obtain l w1 where l: "run_state (ngx_healthcheck_owned_lock i 0) w = (l, w1)" by fastforce
  show "evolves w w'"
  proof (cases "pb_waiting ?p")
    case True
    with run show ?thesis by (simp add: ngx_healthcheck_probe_waiting_def ev.refl)
  next
    case fresh: False
    show ?thesis
    proof (cases l)
      case (Refused rc)
      from l show ?thesis
      proof (cases rule: owned_lockE)
        case (refused rc')
        with run l Refused fresh show ?thesis by (simp add: ngx_healthcheck_probe_waiting_def)
      qed (use Refused in simp)
    next
      case (Locked st)
      from l Locked have st: "st = peer_now (k_shm w1) i" "owned_by (probe_token i w1) (peer_now (k_shm w1) i)"
        by (cases rule: owned_lockE; simp)+
      let ?w2 = "if ps_phase st = PREPARING then publish_peer i (waiting_record (pb_deadline ?p) st) w1 else w1"
      obtain u w3 where w3: "run_state (upd_probe i (pb_waiting_update (\<lambda>_. True))) ?w2 = (u, w3)"
        by (cases "run_state (upd_probe i (pb_waiting_update (\<lambda>_. True))) ?w2")
      have e3: "evolves ?w2 w3" using keeps_updates(2) w3 by (rule state_io_relD)
      have "proc_step (actor_of w1) Internal (k_shm w1) (with_peer i (waiting_record (pb_deadline ?p) st) (k_shm w1))"
        if "ps_phase st = PREPARING"
        unfolding st(1)
        by (rule proc_step.waiting [OF st(2)]) (use that st(1) in \<open>simp_all add: probe_token_fields\<close>)
      then have "drifts w1 ?w2" by (cases "ps_phase st = PREPARING") (auto intro: drifts_publish drifts_refl)
      with e3 have d: "drifts w1 w3" "k_held w3 = k_held w1"
        by (auto simp: evolves_def intro: drifts_trans split: if_splits)
      from run l Locked fresh w3 have "w' = shmtx_unlock (WorkerLock (worker_index w3)) (shmtx_unlock (PeerLock i) w3)"
        by (auto simp: ngx_healthcheck_probe_waiting_def run_owned_unlock split: if_splits)
      with evolves_owned_section [OF l [unfolded Locked] d] show ?thesis by simp
    qed
  qed
qed

lemma keeps_submit: "ev.keeps (ngx_healthcheck_submit i limit)"
proof
  fix r w w'
  assume run: "run_state (ngx_healthcheck_submit i limit) w = (r, w')"
  obtain l w1 where l: "run_state (ngx_healthcheck_owned_lock i limit) w = (l, w1)" by fastforce
  show "evolves w w'"
  proof (cases l)
    case (Refused rc)
    from l show ?thesis
    proof (cases rule: owned_lockE)
      case (refused rc')
      with run l Refused show ?thesis by (simp add: ngx_healthcheck_submit_def)
    qed (use Refused in simp)
  next
    case (Locked st)
    from l Locked have st: "st = peer_now (k_shm w1) i" by (cases rule: owned_lockE; simp)
    have own: "owned_by (probe_token i w1) (peer_now (k_shm w1) i)"
      using l Locked by (cases rule: owned_lockE; simp)
    note close = evolves_owned_section [OF l [unfolded Locked]]
    let ?gate = "if ps_phase st \<noteq> PREPARING \<and> ps_phase st \<noteq> INFLIGHT then ret True else quitting"
    obtain gone w2 where g: "run_state ?gate w1 = (gone, w2)" by fastforce
    have "ev.keeps ?gate" by (intro guarantee)
    from this g have e2: "evolves w1 w2" by (rule state_io_relD)
    have s2: "k_shm w2 = k_shm w1" "pr_local w2 = pr_local w1"
      using g by (auto simp: quitting_def split: if_splits list.splits)
    show ?thesis
    proof (cases gone)
      case True
      with run l Locked g have "w' = shmtx_unlock (WorkerLock (worker_index w2)) (shmtx_unlock (PeerLock i) w2)"
        by (simp add: ngx_healthcheck_submit_def run_owned_unlock)
      with close e2 show ?thesis by (simp add: evolves_def)
    next
      case stay: False
      then have round: "in_round st" using g by (auto simp: in_round_def split: if_splits)
      obtain t w3 where c: "ngx_healthcheck_now w2 = (t, w3)" by fastforce
      have e3: "evolves w1 w3" using e2 evolves_now [OF c] by (rule evolves_trans)
      have s3: "k_shm w3 = k_shm w1" "pr_local w3 = pr_local w1" "k_pid w3 = k_pid w1" "r_worker w3 = r_worker w1"
        using c s2 e3 by (auto elim!: nowE simp: evolves_def drifts_def same_setup_def)
      show ?thesis
      proof (cases t)
        case None
        with run l Locked g stay c
        have "w' = shmtx_unlock (WorkerLock (worker_index w3)) (shmtx_unlock (PeerLock i) w3)"
          by (simp add: ngx_healthcheck_submit_def run_owned_unlock read_clock_def)
        with close e3 show ?thesis by (simp add: evolves_def)
      next
        case (Some now)
        let ?p = "probe_of i w3"
        let ?st = "submit_record (conf_of i w3) (pb_result ?p) (if pb_sample ?p then Some (pb_delay ?p) else None) now st"
        let ?w4 = "publish_peer i ?st w3"
        let ?w5 = "shmtx_unlock (WorkerLock (worker_index ?w4)) (shmtx_unlock (PeerLock i) ?w4)"
        let ?rest = "do {
           upd_probe i (pb_pending_update (\<lambda>_. False));
           when (h_access_time (ps_health ?st) \<ge> submit_next (conf_of i w3) st) (arm_check i 0);
           ret NGX_OK }"
        have "probe_token i w3 = probe_token i w1" using s3 by (simp add: probe_token_def probe_of_def)
        with own have own3: "owned_by (probe_token i w3) (peer_now (k_shm w3) i)" by (simp add: s3)
        have "proc_step (actor_of w3) (Submitted i (peer_now (k_shm w3) i) (pb_result ?p)) (k_shm w3) (with_peer i ?st (k_shm w3))"
          using proc_step.submitting [OF own3 probe_token_fields, of "pb_result ?p" "if pb_sample ?p then Some (pb_delay ?p) else None" now]
            round st
          by (simp add: s3 actor_of_def conf_of_def peer_of_def)
        then have "drifts w3 ?w4" by (rule drifts_publish)
        with e3 have "drifts w1 ?w4" "k_held ?w4 = k_held w1" by (auto simp: evolves_def intro: drifts_trans)
        from close [OF this] have e5: "evolves w ?w5" .
        have "ev.keeps ?rest" by (intro guarantee)
        moreover from run l Locked g stay c Some have "run_state ?rest ?w5 = (r, w')"
          by (simp add: ngx_healthcheck_submit_def run_owned_unlock read_clock_def Let_def)
        ultimately have "evolves ?w5 w'" by (rule state_io_relD)
        with e5 show ?thesis by (rule evolves_trans)
      qed
    qed
  qed
qed

section \<open>Claiming\<close>

lemma keeps_claim_locked: "ev.keeps (claim_locked i takeover ms limit)"
proof
  fix r w w'
  assume run: "run_state (claim_locked i takeover ms limit) w = (r, w')"
  let ?me = "worker_index w"
  obtain rc w1 where l: "ngx_healthcheck_lock (WorkerLock ?me) limit w = (rc, w1)" by fastforce
  obtain rc' w2 where l': "ngx_healthcheck_lock (PeerLock i) limit w1 = (rc', w2)" by fastforce
  note d = drifts_lock [OF l] and d' = drifts_lock [OF l']
  let ?valid = "registration_valid (r_instance w1) (k_pid w1) (shm_worker_state ?me w1)"
  consider (w) "rc \<noteq> NGX_OK" | (v) "rc = NGX_OK" "\<not> ?valid" | (p) "rc = NGX_OK" "?valid" "rc' \<noteq> NGX_OK"
    | (ok) "rc = NGX_OK" "?valid" "rc' = NGX_OK" by blast
  then show "evolves w w'"
  proof cases
    case w
    with run l d show ?thesis by (auto simp: claim_locked_def intro: drifts_held)
  next
    case v
    with run l have "w' = shmtx_unlock (WorkerLock ?me) w1" by (simp add: claim_locked_def)
    with d v drifts_unlock [of w1 "WorkerLock ?me"] show ?thesis
      by (auto intro!: drifts_held intro: drifts_trans)
  next
    case p
    with run l l' have "w' = shmtx_unlock (WorkerLock ?me) w2" by (simp add: claim_locked_def)
    moreover have "drifts w (shmtx_unlock (WorkerLock ?me) w2)"
      using drifts_trans [OF drifts_trans [OF _ _] drifts_unlock] d d' by blast
    ultimately show ?thesis using d d' p by (auto intro!: drifts_held)
  next
    case ok
    obtain rc2 wait st where c: "claim_record (claimant_of w2) (conf_of i w2) (shm_activated_at (k_shm w2)) ms takeover
        (shm_peer_state i w2) = (rc2, wait, st)" by (metis prod.exhaust)
    let ?w3 = "if rc2 = NGX_OK then publish_peer i st w2 else w2"
    from run l l' ok c have w': "w' = shmtx_unlock (WorkerLock ?me) (shmtx_unlock (PeerLock i) ?w3)"
      by (auto simp: claim_locked_def Let_def split: if_splits)
    have "drifts w2 ?w3"
    proof (cases "rc2 = NGX_OK")
      case True
      with c have "claim_record \<lparr>cl_worker = ac_worker (actor_of w2), cl_instance = r_instance w2,
          cl_pid = ac_pid (actor_of w2), cl_grace = ac_grace (actor_of w2)\<rparr> (ac_conf (actor_of w2) i)
          (shm_activated_at (k_shm w2)) ms takeover (peer_now (k_shm w2) i) = (NGX_OK, wait, st)"
        by (simp add: claimant_of_def actor_of_def conf_of_def peer_of_def shm_peer_state_now)
      from drifts_publish [OF proc_step.claiming [OF this]] True show ?thesis by simp
    qed (simp add: drifts_refl)
    then have "drifts w ?w3" using d d' drifts_trans by blast
    then have "drifts w w'" unfolding w' using drifts_trans drifts_unlock by blast
    moreover have "k_held ?w3 = PeerLock i # WorkerLock ?me # k_held w" using d d' ok by auto
    then have "k_held w' = k_held w" by (simp add: w')
    ultimately show ?thesis by (rule drifts_held)
  qed
qed

section \<open>All handlers\<close>

lemmas guarantee_sections = keeps_activate keeps_register keeps_stop_registration keeps_leaving keeps_probe_valid
  keeps_probe_waiting keeps_submit keeps_claim_locked

lemma keeps_probe_close: "ev.keeps (ngx_healthcheck_probe_close i)"
  unfolding ngx_healthcheck_probe_close_def by (intro guarantee)

lemma keeps_cleanup_with: "ev.keeps idle \<Longrightarrow> ev.keeps (cleanup_with idle i reusable)"
  unfolding cleanup_with_def cleanup_retain_def by (intro guarantee keeps_probe_close)

lemma keeps_stop_peer: "ev.keeps (stop_peer i)"
  unfolding stop_peer_def by (intro guarantee keeps_cleanup_with)

lemma keeps_stop_peers: "ev.keeps (stop_peers is)"
  by (induction "is") (simp_all add: ev.keeps_ret ev.keeps_bind keeps_stop_peer)

lemma keeps_runtime_stop: "ev.keeps ngx_healthcheck_runtime_stop"
proof -
  have m: "ev.keeps (modify (r_stopping_update f))" "ev.keeps (modify (r_cleaned_update f))"
    "ev.keeps (modify (\<lambda>w. w\<lparr>r_watch_timer := None, r_watch_posted := False\<rparr>))" for f
    by (rule ev.keeps_modify, rule evolves_local; simp add: same_setup_def)+
  show ?thesis
    unfolding ngx_healthcheck_runtime_stop_def
    by (intro guarantee m keeps_stop_peers keeps_stop_registration)
qed

lemma keeps_stopping: "ev.keeps ngx_healthcheck_stopping"
  unfolding ngx_healthcheck_stopping_def by (intro guarantee keeps_leaving keeps_runtime_stop)

lemma keeps_start_timers: "ev.keeps ngx_healthcheck_start_timers"
proof -
  have m: "ev.keeps (modify (r_timers_started_update f))" for f
    by (rule ev.keeps_modify, rule evolves_local) (simp_all add: same_setup_def)
  have "ev.keeps (start_timers_loop is)" for "is"
    by (induction "is") (simp_all, (intro guarantee | assumption)+)
  then show ?thesis unfolding ngx_healthcheck_start_timers_def by (intro guarantee m)
qed

lemma keeps_idle_loop: "idle_loop i tape w = (b, w') \<Longrightarrow> evolves w w'"
proof (induction i tape w arbitrary: b w' rule: idle_loop.induct)
  case (1 i w)
  have k: "ev.keeps (idle_keep i)" unfolding idle_keep_def by (intro guarantee)
  have "evolves w (w\<lparr>pr_recv := []\<rparr>)" by (rule evolves_local) (simp_all add: same_setup_def)
  moreover from 1 have "evolves (w\<lparr>pr_recv := []\<rparr>) w'" using state_io_relD [OF k] by simp
  ultimately show ?case by (rule evolves_trans)
next
  case (2 i n e tape w)
  let ?w0 = "w\<lparr>pr_recv := tape\<rparr>"
  let ?m = "upd_probe i (\<lambda>p. p\<lparr>pb_discarded := pb_discarded p + word_of_int n\<rparr>)"
  let ?w1 = "snd (run_state ?m ?w0)"
  have k: "ev.keeps (idle_keep i)" unfolding idle_keep_def by (intro guarantee)
  have e0: "evolves w ?w0" by (rule evolves_local) (simp_all add: same_setup_def)
  have e1: "evolves w ?w1"
    by (rule evolves_trans [OF e0])
      (use keeps_updates(2) [of i "\<lambda>p. p\<lparr>pb_discarded := pb_discarded p + word_of_int n\<rparr>"] in
        \<open>simp only: state_io_rel_def\<close>)
  consider (more) "n > 0" "pb_discarded (probe_of i ?w1) > NGX_HEALTHCHECK_IDLE_DISCARD_MAX"
    | (again) "n > 0" "\<not> pb_discarded (probe_of i ?w1) > NGX_HEALTHCHECK_IDLE_DISCARD_MAX"
    | (intr) "\<not> n > 0" "n = - 1 \<and> e = EINTR" | (wait) "\<not> n > 0" "\<not> (n = - 1 \<and> e = EINTR)" "n = - 1 \<and> e = EAGAIN"
    | (broken) "\<not> n > 0" "\<not> (n = - 1 \<and> e = EINTR)" "\<not> (n = - 1 \<and> e = EAGAIN)" by blast
  then show ?case
  proof cases
    case more
    with 2(3) e1 show ?thesis by (simp add: Let_def)
  next
    case again
    with 2(3) have "idle_loop i tape ?w1 = (b, w')" by (simp add: Let_def)
    from 2(1) [OF again(1) refl again(2) this] e1 show ?thesis by (blast intro: evolves_trans)
  next
    case intr
    with 2(3) have "idle_loop i tape ?w0 = (b, w')" by simp
    from 2(2) [OF intr this] e0 show ?thesis by (blast intro: evolves_trans)
  next
    case wait
    with 2(3) have "run_state (idle_keep i) ?w0 = (b, w')" by auto
    from state_io_relD [OF k this] e0 show ?thesis by (blast intro: evolves_trans)
  next
    case broken
    with 2(3) e0 show ?thesis by auto
  qed
qed

lemma keeps_tcp_idle: "ev.keeps (ngx_healthcheck_tcp_idle i)"
proof -
  have i: "ev.keeps (State (idle_loop i tape))" for tape
    by (rule keeps_state) (rule keeps_idle_loop)
  show ?thesis
    unfolding ngx_healthcheck_tcp_idle_def idle_invalid_def
    by (intro guarantee i keeps_runtime_stop keeps_probe_close keeps_probe_valid)
qed

lemma keeps_cleanup: "ev.keeps (ngx_healthcheck_probe_cleanup i reusable)"
  unfolding ngx_healthcheck_probe_cleanup_def by (intro keeps_cleanup_with keeps_tcp_idle)

lemma keeps_finish: "ev.keeps (ngx_healthcheck_finish i result reason source error)"
  unfolding ngx_healthcheck_finish_def finish_sample_def by (intro guarantee keeps_submit keeps_cleanup)

lemma keeps_timeout: "ev.keeps (ngx_healthcheck_timeout i)"
  unfolding ngx_healthcheck_timeout_def
  by (intro guarantee keeps_probe_valid keeps_runtime_stop keeps_cleanup keeps_finish)

lemma keeps_io_ready: "ev.keeps (ngx_healthcheck_io_ready i)"
  unfolding ngx_healthcheck_io_ready_def
  by (intro guarantee keeps_probe_valid keeps_runtime_stop keeps_cleanup keeps_timeout)

lemma keeps_tcp_peek: "ev.keeps (ngx_healthcheck_tcp_peek i)"
  unfolding ngx_healthcheck_tcp_peek_def by (intro guarantee)

lemma keeps_tcp_event: "ev.keeps (ngx_healthcheck_tcp_event i)"
  unfolding ngx_healthcheck_tcp_event_def by (intro guarantee keeps_io_ready keeps_tcp_peek keeps_finish)

lemma keeps_keepalive: "ev.keeps (ngx_healthcheck_tcp_keepalive tunable)"
proof -
  have "ev.keeps (setsockopts n)" for n
    by (induction n) (simp_all, (intro guarantee | assumption)+)
  then show ?thesis unfolding ngx_healthcheck_tcp_keepalive_def by (intro guarantee)
qed

lemma keeps_udp_error: "ev.keeps (ngx_healthcheck_udp_error i source error)"
  unfolding ngx_healthcheck_udp_error_def by (intro guarantee keeps_finish)

lemma keeps_udp_wait_reply: "ev.keeps (ngx_healthcheck_udp_wait_reply i)"
  unfolding ngx_healthcheck_udp_wait_reply_def by (intro guarantee keeps_finish)

lemma keeps_udp_again: "ev.keeps (udp_write_again i)" "ev.keeps (udp_read_again i)" "ev.keeps (post_write i)"
  "ev.keeps (post_read i)"
  unfolding udp_write_again_def udp_read_again_def post_write_def post_read_def
  by (intro guarantee keeps_finish)+

lemma keeps_udp_loops: "ev.keeps (udp_write_loop i n)" "ev.keeps (udp_query_loop i n)" "ev.keeps (udp_recv_loop i n)"
proof -
  show "ev.keeps (udp_write_loop i n)"
    by (induction n; simp; intro guarantee keeps_io_ready keeps_finish keeps_udp_error keeps_udp_wait_reply keeps_udp_again; assumption?)
  show "ev.keeps (udp_query_loop i n)"
    by (induction n; simp; intro guarantee keeps_io_ready keeps_finish keeps_udp_again; assumption?)
  show "ev.keeps (udp_recv_loop i n)"
    by (induction n; simp; intro guarantee keeps_io_ready keeps_finish keeps_udp_error keeps_udp_again; assumption?)
qed

lemma keeps_udp: "ev.keeps (ngx_healthcheck_udp_write i)" "ev.keeps (ngx_healthcheck_udp_read i)"
  unfolding ngx_healthcheck_udp_write_def ngx_healthcheck_udp_read_def
  by (intro guarantee keeps_io_ready keeps_udp_loops keeps_udp_error)+

lemma keeps_run_handler: "ev.keeps (run_handler h i)"
  unfolding run_handler_def
  by (cases h) (simp_all add: ev.keeps_ret keeps_tcp_event keeps_tcp_idle keeps_udp)

lemma keeps_probe_start: "ev.keeps (ngx_healthcheck_probe_start tunable i)"
proof -
  have "ev.keeps (start_reuse i)" "ev.keeps (start_connect tunable i)" "ev.keeps (start_connected i rc)" for rc
    unfolding start_reuse_def start_connect_def start_connected_def
    by (intro guarantee keeps_probe_close keeps_tcp_peek keeps_finish keeps_keepalive keeps_probe_waiting
        keeps_run_handler)+
  then show ?thesis
    unfolding ngx_healthcheck_probe_start_def
    by (intro guarantee keeps_probe_valid keeps_cleanup keeps_timeout)
qed

lemma keeps_probe_resume: "ev.keeps (ngx_healthcheck_probe_resume tunable i)"
  unfolding ngx_healthcheck_probe_resume_def
  by (intro guarantee keeps_probe_start keeps_probe_waiting keeps_timeout keeps_run_handler)

lemma keeps_claim: "ev.keeps (ngx_healthcheck_claim tunable i takeover limit)"
  unfolding ngx_healthcheck_claim_def claim_slot_def claim_adopt_def
  by (intro guarantee keeps_stopping keeps_claim_locked keeps_probe_start)

lemma keeps_begin: "ev.keeps (ngx_healthcheck_begin tunable i)"
  unfolding ngx_healthcheck_begin_def begin_dispatch_def
  by (intro guarantee keeps_stopping keeps_claim keeps_cleanup)

lemma keeps_preferred: "ev.keeps (ngx_healthcheck_preferred i state ms limit)"
proof -
  have r: "ev.keeps (State (ngx_healthcheck_read_worker j limit))" for j
    by (rule keeps_state) (rule evolves_read_worker)
  have "ev.keeps (preferred_loop i state ms limit js best highest)" for js best highest
    by (induction js arbitrary: best highest) (simp_all, (intro guarantee r | assumption)+)
  then show ?thesis unfolding ngx_healthcheck_preferred_def by (intro guarantee)
qed

lemma keeps_watch_visit: "ev.keeps (watch_visit tunable i limit)"
proof -
  have r: "ev.keeps (State (ngx_healthcheck_read_peer i limit))"
    by (rule keeps_state) (rule evolves_read_peer)
  have "ev.keeps (watch_takeover tunable i state limit)" "ev.keeps (watch_retire i)" for state
    unfolding watch_takeover_def watch_retire_def
    by (intro guarantee keeps_preferred keeps_claim keeps_cleanup)+
  then have "ev.keeps (watch_record tunable i state limit)" for state
    unfolding watch_record_def by (intro guarantee keeps_probe_resume)
  then show ?thesis unfolding watch_visit_def by (intro guarantee r keeps_submit)
qed

lemma keeps_watch: "ev.keeps (ngx_healthcheck_watch tunable)"
proof -
  have m: "ev.keeps (modify (r_budget_update f))" for f
    by (rule ev.keeps_modify, rule evolves_local) (simp_all add: same_setup_def)
  have c: "ev.keeps (modify (\<lambda>w. w\<lparr>r_cursor := f w\<rparr>))" for f
    by (rule ev.keeps_modify, rule evolves_local) (simp_all add: same_setup_def)
  have "ev.keeps (watch_loop tunable n limit)" for n limit
    by (induction n) (simp_all, (intro guarantee c keeps_watch_visit | assumption)+)
  then show ?thesis
    unfolding ngx_healthcheck_watch_def watch_rearm_def
    by (intro guarantee m keeps_stopping keeps_register keeps_runtime_stop)
qed

end
