(* ===== verification/Lifecycle.thy ===== *)
theory Lifecycle
  imports Guarantee
begin

text \<open>
  A process from its first event to its end: the entry points by which nginx calls the module, the
  properties of any sequence of such calls (locks are given back, the zone moves by protocol steps
  only), starting, and stopping, which releases everything and is final.
\<close>

section \<open>Entry points\<close>

text \<open>The timers, the events of the connections and the shutdown hook.\<close>

datatype entry = CheckTimer nat | WatchTimer | ProbeTimeout nat | ConnectionEvent handler nat | Shutdown

fun run_entry :: "bool \<Rightarrow> entry \<Rightarrow> unit act" where
  "run_entry tunable (CheckTimer i) = ngx_healthcheck_begin tunable i"
| "run_entry tunable WatchTimer = ngx_healthcheck_watch tunable"
| "run_entry tunable (ProbeTimeout i) = ngx_healthcheck_timeout i"
| "run_entry tunable (ConnectionEvent h i) = run_handler h i"
| "run_entry tunable Shutdown = ngx_healthcheck_runtime_stop"

fun run_entries :: "bool \<Rightarrow> entry list \<Rightarrow> unit act" where
  "run_entries tunable [] = skip"
| "run_entries tunable (e # es) = do { run_entry tunable e; run_entries tunable es }"

lemma keeps_entry: "ev.keeps (run_entry tunable e)"
  by (cases e) (simp_all add: keeps_begin keeps_watch keeps_timeout keeps_run_handler keeps_runtime_stop)

lemma keeps_entries: "ev.keeps (run_entries tunable es)"
  by (induction es) (simp_all add: ev.keeps_ret ev.keeps_bind keeps_entry)

lemma entries_evolve: "run_state (run_entries tunable es) w = ((), w') \<Longrightarrow> evolves w w'"
  using keeps_entries by (rule state_io_relD)

section \<open>Reachability as a property that steps keep\<close>

definition reachable :: "actor set \<Rightarrow> peers_shm \<Rightarrow> peers_shm \<Rightarrow> bool" where
  "reachable A s0 s \<longleftrightarrow> (\<exists>ls. trace A s0 ls s)"

lemma reachable_closed: "a \<in> A \<Longrightarrow> step_closed a (reachable A s0)"
  unfolding step_closed_def reachable_def by (blast intro: trace_snoc)

section \<open>Starting\<close>

lemma init_evolves:
  assumes "run_state (ngx_healthcheck_runtime_init env) w = (rc, w')"
  shows "evolves w w' \<or> (\<exists>t. evolves (runtime_fields env (w\<lparr>pr_alloc := t\<rparr>)) w')"
proof (cases "pr_peers w = []")
  case True
  with assms show ?thesis by (simp add: ngx_healthcheck_runtime_init_def ev.refl)
next
  case peers: False
  obtain ok t where t: "next_alloc (pr_alloc w) = (ok, t)" by fastforce
  let ?w = "w\<lparr>pr_alloc := t\<rparr>"
  let ?rest = "do {
         time \<leftarrow> read_clock;
         (case time of
            None \<Rightarrow> skip
          | Some now \<Rightarrow> do {
              rc \<leftarrow> ngx_healthcheck_register (ngx_healthcheck_add_time now NGX_HEALTHCHECK_LOCK_NS);
              skip
            });
         ngx_healthcheck_start_timers;
         interval \<leftarrow> gets r_interval;
         arm_watch interval;
         ret NGX_OK
       }"
  have "ev.keeps ?rest" by (intro guarantee keeps_register keeps_start_timers)
  then have rest: "run_state ?rest v = (r, v') \<Longrightarrow> evolves v v'" for v r v' by (rule state_io_relD)
  show ?thesis
  proof (cases ok)
    case True
    with assms peers t have "run_state ?rest (runtime_fields env ?w) = (rc, w')"
      by (simp add: ngx_healthcheck_runtime_init_def pool_alloc_def)
    from rest [OF this] show ?thesis by blast
  next
    case False
    with assms peers t have "w' = ?w" by (simp add: ngx_healthcheck_runtime_init_def pool_alloc_def)
    then show ?thesis by (auto intro: evolves_local simp: same_setup_def)
  qed
qed

section \<open>Stopping\<close>

text \<open>Nothing of a peer is left: no timer, no posted event, no connection, no round.\<close>

definition probe_released :: "probe \<Rightarrow> bool" where
  "probe_released p \<longleftrightarrow> pb_conn p = None \<and> pb_timer p = None \<and> \<not> pb_posted p \<and> \<not> pb_active p \<and> \<not> pb_pending p"

definition peer_released :: "local_peer \<Rightarrow> bool" where
  "peer_released lp \<longleftrightarrow> lp_timer lp = None \<and> \<not> lp_posted lp \<and>
     (case lp_probe lp of None \<Rightarrow> True | Some p \<Rightarrow> probe_released p)"

definition stopped :: "process \<Rightarrow> bool" where
  "stopped w \<longleftrightarrow> r_present w \<and> r_stopping w \<and> r_cleaned w \<and> r_watch_timer w = None \<and> \<not> r_watch_posted w \<and>
     (\<forall>i < length (pr_peers w). peer_released (pr_local w i))"

lemma run_get_conn [simp]: "run_state (get_conn i) w = (pb_conn (probe_of i w), w)"
  by (simp add: get_conn_def)

lemma run_upd_local [simp]:
  "run_state (upd_local i f) w = ((), w\<lparr>pr_local := (pr_local w)(i := f (pr_local w i))\<rparr>)"
  by (simp add: upd_local_def)

lemma run_upd_probe [simp]: "run_state (upd_probe i f) w =
    ((), w\<lparr>pr_local := (pr_local w)(i := (pr_local w i)\<lparr>lp_probe := map_option f (lp_probe (pr_local w i))\<rparr>)\<rparr>)"
  by (simp add: upd_probe_def)

text \<open>What stopping one peer changes: its own slot and the tape of SO_LINGER.\<close>

lemma run_stop_peer:
  "\<exists>lp t. run_state (stop_peer i) w = ((), w\<lparr>pr_local := (pr_local w)(i := lp), pr_setsockopt := t\<rparr>) \<and> peer_released lp"
proof (cases "lp_probe (pr_local w i)")
  case None
  let ?lp = "(pr_local w i)\<lparr>lp_timer := None, lp_posted := False\<rparr>"
  have "run_state (stop_peer i) w = ((), w\<lparr>pr_local := (pr_local w)(i := ?lp), pr_setsockopt := pr_setsockopt w\<rparr>)"
    using None by (simp add: stop_peer_def)
  moreover have "peer_released ?lp" using None by (simp add: peer_released_def)
  ultimately show ?thesis by blast
next
  case (Some p)
  let ?t = "if pb_conn p = None then pr_setsockopt w else snd (next_alloc (pr_setsockopt w))"
  let ?lp = "(pr_local w i)\<lparr>lp_timer := None, lp_posted := False, lp_probe := Some (p\<lparr>pb_conn := None,
      pb_timer := None, pb_posted := False, pb_active := False, pb_pending := False\<rparr>)\<rparr>"
  have "run_state (stop_peer i) w = ((), w\<lparr>pr_local := (pr_local w)(i := ?lp), pr_setsockopt := ?t\<rparr>)"
    using Some by (cases "pb_conn p")
      (auto simp: stop_peer_def cleanup_with_def probe_of_def ngx_healthcheck_probe_close_def
        sys_setsockopt_def split: prod.split intro!: process.equality local_peer.equality probe.equality ext)
  moreover have "peer_released ?lp" by (simp add: peer_released_def probe_released_def)
  ultimately show ?thesis by blast
qed

lemma run_stop_peers:
  "\<exists>l t. run_state (stop_peers is) w = ((), w\<lparr>pr_local := l, pr_setsockopt := t\<rparr>) \<and>
     (\<forall>i \<in> set is. peer_released (l i)) \<and> (\<forall>i. i \<notin> set is \<longrightarrow> l i = pr_local w i)"
proof (induction "is" arbitrary: w)
  case Nil
  show ?case by (intro exI [of _ "pr_local w"] exI [of _ "pr_setsockopt w"]) simp
next
  case (Cons i "is")
  from run_stop_peer [of i w] obtain lp t where
    1: "run_state (stop_peer i) w = ((), w\<lparr>pr_local := (pr_local w)(i := lp), pr_setsockopt := t\<rparr>)" "peer_released lp"
    by blast
  from Cons.IH [of "w\<lparr>pr_local := (pr_local w)(i := lp), pr_setsockopt := t\<rparr>"] obtain l t' where
    2: "run_state (stop_peers is) (w\<lparr>pr_local := (pr_local w)(i := lp), pr_setsockopt := t\<rparr>) =
        ((), w\<lparr>pr_local := l, pr_setsockopt := t'\<rparr>)"
      "\<forall>j \<in> set is. peer_released (l j)" "\<forall>j. j \<notin> set is \<longrightarrow> l j = ((pr_local w)(i := lp)) j" by auto
  have "peer_released (l i)" using 1(2) 2(2,3) by (cases "i \<in> set is") auto
  with 1 2 show ?case by (intro exI [of _ l] exI [of _ t']) auto
qed

text \<open>The registration part touches tapes, locks and the zone only.\<close>

lemma run_stop_registration:
  "\<exists>c t k h s. run_state stop_registration w =
     ((), w\<lparr>k_clock := c, k_try := t, k_kill := k, k_held := h, k_shm := s\<rparr>)"
proof -
  obtain rc w1 where l: "ngx_healthcheck_lock (WorkerLock (worker_index w)) 0 w = (rc, w1)" by fastforce
  then show ?thesis
  proof (cases rule: lockE)
    case (ok c t k s)
    let ?me = "worker_index w"
    let ?s = "case exit_record (r_instance w) (k_pid w) (shm_worker_state ?me w1) of
      None \<Rightarrow> s | Some state \<Rightarrow> with_worker ?me state s"
    have "run_state stop_registration w =
        ((), w\<lparr>k_clock := c, k_try := t, k_kill := k, k_held := remove1 (WorkerLock ?me) (k_held w1), k_shm := ?s\<rparr>)"
      using l ok
      by (simp add: stop_registration_def publish_worker_step shmtx_unlock_def split: option.split)
    then show ?thesis by blast
  next
    case (again c t k s)
    have "run_state stop_registration w = ((), w1)" using l again(1) by (simp add: stop_registration_def)
    moreover have "w1 = w\<lparr>k_clock := c, k_try := t, k_kill := k, k_held := k_held w, k_shm := s\<rparr>"
      using again(2) by simp
    ultimately show ?thesis by metis
  qed
qed

section \<open>Stopping is complete and final\<close>

lemma runtime_stop_releases:
  assumes "r_present w" and "\<not> r_cleaned w"
  shows "stopped (snd (run_state ngx_healthcheck_runtime_stop w))"
proof -
  let ?w = "w\<lparr>r_stopping := True, r_watch_timer := None, r_watch_posted := False\<rparr>"
  obtain l t where 1: "run_state (stop_peers [0 ..< length (pr_peers w)]) ?w = ((), ?w\<lparr>pr_local := l, pr_setsockopt := t\<rparr>)"
    "\<forall>i \<in> set [0 ..< length (pr_peers w)]. peer_released (l i)"
    using run_stop_peers [of "[0 ..< length (pr_peers w)]" ?w] by auto
  let ?v = "?w\<lparr>pr_local := l, pr_setsockopt := t\<rparr>"
  obtain c t' k h s where 2: "run_state stop_registration ?v =
      ((), ?v\<lparr>k_clock := c, k_try := t', k_kill := k, k_held := h, k_shm := s\<rparr>)"
    using run_stop_registration [of ?v] by auto
  show ?thesis using assms 1 2
    by (simp add: ngx_healthcheck_runtime_stop_def stopped_def when_def)
qed

lemma stop_again: "r_present w \<Longrightarrow> r_stopping w \<Longrightarrow> r_cleaned w \<Longrightarrow>
    run_state ngx_healthcheck_runtime_stop w = ((), w)"
  by (simp add: ngx_healthcheck_runtime_stop_def process.equality)

lemma stopping_again: "r_present w \<Longrightarrow> r_stopping w \<Longrightarrow> r_cleaned w \<Longrightarrow>
    run_state ngx_healthcheck_stopping w = (True, w)"
  by (simp add: ngx_healthcheck_stopping_def leaving_def stop_again)

text \<open>An event that can still be delivered: its peer exists, and its probe if it is an event of the probe.\<close>

fun entry_possible :: "process \<Rightarrow> entry \<Rightarrow> bool" where
  "entry_possible w (CheckTimer i) \<longleftrightarrow> i < length (pr_peers w)"
| "entry_possible w WatchTimer \<longleftrightarrow> True"
| "entry_possible w (ProbeTimeout i) \<longleftrightarrow> i < length (pr_peers w) \<and> lp_probe (pr_local w i) \<noteq> None"
| "entry_possible w (ConnectionEvent h i) \<longleftrightarrow> i < length (pr_peers w) \<and> lp_probe (pr_local w i) \<noteq> None"
| "entry_possible w Shutdown \<longleftrightarrow> True"

lemma stopped_probe:
  assumes "stopped w" and "i < length (pr_peers w)" and "lp_probe (pr_local w i) \<noteq> None"
  shows "probe_released (probe_of i w)"
  using assms by (auto simp: stopped_def peer_released_def probe_of_def split: option.splits)

lemma stopped_handlers:
  assumes "probe_released (probe_of i w)"
  shows "run_state (ngx_healthcheck_timeout i) w = ((), w)" "run_state (ngx_healthcheck_io_ready i) w = (False, w)"
    "run_state (ngx_healthcheck_tcp_idle i) w = ((), w)"
  using assms
  by (simp_all add: probe_released_def ngx_healthcheck_timeout_def ngx_healthcheck_io_ready_def ngx_healthcheck_tcp_idle_def)

lemma stopped_handler:
  "probe_released (probe_of i w) \<Longrightarrow> run_state (run_handler h i) w = ((), w)"
  by (cases h) (simp_all add: run_handler_def stopped_handlers ngx_healthcheck_tcp_event_def
      ngx_healthcheck_udp_write_def ngx_healthcheck_udp_read_def)

lemma stopped_entry:
  assumes "stopped w" and "entry_possible w e"
  shows "run_state (run_entry tunable e) w = ((), w)"
proof -
  have r: "r_present w" "r_stopping w" "r_cleaned w" using assms(1) by (simp_all add: stopped_def)
  note s = stop_again [OF r] stopping_again [OF r]
  show ?thesis using assms
    by (cases e) (simp_all add: s ngx_healthcheck_begin_def ngx_healthcheck_watch_def stopped_probe
        stopped_handler stopped_handlers)
qed

lemma stopped_entries:
  "stopped w \<Longrightarrow> \<forall>e \<in> set es. entry_possible w e \<Longrightarrow> run_state (run_entries tunable es) w = ((), w)"
  by (induction es) (simp_all add: stopped_entry)

section \<open>Progress\<close>

text \<open>
  The moments at which nobody contends: the next two attempts to take a lock succeed with nothing
  happening before them, and the next three readings of the clock come before the limit.
\<close>

definition uncontended :: "u64 \<Rightarrow> process \<Rightarrow> bool" where
  "uncontended limit w \<longleftrightarrow>
     (\<exists>a b c x y z ts r. k_clock w = a # b # c # ts \<and> timespec_ns a = Some x \<and> x < limit \<and>
        timespec_ns b = Some y \<and> y < limit \<and> timespec_ns c = Some z \<and>
        k_try w = (True, id) # (True, id) # r)"

lemma lock_free:
  assumes "k_clock w = a # ts" and "timespec_ns a = Some x" and "x < limit" and "k_try w = (True, id) # r"
  shows "ngx_healthcheck_lock l limit w = (NGX_OK, w\<lparr>k_clock := ts, k_try := r, k_held := l # k_held w\<rparr>)"
proof -
  have "limit \<noteq> 0" using assms(3) by auto
  with assms show ?thesis
    by (simp add: ngx_healthcheck_lock_def ngx_healthcheck_now_def lock_loop.simps [of l limit x] shmtx_trylock_def
        process.equality)
qed

text \<open>The probe of peer \<open>i\<close> has a result and still holds its round, and nothing makes the process leave.\<close>

definition result_due :: "nat \<Rightarrow> process \<Rightarrow> bool" where
  "result_due i w \<longleftrightarrow> lp_probe (pr_local w i) \<noteq> None \<and>
     owned_by (probe_token i w) (shm_peer_state i w) \<and> in_round (shm_peer_state i w) \<and>
     registration_valid (pb_instance (probe_of i w)) (k_pid w) (shm_worker_state (worker_index w) w) \<and>
     pb_generation (probe_of i w) = pr_generation w \<and> \<not> r_stopping w \<and> \<not> k_quit w \<and> pr_quits w = []"

lemma run_leaving_quiet:
  "\<not> r_stopping w \<Longrightarrow> \<not> k_quit w \<Longrightarrow> pr_quits w = [] \<Longrightarrow> run_state leaving w = (False, w)"
  by (simp add: leaving_def quitting_def)

lemma owned_lock_free:
  assumes "result_due i w" and clock: "k_clock w = a # b # ts" "timespec_ns a = Some x" "x < limit"
    "timespec_ns b = Some y" "y < limit" and tries: "k_try w = (True, id) # (True, id) # r"
  shows "run_state (ngx_healthcheck_owned_lock i limit) w = (Locked (shm_peer_state i w),
    w\<lparr>k_clock := ts, k_try := r, k_held := PeerLock i # WorkerLock (worker_index w) # k_held w\<rparr>)"
proof -
  have l: "limit \<noteq> 0" using clock(3) by auto
  let ?w1 = "w\<lparr>k_clock := b # ts, k_try := (True, id) # r, k_held := WorkerLock (worker_index w) # k_held w\<rparr>"
  have 1: "ngx_healthcheck_lock (WorkerLock (worker_index w)) limit w = (NGX_OK, ?w1)"
    by (rule lock_free [OF clock(1-3) tries])
  have 2: "ngx_healthcheck_lock (PeerLock i) limit ?w1 = (NGX_OK, ?w1\<lparr>k_clock := ts, k_try := r,
      k_held := PeerLock i # k_held ?w1\<rparr>)"
    by (rule lock_free [OF _ clock(4,5)]) simp_all
  have 3: "probe_of i (w\<lparr>k_clock := c, k_try := t, k_held := h\<rparr>) = probe_of i w"
    "probe_token i (w\<lparr>k_clock := c, k_try := t, k_held := h\<rparr>) = probe_token i w"
    "shm_peer_state i (w\<lparr>k_clock := c, k_try := t, k_held := h\<rparr>) = shm_peer_state i w"
    "shm_worker_state j (w\<lparr>k_clock := c, k_try := t, k_held := h\<rparr>) = shm_worker_state j w" for c t h j
    by (simp_all add: probe_of_def probe_token_def shm_peer_state_def shm_worker_state_def)
  from assms(1) run_leaving_quiet [of w] show ?thesis
    by (simp add: ngx_healthcheck_owned_lock_def owned_limit_def l 1 2 3 result_due_def)
qed

text \<open>Peer \<open>i\<close> is abandoned at \<open>ms\<close>: its owner is another registration and has let the grace period pass.\<close>

definition abandoned :: "nat \<Rightarrow> u64 \<Rightarrow> process \<Rightarrow> bool" where
  "abandoned i ms w \<longleftrightarrow>
     (let st = shm_peer_state i w in
      registration_valid (r_instance w) (k_pid w) (shm_worker_state (worker_index w) w) \<and>
      ngx_healthcheck_add_time (ngx_healthcheck_deadline (shm_activated_at (k_shm w)) (conf_of i w) st) (r_grace w) \<le> ms \<and>
      \<not> claim_owner_same (claimant_of w) st \<and> ps_round st \<noteq> UINT64_MAX \<and> ps_term st \<noteq> UINT64_MAX)"

lemma abandoned_claim:
  assumes "abandoned i ms w"
  shows "claim_record (claimant_of w) (conf_of i w) (shm_activated_at (k_shm w)) ms (Some (shm_peer_state i w))
    (shm_peer_state i w) = (NGX_OK, 0, claim_next (claimant_of w) (conf_of i w) ms (shm_peer_state i w))"
  using assms
  by (auto simp: abandoned_def Let_def claim_record_def claim_takeover_def claim_owner_same_def claimant_of_def not_less)

section \<open>Properties\<close>

text \<open>C2. The process implements the protocol: whatever sequence of timer, connection and shutdown
  events a process handles, with whatever answers of the clock, the sockets and the random generator,
  and whatever the other processes do between its attempts to take a lock, the zone only moves along
  steps of the protocol.  If the others keep the zone within the states reachable by processes of
  \<open>A\<close>, so does this one; all properties of traces therefore hold for the running code.\<close>

theorem handlers_refine_protocol:
  assumes "run_state (run_entries tunable es) w = ((), w')"
    and "actor_of w \<in> A" and "guarded (reachable A s0) w"
  shows "guarded (reachable A s0) w'"
  using entries_evolve [OF assms(1)] reachable_closed [OF assms(2)] assms(3)
  by (simp add: evolves_def drifts_def)

text \<open>C12. No handler leaves a lock behind: after any sequence of events the process holds exactly the
  locks it held before, on every path through the handlers, early returns and failures included.\<close>

theorem locks_released:
  assumes "run_state (run_entries tunable es) w = ((), w')"
  shows "k_held w' = k_held w"
  using entries_evolve [OF assms] by (simp add: evolves_def)

text \<open>C14. Stopping releases everything the process holds locally, even if the registration cannot be
  locked: no timer, posted event, connection or unfinished round of any peer is left.\<close>

theorem stop_releases_everything:
  assumes "r_present w" and "\<not> r_cleaned w"
  shows "stopped (snd (run_state ngx_healthcheck_runtime_stop w))"
  using assms by (rule runtime_stop_releases)

text \<open>C13. Stopping is final: once stopped, no event that is still delivered changes anything, neither
  in the process nor in the zone, and in particular no new round is claimed and nothing is rearmed.\<close>

theorem stopping_is_final:
  assumes "stopped w" and "\<forall>e \<in> set es. entry_possible w e"
  shows "run_state (run_entries tunable es) w = ((), w)"
  using assms by (rule stopped_entries)


text \<open>C8. A result is not lost: whenever a probe with a result still holds its round and the two locks
  can be taken before the limit, the submission succeeds, publishes exactly the record that
  \<open>submit_record\<close> computes from the current one, gives both locks back and clears the pending mark.\<close>

theorem pending_result_lands:
  assumes "result_due i w" and "uncontended limit w"
  shows "\<exists>now w'. run_state (ngx_healthcheck_submit i limit) w = (NGX_OK, w') \<and>
    shm_peer_state i w' = submit_record (conf_of i w) (pb_result (probe_of i w))
      (if pb_sample (probe_of i w) then Some (pb_delay (probe_of i w)) else None) now (shm_peer_state i w) \<and>
    \<not> pb_pending (probe_of i w') \<and> k_held w' = k_held w"
proof -
  obtain a b c x y z ts r where u: "k_clock w = a # b # c # ts" "timespec_ns a = Some x" "x < limit"
    "timespec_ns b = Some y" "y < limit" "timespec_ns c = Some z" "k_try w = (True, id) # (True, id) # r"
    using assms(2) unfolding uncontended_def by blast
  let ?w2 = "w\<lparr>k_clock := c # ts, k_try := r, k_held := PeerLock i # WorkerLock (worker_index w) # k_held w\<rparr>"
  have 1: "run_state (ngx_healthcheck_owned_lock i limit) w = (Locked (shm_peer_state i w), ?w2)"
    by (rule owned_lock_free [OF assms(1) u(1-5,7)])
  obtain p where p: "lp_probe (pr_local w i) = Some p" using assms(1) by (auto simp: result_due_def)
  have q: "run_state quitting ?w2 = (False, ?w2)" using assms(1) by (simp add: quitting_def result_due_def)
  have t: "ngx_healthcheck_now ?w2 = (Some z, ?w2\<lparr>k_clock := ts\<rparr>)" using u(6) by (simp add: ngx_healthcheck_now_def)
  have s: "ps_phase (shm_peer_state i w) = PREPARING \<or> ps_phase (shm_peer_state i w) = INFLIGHT"
    using assms(1) by (simp add: result_due_def in_round_def)
  show ?thesis
    using 1 q t s p
    by (auto simp: ngx_healthcheck_submit_def read_clock_def ngx_healthcheck_owned_unlock_def drop_lock_def
        probe_of_def conf_of_def peer_of_def publish_peer_def shm_peer_state_def cell_simps worker_index_def
        shmtx_unlock_def arm_check_def Let_def when_def split: if_splits)
qed


section \<open>Witnesses\<close>

text \<open>A registered worker with one peer, whose probe has a result for the round \<open>demo1\<close>.\<close>

definition demo_shm :: peers_shm where
  "demo_shm = with_worker 0 \<lparr>ws_pid = 10, ws_instance = 1, ws_heartbeat = 5000, ws_exiting = 0\<rparr>
     (with_peer 0 demo1 zero_peers_shm)"

definition demo_probe :: probe where
  "demo_probe = zero_probe\<lparr>pb_instance := 1, pb_term := 1, pb_round := 1, pb_generation := 7, pb_started := 5000,
     pb_pending := True, pb_result := True, pb_sample := True, pb_delay := 12\<rparr>"

definition demo_process :: process where
  "demo_process = \<lparr>k_clock = [Some (5, 1), Some (5, 2), Some (5, 3)], k_try = [(True, id), (True, id)],
     k_kill = [], k_held = [], k_pid = 10, k_quit = False, k_shm = demo_shm,
     pr_peers = [demo_peer ''a''], pr_generation = 7, pr_module = 1, pr_workers = 1,
     pr_local = (\<lambda>i. \<lparr>lp_timer = Some 3, lp_posted = False, lp_probe = Some demo_probe\<rparr>),
     r_present = True, r_worker = 0, r_cursor = 0, r_instance = 1, r_grace = 1000, r_interval = 100,
     r_preference = 1000, r_budget = 0, r_registered = True, r_timers_started = True, r_stopping = False,
     r_cleaned = False, r_watch_timer = Some 100, r_watch_posted = False, pr_quits = [], pr_random = [],
     pr_alloc = [], pr_recv = [], pr_send = [], pr_soerror = [], pr_setsockopt = [], pr_events = [],
     pr_connect = [], pr_msec = 5000, pr_level = True, pr_hash = (\<lambda>k. 0)\<rparr>"

definition demo_stopped :: process where
  "demo_stopped = demo_process\<lparr>r_stopping := True, r_cleaned := True, r_watch_timer := None,
     pr_local := (\<lambda>i. \<lparr>lp_timer = None, lp_posted = False, lp_probe = None\<rparr>)\<rparr>"

lemma demo_guarded: "guarded (reachable {actor_of demo_process} demo_shm) demo_process"
  using trace_nil [of "{actor_of demo_process}" demo_shm]
  by (auto simp: guarded_def reachable_def demo_process_def)

lemma demo_due: "result_due 0 demo_process"
  by (simp add: result_due_def owned_by_def probe_token_def shm_peer_state_now shm_worker_state_now probe_of_def
      demo_process_def demo_probe_def zero_probe_def demo_shm_def demo1_def demo_claim_def claim_next_def
      in_round_def registration_valid_def zero_peer_state_def claim_owner_same_def worker_index_def)

lemma demo_uncontended: "uncontended 6000000000 demo_process"
  by (simp add: uncontended_def demo_process_def timespec_ns_def ngx_healthcheck_mul_time_def ngx_healthcheck_add_time_def)

theorem handlers_refine_protocol_witness:
  "guarded (reachable {actor_of demo_process} demo_shm)
     (snd (run_state (run_entries True [CheckTimer 0, WatchTimer, Shutdown]) demo_process))"
  by (rule handlers_refine_protocol [where tunable = True and es = "[CheckTimer 0, WatchTimer, Shutdown]",
        OF _ _ demo_guarded]) (simp_all add: prod_eq_iff del: run_entries.simps)

theorem locks_released_witness:
  "k_held (snd (run_state (run_entries True [CheckTimer 0, WatchTimer, Shutdown]) demo_process)) = []"
proof -
  let ?w = "snd (run_state (run_entries True [CheckTimer 0, WatchTimer, Shutdown]) demo_process)"
  have "run_state (run_entries True [CheckTimer 0, WatchTimer, Shutdown]) demo_process = ((), ?w)"
    by (simp add: prod_eq_iff)
  from locks_released [OF this] show ?thesis by (simp add: demo_process_def)
qed

theorem stop_releases_everything_witness: "stopped (snd (run_state ngx_healthcheck_runtime_stop demo_process))"
  by (rule stop_releases_everything) (simp_all add: demo_process_def)

theorem stopping_is_final_witness:
  "run_state (run_entries True [CheckTimer 0, WatchTimer, Shutdown]) demo_stopped = ((), demo_stopped)"
  by (rule stopping_is_final)
    (simp_all add: stopped_def demo_stopped_def demo_process_def peer_released_def)

theorem pending_result_lands_witness:
  "\<exists>now w'. run_state (ngx_healthcheck_submit 0 6000000000) demo_process = (NGX_OK, w') \<and>
     shm_peer_state 0 w' = submit_record demo_conf True (Some 12) now demo1 \<and>
     \<not> pb_pending (probe_of 0 w') \<and> k_held w' = []"
  using pending_result_lands [OF demo_due demo_uncontended]
  by (simp add: shm_peer_state_now probe_of_def conf_of_def peer_of_def demo_process_def demo_probe_def
      zero_probe_def demo_shm_def demo_peer_def)

text \<open>Worker 1 visits the peer at 13 s; its owner, worker 0, had until 7.7 s.\<close>

definition demo_heir :: process where
  "demo_heir = demo_process\<lparr>k_pid := 20, r_worker := 1, k_shm :=
     with_worker 1 \<lparr>ws_pid = 20, ws_instance = 1, ws_heartbeat = 13000, ws_exiting = 0\<rparr> demo_shm\<rparr>"


end
