(* ===== verification/Snapshot.thy ===== *)
theory Snapshot
  imports Protocol
begin

text \<open>
  Collecting the rows of a status page (\<^verbatim>\<open>status/ngx_healthcheck_snapshot.c\<close>): one pass over the
  peers of a module that can stop at a contended lock or at the end of its budget and goes on later
  where it stopped.
\<close>

section \<open>Sources and snapshots\<close>

text \<open>
  What a request uses of \<^verbatim>\<open>ngx_upstream_check_peers_t\<close>; \<open>so_attached i\<close> is \<^verbatim>\<open>peer[i].shm != NULL\<close>.
\<close>

record source =
  so_peers :: "peer_conf list"
  so_attached :: "nat \<Rightarrow> bool"
  so_generation :: u64
  so_module :: u64

record snap_row =
  sr_index :: u64
  sr_upstream_name :: bytes
  sr_peer_addr :: addr
  sr_conf :: srv_conf
  sr_health :: health

record snapshot =
  sn_rows :: "snap_row list"
  sn_generation :: u64
  sn_total :: u64
  sn_up :: u64
  sn_next :: nat

text \<open>The zone of the module as the process sees it, with the answers of the array allocations.\<close>

record zone_view = kernel +
  zv_pool :: "bool list"

definition array_alloc :: "zone_view \<Rightarrow> bool \<times> zone_view" where
  "array_alloc z = (let (ok, t) = next_alloc (zv_pool z) in (ok, z\<lparr>zv_pool := t\<rparr>))"

definition zero_snapshot :: snapshot where
  "zero_snapshot = \<lparr>sn_rows = [], sn_generation = 0, sn_total = 0, sn_up = 0, sn_next = 0\<rparr>"

definition ngx_healthcheck_snapshot_init :: "source option \<Rightarrow> zone_view \<Rightarrow> ngx_rc \<times> snapshot \<times> zone_view" where
  "ngx_healthcheck_snapshot_init src z =
     (let (ok, z1) = array_alloc z in
      if \<not> ok then (NGX_ERROR, zero_snapshot, z1)
      else case src of
        None \<Rightarrow> (NGX_OK, zero_snapshot, z1)
      | Some src \<Rightarrow> (NGX_OK, zero_snapshot\<lparr>sn_generation := so_generation src,
          sn_total := of_nat (length (so_peers src))\<rparr>, z1))"

text \<open>The filter: 1 selects the peers that are down, otherwise 2 those that are up.\<close>

definition row_skipped :: "u64 \<Rightarrow> health \<Rightarrow> bool" where
  "row_skipped flag h = (if flag AND 1 \<noteq> 0 then h_down h = 0 else flag AND 2 \<noteq> 0 \<and> h_down h \<noteq> 0)"

definition row_of :: "peer_conf \<Rightarrow> health \<Rightarrow> snap_row" where
  "row_of p h = \<lparr>sr_index = p_index p, sr_upstream_name = p_upstream_name p, sr_peer_addr = p_addr p,
     sr_conf = p_conf p, sr_health = h\<rparr>"

text \<open>The record of one peer that has been read: the counters move on, then the row is stored.\<close>

definition snapshot_count :: "health \<Rightarrow> snapshot \<Rightarrow> snapshot" where
  "snapshot_count h sn = sn\<lparr>sn_next := sn_next sn + 1, sn_up := sn_up sn + (if h_down h = 0 then 1 else 0)\<rparr>"

function snapshot_loop :: "source \<Rightarrow> u64 \<Rightarrow> snapshot \<Rightarrow> nat \<Rightarrow> zone_view \<Rightarrow> ngx_rc \<times> snapshot \<times> nat \<times> zone_view" where
  "snapshot_loop src flag sn remaining z =
     (if \<not> sn_next sn < length (so_peers src) then (NGX_OK, sn, remaining, z)
      else if remaining = 0 then (NGX_BUSY, sn, remaining, z)
      else if \<not> so_attached src (sn_next sn) then (NGX_ERROR, sn, remaining, z)
      else case ngx_healthcheck_try_read_peer (sn_next sn) z of
        (None, z1) \<Rightarrow> (NGX_AGAIN, sn, remaining, z1)
      | (Some state, z1) \<Rightarrow>
          (let h = ps_health state; sn1 = snapshot_count h sn in
           if row_skipped flag h then snapshot_loop src flag sn1 (remaining - 1) z1
           else let (ok, z2) = array_alloc z1 in
             if \<not> ok then (NGX_ERROR, sn1, remaining - 1, z2)
             else snapshot_loop src flag
               (sn1\<lparr>sn_rows := sn_rows sn @ [row_of (so_peers src ! sn_next sn) h]\<rparr>) (remaining - 1) z2))"
  by pat_completeness auto
termination
  by (relation "measure (\<lambda>(src, flag, sn, remaining, z). remaining)") auto

declare snapshot_loop.simps [simp del]

definition ngx_healthcheck_snapshot_step ::
  "source option \<Rightarrow> u64 \<Rightarrow> snapshot \<Rightarrow> nat \<Rightarrow> zone_view \<Rightarrow> ngx_rc \<times> snapshot \<times> nat \<times> zone_view" where
  "ngx_healthcheck_snapshot_step src flag sn remaining z =
     (case src of
        None \<Rightarrow> (NGX_OK, sn, remaining, z)
      | Some src \<Rightarrow> snapshot_loop src flag sn remaining z)"

section \<open>What a snapshot holds\<close>

text \<open>
  The specification: a snapshot shows the peers of a prefix, in order, each once, with a health record
  \<open>h ! i\<close> that the zone held at some state satisfying \<open>P\<close>; the filter selects the rows, the totals
  count all of them.
\<close>

definition selected :: "u64 \<Rightarrow> peer_conf list \<Rightarrow> health list \<Rightarrow> snap_row list" where
  "selected flag ps hs = [row_of p h. (p, h) \<leftarrow> zip ps hs, \<not> row_skipped flag h]"

definition snapshot_of :: "(peers_shm \<Rightarrow> bool) \<Rightarrow> source \<Rightarrow> u64 \<Rightarrow> snapshot \<Rightarrow> health list \<Rightarrow> bool" where
  "snapshot_of P src flag sn hs \<longleftrightarrow>
     length hs = sn_next sn \<and> sn_next sn \<le> length (so_peers src) \<and>
     (\<forall>i < length hs. \<exists>s. P s \<and> hs ! i = ps_health (peer_now s i)) \<and>
     sn_rows sn = selected flag (so_peers src) hs \<and>
     sn_up sn = of_nat (length (filter (\<lambda>h. h_down h = 0) hs)) \<and>
     sn_total sn = of_nat (length (so_peers src)) \<and> sn_generation sn = so_generation src"

lemma selected_snoc:
  assumes "length hs < length ps"
  shows "selected flag ps (hs @ [h]) =
    selected flag ps hs @ (if row_skipped flag h then [] else [row_of (ps ! length hs) h])"
proof -
  have "zip ps (hs @ [h]) = zip (take (length hs) ps) hs @ [(ps ! length hs, h)]"
    using assms by (simp add: zip_append2 flip: Cons_nth_drop_Suc)
  moreover have "zip (take (length hs) ps) hs = zip ps hs" by (simp add: take_zip [of "length hs" ps hs, simplified, symmetric])
  ultimately have "zip ps (hs @ [h]) = zip ps hs @ [(ps ! length hs, h)]" by simp
  then show ?thesis by (simp add: selected_def)
qed

lemma snapshot_count_spec:
  assumes "snapshot_of P src flag sn hs" and "sn_next sn < length (so_peers src)"
    and "P s" and "h = ps_health (peer_now s (sn_next sn))"
  shows "snapshot_of P src flag ((snapshot_count h sn)\<lparr>sn_rows := sn_rows sn @
    (if row_skipped flag h then [] else [row_of (so_peers src ! sn_next sn) h])\<rparr>) (hs @ [h])"
proof -
  have "\<forall>i < length (hs @ [h]). \<exists>s. P s \<and> (hs @ [h]) ! i = ps_health (peer_now s i)"
    using assms by (auto simp: snapshot_of_def nth_append less_Suc_eq)
  moreover have "length hs = sn_next sn" using assms(1) by (simp add: snapshot_of_def)
  ultimately show ?thesis
    using assms by (simp add: snapshot_of_def snapshot_count_def selected_snoc)
qed

section \<open>Reading\<close>

lemma guarded_try_read:
  assumes "guarded P w" and "ngx_healthcheck_try_read_peer i w = (r, w')"
  shows "guarded P w' \<and> (\<forall>st. r = Some st \<longrightarrow> (\<exists>s. P s \<and> st = peer_now s i))"
proof -
  obtain got w1 where 1: "shmtx_trylock (PeerLock i) w = (got, w1)" by fastforce
  note g1 = guarded_trylock [OF assms(1) 1]
  have read: "guarded P (shmtx_unlock l v) \<and> (\<exists>s. P s \<and> shm_peer_state i v = peer_now s i)"
    if "guarded P v" for v :: "'a kernel_scheme" and l
    using that by (auto simp: guarded_def shmtx_unlock_def shm_peer_state_def peer_now_def)
  show ?thesis
  proof (cases got)
    case True
    with 1 assms(2) read [OF g1] show ?thesis by (auto simp: ngx_healthcheck_try_read_peer_def)
  next
    case False
    obtain freed w2 where 2: "ngx_healthcheck_recover_lock w1 = (freed, w2)" by fastforce
    note g2 = guarded_recover [OF g1 2]
    obtain got' w3 where 3: "shmtx_trylock (PeerLock i) w2 = (got', w3)" by fastforce
    note g3 = guarded_trylock [OF g2 3]
    from 1 2 3 False assms(2) g2 g3 read [OF g3] show ?thesis
      by (cases freed; cases got') (auto simp: ngx_healthcheck_try_read_peer_def)
  qed
qed

lemma guarded_array_alloc: "guarded P z \<Longrightarrow> array_alloc z = (ok, z') \<Longrightarrow> guarded P z'"
  by (auto simp: array_alloc_def guarded_def split: prod.splits)

lemma snapshot_loop_spec:
  assumes "guarded P z" and "snapshot_of P src flag sn hs"
    and "snapshot_loop src flag sn remaining z = (rc, sn', remaining', z')"
  shows "guarded P z' \<and> sn_next sn' + remaining' = sn_next sn + remaining \<and>
    (rc \<noteq> NGX_ERROR \<longrightarrow> (\<exists>hs'. snapshot_of P src flag sn' (hs @ hs'))) \<and>
    (rc = NGX_OK \<longrightarrow> sn_next sn' = length (so_peers src)) \<and> rc \<in> {NGX_OK, NGX_BUSY, NGX_AGAIN, NGX_ERROR}"
  using assms
proof (induction remaining arbitrary: z sn hs)
  case 0
  then show ?case
    by (auto simp: snapshot_loop.simps [of src flag sn 0 z] snapshot_of_def split: if_splits intro!: exI [of _ "[]"])
next
  case (Suc n)
  note unfold = snapshot_loop.simps [of src flag sn "Suc n" z]
  show ?case
  proof (cases "sn_next sn < length (so_peers src) \<and> so_attached src (sn_next sn)")
    case False
    with Suc.prems show ?thesis
      by (auto simp: unfold snapshot_of_def split: if_splits intro!: exI [of _ "[]"])
  next
    case go: True
    obtain r z1 where r: "ngx_healthcheck_try_read_peer (sn_next sn) z = (r, z1)" by fastforce
    note g = guarded_try_read [OF Suc.prems(1) r]
    show ?thesis
    proof (cases r)
      case None
      with go r g Suc.prems(2,3) show ?thesis by (auto simp: unfold intro!: exI [of _ "[]"])
    next
      case (Some state)
      let ?h = "ps_health state"
      obtain s where s: "P s" "state = peer_now s (sn_next sn)" using g Some by auto
      note sp = snapshot_count_spec [OF Suc.prems(2) conjunct1 [OF go] s(1), of ?h, unfolded s(2) [symmetric], OF refl]
      have next1: "sn_next (snapshot_count ?h sn) = Suc (sn_next sn)" "sn_rows (snapshot_count ?h sn) = sn_rows sn"
        by (simp_all add: snapshot_count_def)
      show ?thesis
      proof (cases "row_skipped flag ?h")
        case True
        have "(snapshot_count ?h sn)\<lparr>sn_rows := sn_rows sn\<rparr> = snapshot_count ?h sn"
          by (simp add: snapshot_count_def)
        with sp True have sp1: "snapshot_of P src flag (snapshot_count ?h sn) (hs @ [?h])" by simp
        have "snapshot_loop src flag (snapshot_count ?h sn) n z1 = (rc, sn', remaining', z')"
          using Suc.prems(3) go r Some True by (simp add: unfold Let_def)
        from Suc.IH [OF conjunct1 [OF g] sp1 this] next1 show ?thesis by auto
      next
        case False
        obtain ok z2 where a: "array_alloc z1 = (ok, z2)" by fastforce
        note g2 = guarded_array_alloc [OF conjunct1 [OF g] a]
        let ?sn2 = "(snapshot_count ?h sn)\<lparr>sn_rows := sn_rows sn @ [row_of (so_peers src ! sn_next sn) ?h]\<rparr>"
        show ?thesis
        proof (cases ok)
          case True
          have "snapshot_loop src flag ?sn2 n z2 = (rc, sn', remaining', z')"
            using Suc.prems(3) go r Some False a True by (simp add: unfold Let_def)
          moreover have "snapshot_of P src flag ?sn2 (hs @ [?h])" using sp False next1 by simp
          ultimately show ?thesis using Suc.IH [OF g2] next1 by fastforce
        next
          case False
          with Suc.prems(3) go r Some \<open>\<not> row_skipped flag ?h\<close> a g2 next1 show ?thesis
            by (auto simp: unfold Let_def)
        qed
      qed
    qed
  qed
qed

section \<open>Uncontended collection\<close>

text \<open>Enough free locks and array slots for \<open>n\<close> more peers.\<close>

definition supplied :: "nat \<Rightarrow> zone_view \<Rightarrow> bool" where
  "supplied n z \<longleftrightarrow> (\<exists>r m q. k_try z = replicate n (True, id) @ r \<and> n \<le> m \<and> zv_pool z = replicate m True @ q)"

lemma supplied_less: "supplied m z \<Longrightarrow> n \<le> m \<Longrightarrow> supplied n z"
  unfolding supplied_def by (metis append_assoc le_add_diff_inverse le_trans replicate_add)

lemma supplied_read:
  assumes "supplied (Suc n) z"
  shows "\<exists>st z1. ngx_healthcheck_try_read_peer i z = (Some st, z1) \<and>
    supplied n z1 \<and> (\<exists>z2. array_alloc z1 = (True, z2) \<and> supplied n z2)"
proof -
  obtain r m q where z: "k_try z = replicate (Suc n) (True, id) @ r" "Suc n \<le> m" "zv_pool z = replicate m True @ q"
    using assms by (auto simp: supplied_def)
  obtain m' where m: "m = Suc m'" using z(2) by (cases m) auto
  let ?z1 = "shmtx_unlock (PeerLock i) (z\<lparr>k_try := replicate n (True, id) @ r, k_held := PeerLock i # k_held z\<rparr>)"
  have "ngx_healthcheck_try_read_peer i z = (Some (shm_peer_state i (z\<lparr>k_try := replicate n (True, id) @ r,
      k_held := PeerLock i # k_held z\<rparr>)), ?z1)"
    using z(1) by (simp add: ngx_healthcheck_try_read_peer_def shmtx_trylock_def)
  moreover have "supplied n ?z1" unfolding supplied_def shmtx_unlock_def using z
    by (intro exI [of _ r] exI [of _ m] exI [of _ q]) simp
  moreover have "\<exists>z2. array_alloc ?z1 = (True, z2) \<and> supplied n z2"
    using z m by (auto simp: array_alloc_def next_alloc_def shmtx_unlock_def supplied_def)
  ultimately show ?thesis by blast
qed

lemma snapshot_loop_supplied:
  assumes "supplied (remaining + n) z" and "\<forall>i < length (so_peers src). so_attached src i"
    and "snapshot_loop src flag sn remaining z = (rc, sn', remaining', z')"
  shows "(if length (so_peers src) \<le> sn_next sn + remaining then rc = NGX_OK else rc = NGX_BUSY \<and> remaining' = 0) \<and>
    supplied (remaining' + n) z'"
  using assms
proof (induction remaining arbitrary: z sn)
  case 0
  then show ?case by (auto simp: snapshot_loop.simps [of src flag sn 0 z] split: if_splits)
next
  case (Suc k)
  note unfold = snapshot_loop.simps [of src flag sn "Suc k" z]
  show ?case
  proof (cases "sn_next sn < length (so_peers src)")
    case False
    with Suc.prems show ?thesis by (auto simp: unfold)
  next
    case go: True
    obtain st z1 z2 where r: "ngx_healthcheck_try_read_peer (sn_next sn) z = (Some st, z1)"
      and s1: "supplied (k + n) z1" and a: "array_alloc z1 = (True, z2)" and s2: "supplied (k + n) z2"
      using supplied_read [of "k + n" z "sn_next sn"] Suc.prems(1) by auto
    let ?sn1 = "snapshot_count (ps_health st) sn"
    let ?sn2 = "?sn1\<lparr>sn_rows := sn_rows sn @ [row_of (so_peers src ! sn_next sn) (ps_health st)]\<rparr>"
    have n: "sn_next ?sn1 = Suc (sn_next sn)" by (simp add: snapshot_count_def)
    show ?thesis
    proof (cases "row_skipped flag (ps_health st)")
      case True
      have "snapshot_loop src flag ?sn1 k z1 = (rc, sn', remaining', z')"
        using Suc.prems(2,3) go r True by (simp add: unfold Let_def)
      from Suc.IH [OF s1 Suc.prems(2) this] n show ?thesis by simp
    next
      case False
      have "snapshot_loop src flag ?sn2 k z2 = (rc, sn', remaining', z')"
        using Suc.prems(2,3) go r False a by (simp add: unfold Let_def)
      from Suc.IH [OF s2 Suc.prems(2) this] n show ?thesis by simp
    qed
  qed
qed

end
