(* ===== verification/Writer.thy ===== *)
theory Writer
  imports ShmState
begin

text \<open>
  The status writer (\<^verbatim>\<open>ngx_healthcheck_status_writer.c\<close>): output of any length in a chain of
  fixed-size blocks from the request pool, and the small \<^verbatim>\<open>printf\<close> the formatters use.  The locale
  \<open>byte_sink\<close> states what a formatter relies on; it is interpreted on the writer.
\<close>

section \<open>The chain of blocks\<close>

definition NGX_HEALTHCHECK_STATUS_BLOCK_SIZE :: nat where
  "NGX_HEALTHCHECK_STATUS_BLOCK_SIZE = 128 * 1024"

abbreviation (input) INT64_MAX :: u64 where "INT64_MAX \<equiv> 9223372036854775807"

text \<open>
  \<open>wr_blocks\<close> is the chain from \<^verbatim>\<open>head\<close> to \<^verbatim>\<open>tail\<close> with the bytes between \<^verbatim>\<open>pos\<close> and \<^verbatim>\<open>last\<close> of
  each buffer, so an empty list is \<^verbatim>\<open>tail == NULL\<close>; \<open>wr_pool\<close> answers the allocations from the
  request pool.
\<close>

record writer =
  wr_blocks :: "bytes list"
  wr_length :: u64
  wr_count :: u64
  wr_pool :: "bool list"

definition ngx_healthcheck_status_writer_init :: "bool list \<Rightarrow> writer" where
  "ngx_healthcheck_status_writer_init pool = \<lparr>wr_blocks = [], wr_length = 0, wr_count = 0, wr_pool = pool\<rparr>"

text \<open>The three allocations are all made before any of them is tested.\<close>

definition ngx_healthcheck_status_writer_add_block :: "writer \<Rightarrow> ngx_rc \<times> writer" where
  "ngx_healthcheck_status_writer_add_block w =
     (let (chain, t1) = next_alloc (wr_pool w);
          (buffer, t2) = next_alloc t1;
          (data, t3) = next_alloc t2
      in if \<not> chain \<or> \<not> buffer \<or> \<not> data then (NGX_ERROR, w\<lparr>wr_pool := t3\<rparr>)
         else (NGX_OK, w\<lparr>wr_blocks := wr_blocks w @ [[]], wr_count := wr_count w + 1, wr_pool := t3\<rparr>))"

text \<open>The bytes that fit behind \<^verbatim>\<open>last\<close> in the tail block; \<^verbatim>\<open>last\<close> never passes \<^verbatim>\<open>end\<close>.\<close>

definition tail_room :: "writer \<Rightarrow> nat" where
  "tail_room w = NGX_HEALTHCHECK_STATUS_BLOCK_SIZE - length (last (wr_blocks w))"

definition tail_copy :: "bytes \<Rightarrow> writer \<Rightarrow> writer" where
  "tail_copy d w = w\<lparr>wr_blocks := butlast (wr_blocks w) @ [last (wr_blocks w) @ d],
     wr_length := wr_length w + of_nat (length d)\<rparr>"

definition tail_ready :: "writer \<Rightarrow> ngx_rc \<times> writer" where
  "tail_ready w = (if wr_blocks w = [] \<or> tail_room w = 0
     then ngx_healthcheck_status_writer_add_block w else (NGX_OK, w))"

lemma tail_ready_room: "tail_ready w = (NGX_OK, w1) \<Longrightarrow> 0 < tail_room w1"
  by (auto simp: tail_ready_def tail_room_def ngx_healthcheck_status_writer_add_block_def
      NGX_HEALTHCHECK_STATUS_BLOCK_SIZE_def Let_def split: if_splits prod.splits)

function ngx_healthcheck_status_writer_append :: "bytes \<Rightarrow> writer \<Rightarrow> ngx_rc \<times> writer" where
  "ngx_healthcheck_status_writer_append data w =
     (if data = [] then (NGX_OK, w)
      else case tail_ready w of
        (NGX_OK, w1) \<Rightarrow>
          (let copy = min (tail_room w1) (length data) in
           if wr_length w1 > INT64_MAX - of_nat copy then (NGX_ERROR, w1)
           else ngx_healthcheck_status_writer_append (drop copy data) (tail_copy (take copy data) w1))
      | (_, w1) \<Rightarrow> (NGX_ERROR, w1))"
  by pat_completeness auto
termination
  by (relation "measure (\<lambda>(data, w). length data)") (auto dest!: sym [of "(NGX_OK, _)"] tail_ready_room)

declare ngx_healthcheck_status_writer_append.simps [simp del]

section \<open>Numbers\<close>

text \<open>The do-while loop that fills \<^verbatim>\<open>number\<close> from its end; \<open>ds\<close> is what has been written.\<close>

function uint_digits :: "u64 \<Rightarrow> bytes \<Rightarrow> bytes" where
  "uint_digits v ds =
     (let ds' = char_of (48 + unat (v mod 10)) # ds; v' = v div 10
      in if v' = 0 then ds' else uint_digits v' ds')"
  by pat_completeness auto
termination
  by (relation "measure (\<lambda>(v, ds). unat v)") (auto simp: unat_div simp flip: unat_eq_zero_iff)

declare uint_digits.simps [simp del]

definition ngx_healthcheck_status_writer_append_uint :: "u64 \<Rightarrow> writer \<Rightarrow> ngx_rc \<times> writer" where
  "ngx_healthcheck_status_writer_append_uint v w =
     ngx_healthcheck_status_writer_append (uint_digits v []) w"

lemma uint_digits_decimal: "uint_digits v ds = decimal (unat v) @ ds"
proof (induction v ds rule: uint_digits.induct)
  case (1 v ds)
  have m: "unat (v mod 10) = unat v mod 10" "unat (v div 10) = unat v div 10"
    by (simp_all add: unat_mod unat_div)
  have z: "v div 10 = 0 \<longleftrightarrow> unat v < 10"
    using m(2) by (metis div_eq_0_iff unat_eq_zero_iff zero_neq_numeral)
  show ?case
  proof (cases "v div 10 = 0")
    case True
    then show ?thesis using z m(1)
      by (simp add: uint_digits.simps [of v] decimal.simps [of "unat v"] digit_def)
  next
    case False
    then show ?thesis using 1 [OF refl refl False] z m
      by (simp add: uint_digits.simps [of v] decimal.simps [of "unat v"] digit_def)
  qed
qed

lemma length_decimal: "n < 10 ^ k \<Longrightarrow> 0 < k \<Longrightarrow> length (decimal n) \<le> k"
proof (induction k arbitrary: n)
  case (Suc k)
  show ?case
  proof (cases "n < 10")
    case False
    then have "0 < k" using Suc.prems by (cases k) auto
    moreover have "n div 10 < 10 ^ k" using Suc.prems by (simp add: less_mult_imp_div_less)
    ultimately have "length (decimal (n div 10)) \<le> k" using Suc.IH by blast
    then show ?thesis using False by (simp add: decimal.simps [of n])
  qed (simp add: decimal.simps [of n])
qed simp

section \<open>Formats\<close>

text \<open>The variable arguments: \<^verbatim>\<open>ngx_str_t *\<close>, C string, \<^verbatim>\<open>ngx_uint_t\<close> and \<^verbatim>\<open>ngx_msec_t\<close>.\<close>

datatype farg = ArgV bytes | ArgS bytes | ArgUi u64 | ArgM u64

text \<open>
  One conversion after the percent sign: the appends it makes (two for \<^verbatim>\<open>%M\<close> of -1, else one), the
  rest of the format and of the arguments, or \<open>None\<close> for the \<^verbatim>\<open>default\<close> case.  Reading an argument of
  another type, or one that is not there, is undefined in C; it is \<open>None\<close> here, and the formats of
  the module never do it.
\<close>

definition msec_pieces :: "u64 \<Rightarrow> bytes list" where
  "msec_pieces v = (if v = UINT64_MAX then [''-'', uint_digits 1 []] else [uint_digits v []])"

definition conversion :: "bytes \<Rightarrow> farg list \<Rightarrow> (bytes list \<times> bytes \<times> farg list) option" where
  "conversion fmt args =
     (case fmt of
        [] \<Rightarrow> None
      | c # fmt' \<Rightarrow>
          if c = CHR ''%'' then Some ([''%''], fmt', args)
          else (case args of
            [] \<Rightarrow> None
          | ArgV s # args' \<Rightarrow> if c = CHR ''V'' then Some ([s], fmt', args') else None
          | ArgS s # args' \<Rightarrow> if c = CHR ''s'' then Some ([s], fmt', args') else None
          | ArgUi v # args' \<Rightarrow>
              if c = CHR ''u'' \<and> take 1 fmt' = ''i'' then Some ([uint_digits v []], drop 1 fmt', args') else None
          | ArgM v # args' \<Rightarrow> if c = CHR ''M'' then Some (msec_pieces v, fmt', args') else None))"

lemma conversion_shorter: "conversion fmt args = Some (out, fmt', args') \<Longrightarrow> length fmt' < length fmt"
  by (auto simp: conversion_def split: list.splits farg.splits if_splits)

primrec append_all :: "bytes list \<Rightarrow> writer \<Rightarrow> ngx_rc \<times> writer" where
  "append_all [] w = (NGX_OK, w)"
| "append_all (d # ds) w =
     (case ngx_healthcheck_status_writer_append d w of
        (NGX_OK, w1) \<Rightarrow> append_all ds w1
      | (rc, w1) \<Rightarrow> (rc, w1))"

text \<open>The loop; \<open>literal\<close> holds the bytes between \<^verbatim>\<open>literal\<close> and \<^verbatim>\<open>fmt\<close>.\<close>

definition flush_literal :: "bytes \<Rightarrow> writer \<Rightarrow> ngx_rc \<times> writer" where
  "flush_literal literal w =
     (if literal = [] then (NGX_OK, w) else ngx_healthcheck_status_writer_append literal w)"

function printf_loop :: "bytes \<Rightarrow> bytes \<Rightarrow> farg list \<Rightarrow> writer \<Rightarrow> ngx_rc \<times> writer" where
  "printf_loop literal [] args w = flush_literal literal w"
| "printf_loop literal (c # fmt) args w =
     (if c \<noteq> CHR ''%'' then printf_loop (literal @ [c]) fmt args w
      else case flush_literal literal w of
        (NGX_OK, w1) \<Rightarrow>
          (case conversion fmt args of
             None \<Rightarrow> (NGX_ERROR, w1)
           | Some (out, fmt', args') \<Rightarrow>
               (case append_all out w1 of
                  (NGX_OK, w2) \<Rightarrow> printf_loop [] fmt' args' w2
                | (rc, w2) \<Rightarrow> (rc, w2)))
      | (_, w1) \<Rightarrow> (NGX_ERROR, w1))"
  by pat_completeness auto
termination
  by (relation "measure (\<lambda>(literal, fmt, args, w). length fmt)") (auto dest!: conversion_shorter)

declare printf_loop.simps [simp del]

definition ngx_healthcheck_status_writer_printf :: "bytes \<Rightarrow> farg list \<Rightarrow> writer \<Rightarrow> ngx_rc \<times> writer" where
  "ngx_healthcheck_status_writer_printf fmt args w = printf_loop [] fmt args w"

text \<open>What a format means.\<close>

function render :: "bytes \<Rightarrow> farg list \<Rightarrow> bytes option" where
  "render [] args = Some []"
| "render (c # fmt) args =
     (if c \<noteq> CHR ''%'' then map_option (\<lambda>out. c # out) (render fmt args)
      else case conversion fmt args of
        None \<Rightarrow> None
      | Some (out, fmt', args') \<Rightarrow> map_option (\<lambda>rest. concat out @ rest) (render fmt' args'))"
  by pat_completeness auto
termination
  by (relation "measure (\<lambda>(fmt, args). length fmt)") (auto dest!: conversion_shorter)

section \<open>What a formatter relies on\<close>

text \<open>Sequencing with the error exits of the formatters.\<close>

definition write_then :: "('s \<Rightarrow> ngx_rc \<times> 's) \<Rightarrow> ('s \<Rightarrow> ngx_rc \<times> 's) \<Rightarrow> 's \<Rightarrow> ngx_rc \<times> 's" where
  "write_then f g w = (case f w of (NGX_OK, w1) \<Rightarrow> g w1 | (_, w1) \<Rightarrow> (NGX_ERROR, w1))"

primrec write_each :: "('a \<Rightarrow> 's \<Rightarrow> ngx_rc \<times> 's) \<Rightarrow> 'a list \<Rightarrow> 's \<Rightarrow> ngx_rc \<times> 's" where
  "write_each f [] w = (NGX_OK, w)"
| "write_each f (x # xs) w = write_then (f x) (write_each f xs) w"

lemma ngx_rc_pair_split: "P (case r of (NGX_OK, w) \<Rightarrow> f w | (rc, w) \<Rightarrow> g rc w) \<longleftrightarrow>
    (\<forall>w. r = (NGX_OK, w) \<longrightarrow> P (f w)) \<and> (\<forall>rc w. r = (rc, w) \<longrightarrow> rc \<noteq> NGX_OK \<longrightarrow> P (g rc w))"
  by (cases r; cases "fst r") auto

text \<open>
  A sink of bytes: \<open>contents\<close> is what it holds, \<open>ok\<close> its invariant, \<open>room n\<close> says that \<open>n\<close> more bytes
  are sure to fit.
\<close>

locale byte_sink =
  fixes put :: "bytes \<Rightarrow> 's \<Rightarrow> ngx_rc \<times> 's"
    and contents :: "'s \<Rightarrow> bytes"
    and ok :: "'s \<Rightarrow> bool"
    and room :: "nat \<Rightarrow> 's \<Rightarrow> bool"
  assumes put_ok: "ok s \<Longrightarrow> put d s = (NGX_OK, s') \<Longrightarrow> ok s' \<and> contents s' = contents s @ d"
    and put_error: "ok s \<Longrightarrow> put d s = (rc, s') \<Longrightarrow> rc \<noteq> NGX_OK \<Longrightarrow> \<exists>k. contents s' = contents s @ take k d"
    and put_room: "ok s \<Longrightarrow> room (length d + n) s \<Longrightarrow> \<exists>s'. put d s = (NGX_OK, s') \<and> room n s'"
begin

text \<open>
  \<open>writes f out\<close>: \<open>f\<close> appends exactly \<open>out\<close> if it returns \<^verbatim>\<open>NGX_OK\<close>, a prefix of it otherwise, and is
  sure to succeed where there is room.
\<close>

definition writes :: "('s \<Rightarrow> ngx_rc \<times> 's) \<Rightarrow> bytes \<Rightarrow> bool" where
  "writes f out \<longleftrightarrow> (\<forall>s. ok s \<longrightarrow>
     (\<forall>s'. f s = (NGX_OK, s') \<longrightarrow> ok s' \<and> contents s' = contents s @ out) \<and>
     (\<forall>rc s'. f s = (rc, s') \<longrightarrow> rc \<noteq> NGX_OK \<longrightarrow> (\<exists>k. contents s' = contents s @ take k out)) \<and>
     (\<forall>n. room (length out + n) s \<longrightarrow> (\<exists>s'. f s = (NGX_OK, s') \<and> room n s')))"

lemma writesD:
  assumes "writes f out" and "ok s"
  shows "f s = (NGX_OK, s') \<Longrightarrow> ok s' \<and> contents s' = contents s @ out"
    "f s = (rc, s') \<Longrightarrow> rc \<noteq> NGX_OK \<Longrightarrow> \<exists>k. contents s' = contents s @ take k out"
    "room (length out + n) s \<Longrightarrow> \<exists>s'. f s = (NGX_OK, s') \<and> room n s'"
  using assms unfolding writes_def by blast+

lemma writes_put: "writes (put d) d"
  unfolding writes_def using put_ok put_error put_room by blast

lemma writes_nothing: "writes (\<lambda>s. (NGX_OK, s)) []"
  by (simp add: writes_def)

text \<open>Two writes one after the other; \<open>g\<close> also covers an error code that is passed on as it is.\<close>

lemma writes_seq:
  assumes f: "writes f a" and g: "writes g b"
    and h: "\<And>s s'. f s = (NGX_OK, s') \<Longrightarrow> h s = g s'"
    and e: "\<And>s rc s'. f s = (rc, s') \<Longrightarrow> rc \<noteq> NGX_OK \<Longrightarrow> \<exists>rc'. rc' \<noteq> NGX_OK \<and> h s = (rc', s')"
  shows "writes h (a @ b)"
  unfolding writes_def
proof (intro allI impI conjI)
  fix s s'
  assume s: "ok s" and ok: "h s = (NGX_OK, s')"
  obtain rc s1 where 1: "f s = (rc, s1)" by fastforce
  have rc: "rc = NGX_OK" using e [OF 1] ok by fastforce
  have "ok s1" "contents s1 = contents s @ a" using f s 1 rc by (auto simp: writes_def)
  moreover have "g s1 = (NGX_OK, s')" using h 1 rc ok by simp
  ultimately show "ok s'" "contents s' = contents s @ a @ b" using g by (auto simp: writes_def)
next
  fix s rc' s'
  assume s: "ok s" and err: "h s = (rc', s')" "rc' \<noteq> NGX_OK"
  obtain rc s1 where 1: "f s = (rc, s1)" by fastforce
  show "\<exists>k. contents s' = contents s @ take k (a @ b)"
  proof (cases "rc = NGX_OK")
    case True
    then have 2: "ok s1" "contents s1 = contents s @ a" using f s 1 by (auto simp: writes_def)
    have "g s1 = (rc', s')" using h 1 True err by simp
    from writesD(2) [OF g 2(1) this err(2)] obtain k where "contents s' = (contents s @ a) @ take k b"
      using 2(2) by auto
    then show ?thesis by (intro exI [of _ "length a + k"]) simp
  next
    case False
    then have "s' = s1" using e [OF 1] err by fastforce
    moreover obtain k where "contents s1 = contents s @ take k a" using writesD(2) [OF f s 1 False] by blast
    ultimately show ?thesis by (intro exI [of _ "min k (length a)"]) (simp add: min_def)
  qed
next
  fix s n
  assume s: "ok s" and r: "room (length (a @ b) + n) s"
  then obtain s1 where 1: "f s = (NGX_OK, s1)" "room (length b + n) s1"
    using writesD(3) [OF f s, of "length b + n"] by (auto simp: add.assoc)
  moreover have "ok s1" using f s 1(1) by (auto simp: writes_def)
  ultimately obtain s2 where "g s1 = (NGX_OK, s2)" "room n s2" using writesD(3) [OF g] by blast
  then show "\<exists>s'. h s = (NGX_OK, s') \<and> room n s'" using h [OF 1(1)] by simp
qed

lemma writes_then: "writes f a \<Longrightarrow> writes g b \<Longrightarrow> writes (write_then f g) (a @ b)"
  by (rule writes_seq [of f a g b]) (auto simp: write_then_def split: ngx_rc.splits)

lemma writes_each: "(\<And>x. x \<in> set xs \<Longrightarrow> writes (f x) (g x)) \<Longrightarrow> writes (write_each f xs) (concat (map g xs))"
proof (induction xs)
  case Nil
  have "write_each f [] = (\<lambda>s. (NGX_OK, s))" by (rule ext) simp
  then show ?case by (simp add: writes_nothing)
next
  case (Cons x xs)
  have "write_each f (x # xs) = write_then (f x) (write_each f xs)" by (rule ext) simp
  then show ?case using Cons by (simp add: writes_then)
qed

end

section \<open>The writer is a sink\<close>

abbreviation (input) BLOCK :: nat where "BLOCK \<equiv> NGX_HEALTHCHECK_STATUS_BLOCK_SIZE"

definition wr_bytes :: "writer \<Rightarrow> bytes" where
  "wr_bytes w = concat (wr_blocks w)"

text \<open>All blocks but the last are full, the last is neither empty nor too long, the totals are right.\<close>

definition writer_wf :: "writer \<Rightarrow> bool" where
  "writer_wf w \<longleftrightarrow>
     (\<forall>b \<in> set (butlast (wr_blocks w)). length b = BLOCK) \<and>
     (wr_blocks w \<noteq> [] \<longrightarrow> last (wr_blocks w) \<noteq> [] \<and> length (last (wr_blocks w)) \<le> BLOCK) \<and>
     unat (wr_length w) = length (wr_bytes w) \<and> length (wr_bytes w) < 2 ^ 63 \<and>
     wr_count w = of_nat (length (wr_blocks w))"

text \<open>Blocks for \<open>n\<close> bytes.\<close>

definition blocks_for :: "nat \<Rightarrow> nat" where
  "blocks_for n = (n + BLOCK - 1) div BLOCK"

definition writer_room :: "nat \<Rightarrow> writer \<Rightarrow> bool" where
  "writer_room n w \<longleftrightarrow> length (wr_bytes w) + n < 2 ^ 63 \<and>
     (\<exists>r. wr_pool w = replicate (3 * (blocks_for (length (wr_bytes w) + n) - length (wr_blocks w))) True @ r)"

lemma block_pos [simp]: "0 < BLOCK"
  by (simp add: NGX_HEALTHCHECK_STATUS_BLOCK_SIZE_def)

lemma concat_full: "\<forall>b \<in> set bs. length b = n \<Longrightarrow> length (concat bs) = n * length bs"
  by (induction bs) auto

lemma writer_wf_length:
  assumes "writer_wf w" and "length (wr_blocks w) = Suc n"
  shows "length (wr_bytes w) = BLOCK * n + length (last (wr_blocks w))"
proof -
  have "wr_blocks w \<noteq> []" using assms(2) by auto
  then have "wr_blocks w = butlast (wr_blocks w) @ [last (wr_blocks w)]" by simp
  then have "length (wr_bytes w) = length (concat (butlast (wr_blocks w))) + length (last (wr_blocks w))"
    unfolding wr_bytes_def by (metis concat_append concat.simps(1,2) append_Nil2 length_append)
  moreover have "\<forall>b \<in> set (butlast (wr_blocks w)). length b = BLOCK" using assms(1) by (simp add: writer_wf_def)
  ultimately show ?thesis using concat_full [of "butlast (wr_blocks w)" BLOCK] assms(2) by simp
qed

lemma writer_wf_blocks:
  assumes "writer_wf w"
  shows "length (wr_blocks w) = blocks_for (length (wr_bytes w))"
proof (cases "length (wr_blocks w)")
  case 0
  then show ?thesis by (simp add: wr_bytes_def blocks_for_def)
next
  case (Suc n)
  let ?l = "length (last (wr_blocks w))"
  have ne: "wr_blocks w \<noteq> []" using Suc by auto
  then have l: "0 < ?l" "?l \<le> BLOCK" using assms by (auto simp: writer_wf_def)
  have "length (wr_bytes w) + BLOCK - 1 = (?l - 1) + Suc n * BLOCK"
    using writer_wf_length [OF assms Suc] l(1) by (simp add: mult.commute [of BLOCK]) (cases ?l; simp)
  moreover have "(?l - 1) div BLOCK = 0" by (rule div_less) (use l in linarith)
  ultimately have "blocks_for (length (wr_bytes w)) = Suc n"
    unfolding blocks_for_def using div_mult_self1 [of BLOCK "?l - 1" "Suc n"] block_pos by simp
  then show ?thesis using Suc by simp
qed

text \<open>The tail block made ready: nothing changes but a new empty block if one is needed.\<close>

definition tail_open :: "writer \<Rightarrow> writer \<Rightarrow> bool" where
  "tail_open w w1 \<longleftrightarrow> wr_bytes w1 = wr_bytes w \<and> wr_length w1 = wr_length w \<and> wr_blocks w1 \<noteq> [] \<and>
     (\<forall>b \<in> set (butlast (wr_blocks w1)). length b = BLOCK) \<and> length (last (wr_blocks w1)) < BLOCK \<and>
     wr_count w1 = of_nat (length (wr_blocks w1)) \<and> length (wr_blocks w) \<le> length (wr_blocks w1) \<and>
     wr_pool w1 = drop (3 * (length (wr_blocks w1) - length (wr_blocks w))) (wr_pool w)"

lemma add_block_ok:
  "ngx_healthcheck_status_writer_add_block w = (NGX_OK, w1) \<Longrightarrow>
    w1 = w\<lparr>wr_blocks := wr_blocks w @ [[]], wr_count := wr_count w + 1, wr_pool := drop 3 (wr_pool w)\<rparr>"
  by (auto simp: ngx_healthcheck_status_writer_add_block_def next_alloc_def eval_nat_numeral
      split: if_splits list.splits)

lemma add_block_error:
  "ngx_healthcheck_status_writer_add_block w = (rc, w1) \<Longrightarrow> rc \<noteq> NGX_OK \<Longrightarrow> wr_blocks w1 = wr_blocks w"
  by (auto simp: ngx_healthcheck_status_writer_add_block_def split: if_splits prod.splits)

lemma add_block_supplied:
  "wr_pool w = replicate 3 True @ r \<Longrightarrow> fst (ngx_healthcheck_status_writer_add_block w) = NGX_OK"
  by (simp add: ngx_healthcheck_status_writer_add_block_def next_alloc_def eval_nat_numeral)

lemma tail_ready_open:
  assumes "writer_wf w" and "tail_ready w = (NGX_OK, w1)"
  shows "tail_open w w1"
proof (cases "wr_blocks w = [] \<or> tail_room w = 0")
  case True
  have full: "\<forall>b \<in> set (wr_blocks w). length b = BLOCK"
  proof (cases "wr_blocks w = []")
    case False
    with True have "length (last (wr_blocks w)) = BLOCK"
      using assms(1) by (simp add: tail_room_def writer_wf_def)
    then show ?thesis using assms(1) False
      by (metis append_butlast_last_id in_set_conv_decomp rotate1.simps(2) set_ConsD set_rotate1 writer_wf_def)
  qed simp
  from True assms(2) show ?thesis
    using assms(1) full
    by (auto simp: tail_ready_def tail_open_def wr_bytes_def writer_wf_def dest!: add_block_ok)
next
  case False
  then show ?thesis using assms
    by (auto simp: tail_ready_def tail_open_def tail_room_def writer_wf_def)
qed

lemma tail_copy_wf:
  assumes "tail_open w w1" and "unat (wr_length w) = length (wr_bytes w)"
    and d: "d \<noteq> []" "length d \<le> tail_room w1" "length (wr_bytes w) + length d < 2 ^ 63"
  shows "writer_wf (tail_copy d w1)" "wr_bytes (tail_copy d w1) = wr_bytes w @ d"
    "length (wr_blocks (tail_copy d w1)) = length (wr_blocks w1)"
proof -
  have b: "wr_blocks w1 = butlast (wr_blocks w1) @ [last (wr_blocks w1)]" using assms(1) by (simp add: tail_open_def)
  have "concat (wr_blocks w1) = concat (butlast (wr_blocks w1)) @ last (wr_blocks w1)" by (subst b) simp
  then show bytes: "wr_bytes (tail_copy d w1) = wr_bytes w @ d"
    using assms(1) by (simp add: tail_copy_def wr_bytes_def tail_open_def)
  show len: "length (wr_blocks (tail_copy d w1)) = length (wr_blocks w1)"
    using assms(1) by (simp add: tail_copy_def tail_open_def)
  have "unat (of_nat (length d) :: u64) = length d"
    using d(3) by (simp add: unat_of_nat take_bit_nat_eq_self)
  then have "unat (wr_length w1 + of_nat (length d)) = length (wr_bytes w) + length d"
    using assms(1,2) d(3) by (subst unat_add_no_wrap) (simp_all add: tail_open_def)
  moreover have "length (last (wr_blocks w1)) + length d \<le> BLOCK"
    using assms(1) d(2) by (auto simp: tail_open_def tail_room_def)
  ultimately show "writer_wf (tail_copy d w1)"
    using assms(1) d bytes len by (simp add: writer_wf_def tail_open_def tail_room_def tail_copy_def)
qed

section \<open>Appending\<close>

text \<open>One turn of the loop.\<close>

lemma append_nil [simp]: "ngx_healthcheck_status_writer_append [] w = (NGX_OK, w)"
  by (simp add: ngx_healthcheck_status_writer_append.simps)

lemma length_check:
  assumes "c < 2 ^ 63"
  shows "(l :: u64) > INT64_MAX - of_nat c \<longleftrightarrow> 2 ^ 63 \<le> unat l + c"
proof -
  have c: "unat (of_nat c :: u64) = c" using assms by (simp add: unat_of_nat take_bit_nat_eq_self)
  have "of_nat c \<le> INT64_MAX" using assms c by (simp add: word_le_nat_alt)
  then have "unat (INT64_MAX - of_nat c) = 2 ^ 63 - 1 - c" using c by (simp add: unat_sub)
  then show ?thesis using assms by (simp only: word_less_nat_alt) linarith
qed

lemma append_step:
  assumes "data \<noteq> []" and "writer_wf w" and "tail_ready w = (NGX_OK, w1)"
    and c: "c = min (tail_room w1) (length data)"
  shows "tail_open w w1" "0 < c" "c \<le> length data" "c < 2 ^ 63"
    "length (wr_bytes w) + c < 2 ^ 63 \<Longrightarrow> ngx_healthcheck_status_writer_append data w =
       ngx_healthcheck_status_writer_append (drop c data) (tail_copy (take c data) w1)"
    "2 ^ 63 \<le> length (wr_bytes w) + c \<Longrightarrow> ngx_healthcheck_status_writer_append data w = (NGX_ERROR, w1)"
    "length (wr_bytes w) + c < 2 ^ 63 \<Longrightarrow> writer_wf (tail_copy (take c data) w1)"
    "wr_bytes (tail_copy (take c data) w1) = wr_bytes w @ take c data"
    "length (wr_blocks (tail_copy (take c data) w1)) = length (wr_blocks w1)"
proof -
  show o': "tail_open w w1" using tail_ready_open assms by blast
  show c0: "0 < c" "c \<le> length data" using tail_ready_room [OF assms(3)] assms(1) by (simp_all add: c)
  have "tail_room w1 \<le> BLOCK" by (simp add: tail_room_def)
  then show c1: "c < 2 ^ 63" by (simp add: c NGX_HEALTHCHECK_STATUS_BLOCK_SIZE_def)
  have l: "unat (wr_length w1) = length (wr_bytes w)" using o' assms(2) by (simp add: tail_open_def writer_wf_def)
  from length_check [OF c1, of "wr_length w1"] l
  have k: "wr_length w1 > INT64_MAX - of_nat c \<longleftrightarrow> 2 ^ 63 \<le> length (wr_bytes w) + c" by simp
  show "length (wr_bytes w) + c < 2 ^ 63 \<Longrightarrow> ngx_healthcheck_status_writer_append data w =
       ngx_healthcheck_status_writer_append (drop c data) (tail_copy (take c data) w1)"
    "2 ^ 63 \<le> length (wr_bytes w) + c \<Longrightarrow> ngx_healthcheck_status_writer_append data w = (NGX_ERROR, w1)"
    using assms(1,3) k unfolding c
    by (simp_all add: ngx_healthcheck_status_writer_append.simps [of data w] Let_def)
  have d: "take c data \<noteq> []" "length (take c data) = c" using c0 assms(1) by auto
  note t = tail_copy_wf [OF o' _ d(1)]
  have u: "unat (wr_length w) = length (wr_bytes w)" using assms(2) by (simp add: writer_wf_def)
  show "length (wr_bytes w) + c < 2 ^ 63 \<Longrightarrow> writer_wf (tail_copy (take c data) w1)"
    using t(1) [OF u] d(2) c by simp
  have b: "wr_blocks w1 = butlast (wr_blocks w1) @ [last (wr_blocks w1)]" using o' by (simp add: tail_open_def)
  have "concat (wr_blocks w1) = concat (butlast (wr_blocks w1)) @ last (wr_blocks w1)" by (subst b) simp
  then show "wr_bytes (tail_copy (take c data) w1) = wr_bytes w @ take c data"
    using o' by (simp add: tail_copy_def wr_bytes_def tail_open_def)
  show "length (wr_blocks (tail_copy (take c data) w1)) = length (wr_blocks w1)"
    using o' by (simp add: tail_copy_def tail_open_def)
qed

definition appended :: "bytes \<Rightarrow> writer \<Rightarrow> writer \<Rightarrow> bool" where
  "appended data w w' \<longleftrightarrow> writer_wf w' \<and> wr_bytes w' = wr_bytes w @ data \<and>
     length (wr_blocks w) \<le> length (wr_blocks w') \<and>
     wr_pool w' = drop (3 * (length (wr_blocks w') - length (wr_blocks w))) (wr_pool w)"

lemma append_appended:
  "writer_wf w \<Longrightarrow> ngx_healthcheck_status_writer_append data w = (rc, w') \<Longrightarrow>
     (if rc = NGX_OK then appended data w w' else \<exists>k. wr_bytes w' = wr_bytes w @ take k data)"
proof (induction "length data" arbitrary: data w rule: less_induct)
  case less
  show ?case
  proof (cases "data = []")
    case True
    then show ?thesis using less.prems by (auto simp: appended_def)
  next
    case data: False
    obtain r w1 where 1: "tail_ready w = (r, w1)" by fastforce
    show ?thesis
    proof (cases "r = NGX_OK")
      case False
      with 1 data less.prems(2) have "rc \<noteq> NGX_OK" "w' = w1"
        by (auto simp: ngx_healthcheck_status_writer_append.simps [of data w] split: ngx_rc.splits)
      moreover have "wr_bytes w1 = wr_bytes w"
        using 1 False add_block_error by (auto simp: tail_ready_def wr_bytes_def split: if_splits)
      ultimately show ?thesis by (auto intro: exI [of _ 0])
    next
      case True
      define c where "c = min (tail_room w1) (length data)"
      note st = append_step [OF data less.prems(1) 1 [unfolded True] c_def]
      show ?thesis
      proof (cases "length (wr_bytes w) + c < 2 ^ 63")
        case False
        then have "rc \<noteq> NGX_OK" "w' = w1" using st(6) less.prems(2) by auto
        then show ?thesis using st(1) by (auto simp: tail_open_def intro: exI [of _ 0])
      next
        case True
        let ?w2 = "tail_copy (take c data) w1"
        have "length (drop c data) < length data" using st(2) data by simp
        from less.hyps [OF this st(7) [OF True]] less.prems(2) st(5) [OF True]
        have IH: "if rc = NGX_OK then appended (drop c data) ?w2 w'
            else \<exists>k. wr_bytes w' = wr_bytes ?w2 @ take k (drop c data)" by simp
        show ?thesis
        proof (cases "rc = NGX_OK")
          case True
          have "wr_pool ?w2 = wr_pool w1" by (simp add: tail_copy_def)
          with IH True st(1,8,9) show ?thesis
            by (auto simp: appended_def tail_open_def add_mult_distrib2 [symmetric] drop_drop)
        next
          case False
          with IH obtain k where "wr_bytes w' = wr_bytes w @ take c data @ take k (drop c data)"
            using st(8) by auto
          then show ?thesis using False by (auto simp: take_add [symmetric] intro: exI [of _ "c + k"])
        qed
      qed
    qed
  qed
qed

text \<open>With room for the data the append cannot fail.\<close>

lemma blocks_for_mono: "m \<le> n \<Longrightarrow> blocks_for m \<le> blocks_for n"
  by (simp add: blocks_for_def div_le_mono)

lemma blocks_for_full: "0 < n \<Longrightarrow> k < blocks_for (BLOCK * k + n)"
proof -
  assume "0 < n"
  then have "BLOCK * Suc k \<le> BLOCK * k + n + BLOCK - 1" by simp
  from div_le_mono [OF this, of BLOCK] show ?thesis using block_pos by (simp add: blocks_for_def)
qed

lemma tail_ready_supplied:
  assumes "writer_wf w" and "writer_room (length data + n) w" and "data \<noteq> []"
  shows "fst (tail_ready w) = NGX_OK"
proof (cases "wr_blocks w = [] \<or> tail_room w = 0")
  case True
  have "length (wr_bytes w) = BLOCK * length (wr_blocks w)"
  proof (cases "length (wr_blocks w)")
    case 0
    then show ?thesis by (simp add: wr_bytes_def)
  next
    case (Suc m)
    then have "length (last (wr_blocks w)) = BLOCK"
      using True assms(1) by (auto simp: tail_room_def writer_wf_def)
    then show ?thesis using writer_wf_length [OF assms(1) Suc] Suc by simp
  qed
  then have "length (wr_blocks w) < blocks_for (length (wr_bytes w) + (length data + n))"
    using blocks_for_full [of "length data + n" "length (wr_blocks w)"] assms(3) by simp
  then obtain m where "blocks_for (length (wr_bytes w) + (length data + n)) - length (wr_blocks w) = Suc m"
    by (metis Suc_diff_Suc)
  then obtain r where "wr_pool w = replicate (3 + 3 * m) True @ r"
    using assms(2) by (auto simp: writer_room_def)
  then have "wr_pool w = replicate 3 True @ replicate (3 * m) True @ r"
    by (simp only: replicate_add append_assoc)
  from add_block_supplied [OF this] True show ?thesis by (simp add: tail_ready_def)
qed (simp add: tail_ready_def)

lemma room_after:
  assumes "writer_wf w" and "appended d w w'" and "writer_room (length d + n) w"
  shows "writer_room n w'"
proof -
  let ?N = "blocks_for (length (wr_bytes w) + (length d + n))"
  have l: "length (wr_bytes w') = length (wr_bytes w) + length d" using assms(2) by (simp add: appended_def)
  have nb: "length (wr_blocks w') = blocks_for (length (wr_bytes w'))"
    using assms(2) by (intro writer_wf_blocks) (simp add: appended_def)
  have le: "length (wr_blocks w) \<le> length (wr_blocks w')" "length (wr_blocks w') \<le> ?N"
    using assms(2) nb l by (auto simp: appended_def intro: blocks_for_mono)
  obtain r where r: "wr_pool w = replicate (3 * (?N - length (wr_blocks w))) True @ r"
    using assms(3) by (auto simp: writer_room_def)
  have "wr_pool w' = drop (3 * (length (wr_blocks w') - length (wr_blocks w))) (wr_pool w)"
    using assms(2) by (simp add: appended_def)
  then have "wr_pool w' = replicate (3 * (?N - length (wr_blocks w'))) True @ r"
    using r le by (simp add: algebra_simps)
  with l assms(3) show ?thesis unfolding writer_room_def by (auto simp: add.assoc)
qed

lemma append_supplied:
  "writer_wf w \<Longrightarrow> writer_room (length data + n) w \<Longrightarrow> fst (ngx_healthcheck_status_writer_append data w) = NGX_OK"
proof (induction "length data" arbitrary: data w rule: less_induct)
  case less
  show ?case
  proof (cases "data = []")
    case data: False
    obtain w1 where 1: "tail_ready w = (NGX_OK, w1)"
      using tail_ready_supplied [OF less.prems data] by (cases "tail_ready w") auto
    define c where "c = min (tail_room w1) (length data)"
    note st = append_step [OF data less.prems(1) 1 c_def]
    have fits: "length (wr_bytes w) + c < 2 ^ 63" using less.prems(2) st(3) by (auto simp: writer_room_def)
    let ?w2 = "tail_copy (take c data) w1"
    have "appended (take c data) w ?w2"
      using st(1,7-9) fits by (simp add: appended_def tail_open_def) (simp add: tail_copy_def)
    moreover have "writer_room (length (take c data) + (length (drop c data) + n)) w"
      using less.prems(2) st(3) by simp
    ultimately have "writer_room (length (drop c data) + n) ?w2" using room_after less.prems(1) by blast
    then show ?thesis using less.hyps [of "drop c data" ?w2] st(2,5,7) data fits by simp
  qed simp
qed

section \<open>The interface, and the formats over it\<close>

interpretation wr: byte_sink ngx_healthcheck_status_writer_append wr_bytes writer_wf writer_room
proof
  fix s d s' rc n
  assume s: "writer_wf s"
  show "ngx_healthcheck_status_writer_append d s = (NGX_OK, s') \<Longrightarrow> writer_wf s' \<and> wr_bytes s' = wr_bytes s @ d"
    using append_appended [OF s] by (fastforce simp: appended_def)
  show "ngx_healthcheck_status_writer_append d s = (rc, s') \<Longrightarrow> rc \<noteq> NGX_OK \<Longrightarrow>
      \<exists>k. wr_bytes s' = wr_bytes s @ take k d"
    using append_appended [OF s, of d rc s'] by simp
  assume r: "writer_room (length d + n) s"
  obtain s2 where "ngx_healthcheck_status_writer_append d s = (NGX_OK, s2)"
    using append_supplied [OF s r] by (cases "ngx_healthcheck_status_writer_append d s") auto
  with append_appended [OF s this] room_after [OF s _ r]
  show "\<exists>s'. ngx_healthcheck_status_writer_append d s = (NGX_OK, s') \<and> writer_room n s'" by auto
qed

lemma append_all_writes: "wr.writes (append_all ds) (concat ds)"
proof (induction ds)
  case Nil
  have "append_all [] = (\<lambda>s. (NGX_OK, s))" by (rule ext) simp
  then show ?case by (simp add: wr.writes_nothing)
next
  case (Cons d ds)
  show ?case unfolding concat.simps
    by (rule wr.writes_seq [OF wr.writes_put Cons.IH, of d]) (auto split: ngx_rc.splits)
qed

lemma flush_writes: "wr.writes (flush_literal literal) literal"
proof (cases "literal = []")
  case True
  then have "flush_literal literal = (\<lambda>w. (NGX_OK, w))" by (simp add: flush_literal_def fun_eq_iff)
  with True show ?thesis by (simp add: wr.writes_nothing)
next
  case False
  then have "flush_literal literal = ngx_healthcheck_status_writer_append literal"
    by (simp add: flush_literal_def fun_eq_iff)
  then show ?thesis by (simp add: wr.writes_put)
qed

lemma printf_loop_writes:
  "render fmt args = Some out \<Longrightarrow> wr.writes (printf_loop literal fmt args) (literal @ out)"
proof (induction fmt args arbitrary: literal out rule: render.induct)
  case (1 args)
  have "printf_loop literal [] args = flush_literal literal" by (simp add: printf_loop.simps fun_eq_iff)
  then show ?case using 1 flush_writes by simp
next
  case (2 c fmt args)
  show ?case
  proof (cases "c = CHR ''%''")
    case False
    then obtain out' where "render fmt args = Some out'" "out = c # out'" using 2(3) by auto
    moreover have "printf_loop literal (c # fmt) args = printf_loop (literal @ [c]) fmt args"
      using False by (simp add: printf_loop.simps fun_eq_iff)
    ultimately show ?thesis using 2(1) [OF False, of out' "literal @ [c]"] by simp
  next
    case True
    then obtain ds fmt' args' rest where
      c: "conversion fmt args = Some (ds, fmt', args')" "render fmt' args' = Some rest" "out = concat ds @ rest"
      using 2(3) by (auto split: option.splits)
    from 2(2) [of "(ds, fmt', args')" ds "(fmt', args')" fmt' args' rest "[]"] True c
    have IH: "wr.writes (printf_loop [] fmt' args') rest" by simp
    let ?g = "\<lambda>w. case append_all ds w of
        (NGX_OK, w2) \<Rightarrow> printf_loop [] fmt' args' w2 | (rc, w2) \<Rightarrow> (rc, w2)"
    have g: "wr.writes ?g (concat ds @ rest)"
      by (rule wr.writes_seq [OF append_all_writes IH]) (auto split: ngx_rc.splits)
    show ?thesis unfolding c(3)
      by (rule wr.writes_seq [OF flush_writes g])
        (use True c(1) in \<open>auto simp: printf_loop.simps split: ngx_rc.splits\<close>)
  qed
qed

lemma printf_writes:
  "render fmt args = Some out \<Longrightarrow> wr.writes (ngx_healthcheck_status_writer_printf fmt args) out"
proof -
  assume "render fmt args = Some out"
  moreover have "ngx_healthcheck_status_writer_printf fmt args = printf_loop [] fmt args"
    by (simp add: ngx_healthcheck_status_writer_printf_def fun_eq_iff)
  ultimately show ?thesis using printf_loop_writes [of fmt args out "[]"] by simp
qed

text \<open>A format that has no meaning is an error whatever the arguments and the pool.\<close>

lemma printf_loop_malformed: "render fmt args = None \<Longrightarrow> fst (printf_loop literal fmt args w) \<noteq> NGX_OK"
proof (induction fmt args arbitrary: literal w rule: render.induct)
  case (2 c fmt args)
  show ?case
  proof (cases "c = CHR ''%''")
    case False
    then show ?thesis using 2(1) [OF False, of "literal @ [c]" w] 2(3) by (simp add: printf_loop.simps)
  next
    case True
    show ?thesis
    proof (cases "conversion fmt args")
      case None
      with True show ?thesis by (auto simp: printf_loop.simps split: prod.splits ngx_rc.splits)
    next
      case (Some t)
      obtain ds fmt' args' where t: "t = (ds, fmt', args')" by (cases t) auto
      with True Some 2(3) have "render fmt' args' = None" by simp
      then have "fst (printf_loop [] fmt' args' v) \<noteq> NGX_OK" for v
        using 2(2) [of t ds "(fmt', args')" fmt' args' "[]" v] True Some t by blast
      with True Some t show ?thesis
        by (simp add: printf_loop.simps(2) split: prod.split ngx_rc.split)
    qed
  qed
qed simp

section \<open>Properties\<close>

text \<open>C33. A successful append stores exactly the given bytes behind the earlier ones, in full blocks of
  128 KiB with a non-empty last one, so with the least number of blocks; the recorded length is exact
  and below $2^{63}$.  An append that fails has stored a prefix.\<close>

theorem append_stores_bytes:
  assumes "writer_wf w" and "ngx_healthcheck_status_writer_append data w = (rc, w')"
  shows "if rc = NGX_OK
    then writer_wf w' \<and> wr_bytes w' = wr_bytes w @ data \<and> length (wr_blocks w') = blocks_for (length (wr_bytes w @ data))
    else \<exists>k. wr_bytes w' = wr_bytes w @ take k data"
  using append_appended [OF assms] by (auto simp: appended_def writer_wf_blocks [of w'])

text \<open>The number buffer of 20 bytes holds every 64-bit value, and reading the digits back gives the
  value.\<close>

lemma digits_roundtrip:
  "undecimal (uint_digits v []) = unat v \<and> length (uint_digits v []) \<le> 20"
  using length_decimal [of "unat v" 20] unat_less_2p64 [of v]
  by (simp add: uint_digits_decimal undecimal_decimal)


section \<open>Witnesses\<close>

definition demo_writer :: writer where
  "demo_writer = ngx_healthcheck_status_writer_init [True, True, True]"

lemmas writer_evaluation = ngx_healthcheck_status_writer_append.simps tail_ready_def tail_room_def tail_copy_def
  ngx_healthcheck_status_writer_add_block_def next_alloc_def NGX_HEALTHCHECK_STATUS_BLOCK_SIZE_def

lemma demo_writer_wf: "writer_wf demo_writer"
  by (simp add: demo_writer_def ngx_healthcheck_status_writer_init_def writer_wf_def wr_bytes_def)

lemma demo_append: "ngx_healthcheck_status_writer_append ''ab'' demo_writer =
    (NGX_OK, \<lparr>wr_blocks = [''ab''], wr_length = 2, wr_count = 1, wr_pool = []\<rparr>)"
  by (simp add: demo_writer_def ngx_healthcheck_status_writer_init_def writer_evaluation)

theorem append_stores_bytes_witness: "blocks_for (length ''ab'') = 1"
proof -
  have "wr_bytes demo_writer = []"
    by (simp add: demo_writer_def ngx_healthcheck_status_writer_init_def wr_bytes_def)
  then show ?thesis using append_stores_bytes [OF demo_writer_wf demo_append] by simp
qed

lemma demo_printf: "ngx_healthcheck_status_writer_printf ''a%ui%M'' [ArgUi 70, ArgM (- 1)] demo_writer =
    (NGX_OK, \<lparr>wr_blocks = [''a70-1''], wr_length = 5, wr_count = 1, wr_pool = []\<rparr>)"
  by (simp add: demo_writer_def ngx_healthcheck_status_writer_init_def writer_evaluation
      ngx_healthcheck_status_writer_printf_def printf_loop.simps flush_literal_def conversion_def
      msec_pieces_def uint_digits_decimal decimal.simps digit_def char_of_def bit_Suc bit_0)


end
