(* ===== verification/Request.thy ===== *)
theory Request
  imports Snapshot Writer
begin

text \<open>
  A status request (\<^verbatim>\<open>status/ngx_healthcheck_request.c\<close> and the send function of the writer): collect the
  snapshots in batches, wait on a timer when a lock is contended or the batch is used up, and send the
  page when all peers have been read.
\<close>

section \<open>The request\<close>

text \<open>
  \<^verbatim>\<open>ngx_int_t\<close> results of the HTTP side: nginx's codes are 0 and negative, HTTP statuses positive.
\<close>

type_synonym http_rc = int

abbreviation (input) HTTP_ERROR :: http_rc where "HTTP_ERROR \<equiv> - 1"
abbreviation (input) HTTP_DONE :: http_rc where "HTTP_DONE \<equiv> - 4"
abbreviation (input) NGX_HTTP_OK :: http_rc where "NGX_HTTP_OK \<equiv> 200"
abbreviation (input) NGX_HTTP_INTERNAL_SERVER_ERROR :: http_rc where "NGX_HTTP_INTERNAL_SERVER_ERROR \<equiv> 500"
abbreviation (input) NGX_HEALTHCHECK_STATUS_BATCH :: nat where "NGX_HEALTHCHECK_STATUS_BATCH \<equiv> 256"
abbreviation (input) NGX_HEALTHCHECK_STATUS_RETRY_MS :: u64 where "NGX_HEALTHCHECK_STATUS_RETRY_MS \<equiv> 5"
abbreviation (input) NGX_HEALTHCHECK_STATUS_YIELD_MS :: u64 where "NGX_HEALTHCHECK_STATUS_YIELD_MS \<equiv> 1"
abbreviation (input) NGX_HEALTHCHECK_STATUS_WARN_MS :: u64 where "NGX_HEALTHCHECK_STATUS_WARN_MS \<equiv> 1000"
abbreviation (input) NGX_HEALTHCHECK_STATUS_LOG_MS :: u64 where "NGX_HEALTHCHECK_STATUS_LOG_MS \<equiv> 5000"

text \<open>What has been sent: the header, and the chain given to the output filter if it was called.\<close>

record response =
  rp_status :: http_rc
  rp_length :: u64
  rp_body :: "bytes list option"
  rp_last :: bool

text \<open>A warning of the log: when, the module's number, the peer and the milliseconds waited.\<close>

record warning =
  wn_time :: u64
  wn_module :: u64
  wn_peer :: nat
  wn_elapsed :: u64

text \<open>
  The HTTP request and its connection: \<open>ht_last\<close> is \<^verbatim>\<open>r->main == NULL || r == r->main\<close>, \<open>ht_watch\<close> says
  that the read event of the connection is to be registered (main request on a plain socket); the
  answers of \<^verbatim>\<open>ngx_http_send_header\<close>, \<^verbatim>\<open>ngx_http_output_filter\<close>, the event registration and the pool;
  then what the module did: response, log, codes given to \<^verbatim>\<open>ngx_http_finalize_request\<close>, references.
\<close>

record http =
  ht_last :: bool
  ht_watch :: bool
  ht_head :: bool
  ht_header_only :: bool
  ht_error :: bool
  ht_close :: bool
  ht_terminated :: bool
  ht_discard_body :: bool
  ht_send_header :: http_rc
  ht_output_filter :: http_rc
  ht_events :: "bool list"
  ht_pool :: "bool list"
  ht_response :: "response option"
  ht_warnings :: "warning list"
  ht_finalized :: "http_rc list"
  ht_count :: nat
  ht_cleanup :: bool

text \<open>
  \<^verbatim>\<open>ngx_healthcheck_request_t\<close>; \<open>rq_output\<close> has its argument applied, \<open>rq_retry\<close> is the timer of the
  retry event.  The zones are those of the sources, by position.
\<close>

record request = http +
  rq_sources :: "source option list"
  rq_snapshots :: "snapshot list"
  rq_output :: "snapshot list \<Rightarrow> writer \<Rightarrow> ngx_rc \<times> writer"
  rq_flag :: u64
  rq_module :: nat
  rq_waiting_module :: nat
  rq_waiting_peer :: nat
  rq_started :: u64
  rq_next_log :: u64
  rq_retry :: "u64 option"
  rq_posted :: bool
  rq_zones :: "nat \<Rightarrow> zone_view"

definition ngx_healthcheck_request_cleanup :: "request \<Rightarrow> request" where
  "ngx_healthcheck_request_cleanup r = r\<lparr>rq_retry := None, rq_posted := False, ht_cleanup := False\<rparr>"

text \<open>The read handler of a waiting request: what it calls.\<close>

datatype read_action = Finalize http_rc | Discard_body | Test_reading

definition ngx_healthcheck_request_read :: "request \<Rightarrow> read_action" where
  "ngx_healthcheck_request_read r =
     (if ht_error r then Finalize HTTP_ERROR else if ht_discard_body r then Discard_body else Test_reading)"

section \<open>Collecting and sending\<close>

function collect_loop :: "nat \<Rightarrow> request \<Rightarrow> ngx_rc \<times> request" where
  "collect_loop remaining r =
     (if \<not> rq_module r < length (rq_sources r) then (NGX_OK, r)
      else let m = rq_module r;
               (rc, sn, remaining', z) = ngx_healthcheck_snapshot_step (rq_sources r ! m) (rq_flag r)
                  (rq_snapshots r ! m) remaining (rq_zones r m);
               r1 = r\<lparr>rq_snapshots := (rq_snapshots r)[m := sn], rq_zones := (rq_zones r)(m := z)\<rparr>
           in if rc \<noteq> NGX_OK then (rc, r1)
              else collect_loop remaining' (r1\<lparr>rq_module := m + 1\<rparr>))"
  by pat_completeness auto
termination
  by (relation "measure (\<lambda>(remaining, r). length (rq_sources r) - rq_module r)") auto

declare collect_loop.simps [simp del]

definition ngx_healthcheck_request_collect :: "request \<Rightarrow> ngx_rc \<times> request" where
  "ngx_healthcheck_request_collect r = collect_loop NGX_HEALTHCHECK_STATUS_BATCH r"

text \<open>\<^verbatim>\<open>ngx_healthcheck_status_writer_send\<close>.\<close>

definition ngx_healthcheck_status_writer_send :: "writer \<Rightarrow> request \<Rightarrow> http_rc \<times> request" where
  "ngx_healthcheck_status_writer_send w r =
     (let rc = ht_send_header r;
          header = \<lparr>rp_status = NGX_HTTP_OK, rp_length = wr_length w, rp_body = None,
            rp_last = wr_blocks w \<noteq> [] \<and> ht_last r\<rparr>
      in if rc = HTTP_ERROR \<or> rc > 0 \<or> ht_header_only r \<or> ht_head r \<or> wr_blocks w = []
         then (rc, r\<lparr>ht_response := Some header\<rparr>)
         else (ht_output_filter r, r\<lparr>ht_response := Some (header\<lparr>rp_body := Some (wr_blocks w)\<rparr>)\<rparr>))"

definition ngx_healthcheck_request_output :: "request \<Rightarrow> http_rc \<times> request" where
  "ngx_healthcheck_request_output r =
     (let (rc, w) = rq_output r (rq_snapshots r) (ngx_healthcheck_status_writer_init (ht_pool r));
          r1 = r\<lparr>ht_pool := wr_pool w\<rparr>
      in if rc \<noteq> NGX_OK then (NGX_HTTP_INTERNAL_SERVER_ERROR, r1) else ngx_healthcheck_status_writer_send w r1)"

section \<open>Waiting\<close>

text \<open>The time spent on one peer, and the log at most every 5 s.\<close>

definition wait_peer :: "u64 \<Rightarrow> request \<Rightarrow> request" where
  "wait_peer ms r =
     (let m = rq_module r; next = sn_next (rq_snapshots r ! m) in
      if rq_started r = 0 \<or> rq_waiting_module r \<noteq> m \<or> rq_waiting_peer r \<noteq> next
      then r\<lparr>rq_started := ms, rq_waiting_module := m, rq_waiting_peer := next,
             rq_next_log := max (rq_next_log r) (ngx_healthcheck_add_time ms NGX_HEALTHCHECK_STATUS_WARN_MS)\<rparr>
      else r)"

definition wait_log :: "u64 \<Rightarrow> request \<Rightarrow> request" where
  "wait_log ms r =
     (if ms \<ge> rq_next_log r then
        r\<lparr>ht_warnings := ht_warnings r @ [\<lparr>wn_time = ms,
            wn_module = (case rq_sources r ! rq_module r of None \<Rightarrow> 0 | Some src \<Rightarrow> so_module src),
            wn_peer = sn_next (rq_snapshots r ! rq_module r), wn_elapsed = ms - rq_started r\<rparr>],
          rq_next_log := ngx_healthcheck_add_time ms NGX_HEALTHCHECK_STATUS_LOG_MS\<rparr>
      else r)"

definition wait_contended :: "request \<Rightarrow> request" where
  "wait_contended r =
     (let (time, z) = ngx_healthcheck_now (rq_zones r (rq_module r));
          r1 = r\<lparr>rq_zones := (rq_zones r)(rq_module r := z)\<rparr>
      in case time of
           None \<Rightarrow> r1
         | Some now \<Rightarrow> let ms = now div 1000000 in wait_log ms (wait_peer ms r1))"

definition ngx_healthcheck_request_wait :: "ngx_rc \<Rightarrow> request \<Rightarrow> ngx_rc \<times> request" where
  "ngx_healthcheck_request_wait rc r =
     (let (ok, t) = (if ht_watch r then next_alloc (ht_events r) else (True, ht_events r));
          r1 = r\<lparr>ht_events := t\<rparr>
      in if \<not> ok then (NGX_ERROR, r1)
         else let r2 = (if rc = NGX_AGAIN then wait_contended r1 else r1)
           in (NGX_OK, r2\<lparr>rq_retry := Some (if rc = NGX_AGAIN then NGX_HEALTHCHECK_STATUS_RETRY_MS
                                             else NGX_HEALTHCHECK_STATUS_YIELD_MS)\<rparr>))"

section \<open>The life of a request\<close>

definition request_finish :: "http_rc \<Rightarrow> request \<Rightarrow> request" where
  "request_finish rc r =
     (let r1 = ngx_healthcheck_request_cleanup r in r1\<lparr>ht_finalized := ht_finalized r1 @ [rc]\<rparr>)"

text \<open>The timer has fired, so it is no longer set.\<close>

definition ngx_healthcheck_request_resume :: "request \<Rightarrow> request" where
  "ngx_healthcheck_request_resume r0 =
     (let r = r0\<lparr>rq_retry := None\<rparr> in
      if ht_error r \<or> ht_close r \<or> ht_terminated r then request_finish HTTP_ERROR r
      else case ngx_healthcheck_request_collect r of
        (NGX_OK, r1) \<Rightarrow> (let (rc, r2) = ngx_healthcheck_request_output r1 in request_finish rc r2)
      | (rc, r1) \<Rightarrow>
          if rc = NGX_AGAIN \<or> rc = NGX_BUSY then
            (case ngx_healthcheck_request_wait rc r1 of
               (NGX_OK, r2) \<Rightarrow> r2
             | (_, r2) \<Rightarrow> request_finish HTTP_ERROR r2)
          else request_finish NGX_HTTP_INTERNAL_SERVER_ERROR r1)"

text \<open>The initialisation of the snapshots, one by one.\<close>

fun init_snapshots :: "nat \<Rightarrow> source option list \<Rightarrow> request \<Rightarrow> bool \<times> request" where
  "init_snapshots m [] r = (True, r)"
| "init_snapshots m (src # srcs) r =
     (let (rc, sn, z) = ngx_healthcheck_snapshot_init src (rq_zones r m);
          r1 = r\<lparr>rq_snapshots := rq_snapshots r @ [sn], rq_zones := (rq_zones r)(m := z)\<rparr>
      in if rc \<noteq> NGX_OK then (False, r1) else init_snapshots (m + 1) srcs r1)"

text \<open>The zeroed context of a new request over its HTTP part \<open>h\<close>.\<close>

definition new_request :: "http \<Rightarrow> source option list \<Rightarrow> u64 \<Rightarrow>
    (snapshot list \<Rightarrow> writer \<Rightarrow> ngx_rc \<times> writer) \<Rightarrow> (nat \<Rightarrow> zone_view) \<Rightarrow> request" where
  "new_request h sources flag output zones = http.extend h
     \<lparr>rq_sources = sources, rq_snapshots = [], rq_output = output, rq_flag = flag, rq_module = 0,
      rq_waiting_module = 0, rq_waiting_peer = 0, rq_started = 0, rq_next_log = 0, rq_retry = None,
      rq_posted = False, rq_zones = zones\<rparr>"

text \<open>The first call, in the content phase; the pool answers for the context and the cleanup slot.\<close>

definition status_suspend :: "ngx_rc \<Rightarrow> request \<Rightarrow> http_rc \<times> request" where
  "status_suspend rc r =
     (let (ok, t) = next_alloc (ht_pool r); r1 = r\<lparr>ht_pool := t\<rparr> in
      if \<not> ok then (NGX_HTTP_INTERNAL_SERVER_ERROR, r1)
      else case ngx_healthcheck_request_wait rc (r1\<lparr>ht_cleanup := True\<rparr>) of
        (NGX_OK, r2) \<Rightarrow> (HTTP_DONE, r2\<lparr>ht_count := ht_count r2 + 1\<rparr>)
      | (_, r2) \<Rightarrow> (NGX_HTTP_INTERNAL_SERVER_ERROR, ngx_healthcheck_request_cleanup r2))"

definition ngx_healthcheck_status_request :: "http \<Rightarrow> source option list \<Rightarrow> u64 \<Rightarrow>
    (snapshot list \<Rightarrow> writer \<Rightarrow> ngx_rc \<times> writer) \<Rightarrow> (nat \<Rightarrow> zone_view) \<Rightarrow> http_rc \<times> request" where
  "ngx_healthcheck_status_request h sources flag output zones =
     (let r = new_request h sources flag output zones in
      if sources = [] \<or> length sources > 2 \<or> ht_error h then (NGX_HTTP_INTERNAL_SERVER_ERROR, r)
      else let (ok, t) = next_alloc (ht_pool r); r1 = r\<lparr>ht_pool := t\<rparr> in
        if \<not> ok then (NGX_HTTP_INTERNAL_SERVER_ERROR, r1)
        else let (ok, r2) = init_snapshots 0 sources r1 in
          if \<not> ok then (NGX_HTTP_INTERNAL_SERVER_ERROR, r2)
          else case ngx_healthcheck_request_collect r2 of
            (NGX_OK, r3) \<Rightarrow> ngx_healthcheck_request_output r3
          | (rc, r3) \<Rightarrow>
              if rc \<noteq> NGX_AGAIN \<and> rc \<noteq> NGX_BUSY then (NGX_HTTP_INTERNAL_SERVER_ERROR, r3)
              else status_suspend rc r3)"

section \<open>Complete pages\<close>

text \<open>The snapshot of a source so far, and complete; \<open>P\<close> holds of all states of the zone.\<close>

definition snap_good :: "(peers_shm \<Rightarrow> bool) \<Rightarrow> u64 \<Rightarrow> source option \<Rightarrow> snapshot \<Rightarrow> bool" where
  "snap_good P flag src sn =
     (case src of None \<Rightarrow> sn = zero_snapshot | Some src \<Rightarrow> \<exists>hs. snapshot_of P src flag sn hs)"

definition snap_full :: "(peers_shm \<Rightarrow> bool) \<Rightarrow> u64 \<Rightarrow> source option \<Rightarrow> snapshot \<Rightarrow> bool" where
  "snap_full P flag src sn =
     (case src of
        None \<Rightarrow> sn = zero_snapshot
      | Some src \<Rightarrow> \<exists>hs. snapshot_of P src flag sn hs \<and> length hs = length (so_peers src))"

definition request_ok :: "(nat \<Rightarrow> peers_shm \<Rightarrow> bool) \<Rightarrow> request \<Rightarrow> bool" where
  "request_ok P r \<longleftrightarrow>
     length (rq_snapshots r) = length (rq_sources r) \<and> rq_module r \<le> length (rq_sources r) \<and>
     (\<forall>m < length (rq_sources r). guarded (P m) (rq_zones r m) \<and>
        snap_good (P m) (rq_flag r) (rq_sources r ! m) (rq_snapshots r ! m) \<and>
        (m < rq_module r \<longrightarrow> snap_full (P m) (rq_flag r) (rq_sources r ! m) (rq_snapshots r ! m)))"

lemma snapshot_step_good:
  assumes "guarded P z" and "snap_good P flag src sn"
    and "ngx_healthcheck_snapshot_step src flag sn remaining z = (rc, sn', remaining', z')"
  shows "guarded P z' \<and> rc \<in> {NGX_OK, NGX_BUSY, NGX_AGAIN, NGX_ERROR} \<and>
    (rc \<noteq> NGX_ERROR \<longrightarrow> snap_good P flag src sn') \<and> (rc = NGX_OK \<longrightarrow> snap_full P flag src sn') \<and>
    sn_next sn' + remaining' = sn_next sn + remaining"
proof (cases src)
  case None
  with assms show ?thesis by (auto simp: ngx_healthcheck_snapshot_step_def snap_good_def snap_full_def)
next
  case (Some s)
  then obtain hs where hs: "snapshot_of P s flag sn hs" using assms(2) by (auto simp: snap_good_def)
  have "snapshot_loop s flag sn remaining z = (rc, sn', remaining', z')"
    using assms(3) Some by (simp add: ngx_healthcheck_snapshot_step_def)
  note sp = snapshot_loop_spec [OF assms(1) hs this]
  have "snap_full P flag src sn'" if ok: "rc = NGX_OK"
  proof -
    obtain hs' where hs': "snapshot_of P s flag sn' (hs @ hs')" using sp ok by auto
    moreover have "length (hs @ hs') = length (so_peers s)" using hs' sp ok by (simp add: snapshot_of_def)
    ultimately show ?thesis using Some unfolding snap_full_def by (auto intro!: exI [of _ "hs @ hs'"])
  qed
  with sp Some show ?thesis by (auto simp: snap_good_def)
qed

text \<open>What collecting leaves alone.\<close>

definition same_request :: "request \<Rightarrow> request \<Rightarrow> bool" where
  "same_request r r' \<longleftrightarrow> http.truncate r' = http.truncate r \<and> rq_sources r' = rq_sources r \<and>
     rq_output r' = rq_output r \<and> rq_flag r' = rq_flag r \<and> rq_retry r' = rq_retry r \<and>
     rq_started r' = rq_started r \<and> rq_next_log r' = rq_next_log r"

lemma same_request_refl [simp]: "same_request r r"
  by (simp add: same_request_def)

lemma same_request_trans: "same_request r s \<Longrightarrow> same_request s t \<Longrightarrow> same_request r t"
  by (simp add: same_request_def)

lemma same_request_collect [simp]:
  "same_request r (r\<lparr>rq_snapshots := a, rq_zones := b\<rparr>)" "same_request r (r\<lparr>rq_snapshots := a, rq_zones := b, rq_module := c\<rparr>)"
  by (simp_all add: same_request_def http.defs)

lemma same_request_fields:
  assumes "same_request r r'"
  shows "rq_sources r' = rq_sources r" "rq_output r' = rq_output r" "rq_flag r' = rq_flag r" "rq_retry r' = rq_retry r"
    "ht_response r' = ht_response r" "ht_finalized r' = ht_finalized r" "ht_events r' = ht_events r"
    "ht_watch r' = ht_watch r" "ht_pool r' = ht_pool r" "ht_error r' = ht_error r" "ht_warnings r' = ht_warnings r"
    "ht_close r' = ht_close r" "ht_terminated r' = ht_terminated r" "rq_started r' = rq_started r"
    "rq_next_log r' = rq_next_log r"
  using assms by (auto simp: same_request_def http.defs)

lemma request_ok_step:
  assumes "request_ok P r" and m: "rq_module r = m" "m < length (rq_sources r)"
    and "guarded (P m) z" and "snap_good (P m) (rq_flag r) (rq_sources r ! m) sn"
  shows "request_ok P (r\<lparr>rq_snapshots := (rq_snapshots r)[m := sn], rq_zones := (rq_zones r)(m := z)\<rparr>)"
  using assms by (auto simp: request_ok_def nth_list_update)

lemma request_ok_next:
  assumes "request_ok P r" and "rq_module r = m" "m < length (rq_sources r)"
    and "snap_full (P m) (rq_flag r) (rq_sources r ! m) (rq_snapshots r ! m)"
  shows "request_ok P (r\<lparr>rq_module := m + 1\<rparr>)"
  using assms by (auto simp: request_ok_def less_Suc_eq)

lemma collect_loop_ok:
  "request_ok P r \<Longrightarrow> collect_loop remaining r = (rc, r') \<Longrightarrow>
     same_request r r' \<and> rc \<in> {NGX_OK, NGX_BUSY, NGX_AGAIN, NGX_ERROR} \<and>
     (rc \<noteq> NGX_ERROR \<longrightarrow> request_ok P r') \<and> (rc = NGX_OK \<longrightarrow> rq_module r' = length (rq_sources r'))"
proof (induction "length (rq_sources r) - rq_module r" arbitrary: remaining r rule: less_induct)
  case less
  show ?case
  proof (cases "rq_module r < length (rq_sources r)")
    case False
    with less.prems show ?thesis by (auto simp: collect_loop.simps [of remaining r] request_ok_def)
  next
    case go: True
    let ?m = "rq_module r"
    obtain c sn rem' z where st: "ngx_healthcheck_snapshot_step (rq_sources r ! ?m) (rq_flag r)
        (rq_snapshots r ! ?m) remaining (rq_zones r ?m) = (c, sn, rem', z)" by (metis prod_cases4)
    let ?r1 = "r\<lparr>rq_snapshots := (rq_snapshots r)[?m := sn], rq_zones := (rq_zones r)(?m := z)\<rparr>"
    have "guarded (P ?m) (rq_zones r ?m)" "snap_good (P ?m) (rq_flag r) (rq_sources r ! ?m) (rq_snapshots r ! ?m)"
      using less.prems(1) go by (simp_all add: request_ok_def)
    note sg = snapshot_step_good [OF this st]
    have ok1: "c \<noteq> NGX_ERROR \<longrightarrow> request_ok P ?r1"
      using request_ok_step [OF less.prems(1) refl go] sg by blast
    show ?thesis
    proof (cases "c = NGX_OK")
      case False
      then have "rc = c" "r' = ?r1" using less.prems(2) go st by (simp_all add: collect_loop.simps [of remaining r] Let_def)
      with sg ok1 False show ?thesis by simp
    next
      case True
      let ?r2 = "?r1\<lparr>rq_module := ?m + 1\<rparr>"
      have "length (rq_snapshots r) = length (rq_sources r)" using less.prems(1) by (simp add: request_ok_def)
      then have "request_ok P ?r2"
        using request_ok_next [of P ?r1 ?m] ok1 True sg go by simp
      moreover have "collect_loop rem' ?r2 = (rc, r')"
        using less.prems(2) go st True by (simp add: collect_loop.simps [of remaining r] Let_def)
      moreover have "length (rq_sources ?r2) - rq_module ?r2 < length (rq_sources r) - ?m" using go by simp
      ultimately show ?thesis using less.hyps [of ?r2 rem'] same_request_trans [of r ?r2 r'] by simp
    qed
  qed
qed

text \<open>Collecting changes nothing else, whatever it meets.\<close>

lemma collect_same:
  "collect_loop remaining r = (rc, r') \<Longrightarrow> same_request r r'"
proof (induction "length (rq_sources r) - rq_module r" arbitrary: remaining r rule: less_induct)
  case less
  show ?case
  proof (cases "rq_module r < length (rq_sources r)")
    case False
    with less.prems show ?thesis by (simp add: collect_loop.simps [of remaining r])
  next
    case go: True
    let ?m = "rq_module r"
    obtain c sn rem' z where st: "ngx_healthcheck_snapshot_step (rq_sources r ! ?m) (rq_flag r)
        (rq_snapshots r ! ?m) remaining (rq_zones r ?m) = (c, sn, rem', z)" by (metis prod_cases4)
    let ?r2 = "r\<lparr>rq_snapshots := (rq_snapshots r)[?m := sn], rq_zones := (rq_zones r)(?m := z), rq_module := ?m + 1\<rparr>"
    show ?thesis
    proof (cases "c = NGX_OK")
      case False
      with less.prems go st show ?thesis by (auto simp: collect_loop.simps [of remaining r] Let_def)
    next
      case True
      have "collect_loop rem' ?r2 = (rc, r')"
        using less.prems go st True by (simp add: collect_loop.simps [of remaining r] Let_def)
      from less.hyps [OF _ this] go have "same_request ?r2 r'" by simp
      from same_request_trans [OF _ this] show ?thesis by simp
    qed
  qed
qed

text \<open>The page that has been sent, if any, shows complete snapshots.\<close>

definition page_of :: "(nat \<Rightarrow> peers_shm \<Rightarrow> bool) \<Rightarrow> request \<Rightarrow> response \<Rightarrow> bool" where
  "page_of P r page \<longleftrightarrow>
     (\<exists>snaps pool w. length snaps = length (rq_sources r) \<and>
        (\<forall>m < length (rq_sources r). snap_full (P m) (rq_flag r) (rq_sources r ! m) (snaps ! m)) \<and>
        rq_output r snaps (ngx_healthcheck_status_writer_init pool) = (NGX_OK, w) \<and>
        rp_length page = wr_length w \<and> rp_body page \<in> {None, Some (wr_blocks w)})"

definition pages_ok :: "(nat \<Rightarrow> peers_shm \<Rightarrow> bool) \<Rightarrow> request \<Rightarrow> bool" where
  "pages_ok P r \<longleftrightarrow> (\<forall>page. ht_response r = Some page \<longrightarrow> page_of P r page)"

lemma page_of_same: "rq_sources r' = rq_sources r \<Longrightarrow> rq_flag r' = rq_flag r \<Longrightarrow> rq_output r' = rq_output r \<Longrightarrow>
    page_of P r' page = page_of P r page"
  by (simp add: page_of_def)

lemma pages_ok_same: "rq_sources r' = rq_sources r \<Longrightarrow> rq_flag r' = rq_flag r \<Longrightarrow> rq_output r' = rq_output r \<Longrightarrow>
    ht_response r' = ht_response r \<Longrightarrow> pages_ok P r' = pages_ok P r"
  by (simp add: pages_ok_def page_of_def)

lemma output_page:
  assumes "request_ok P r" and "rq_module r = length (rq_sources r)" and "pages_ok P r"
    and "ngx_healthcheck_request_output r = (rc, r')"
  shows "pages_ok P r' \<and> rq_retry r' = rq_retry r \<and> ht_finalized r' = ht_finalized r"
proof -
  obtain c w where o': "rq_output r (rq_snapshots r) (ngx_healthcheck_status_writer_init (ht_pool r)) = (c, w)"
    by fastforce
  show ?thesis
  proof (cases "c = NGX_OK")
    case False
    then have r': "r' = r\<lparr>ht_pool := wr_pool w\<rparr>" using assms(4) o' by (simp add: ngx_healthcheck_request_output_def)
    have "pages_ok P r' = pages_ok P r" unfolding r' by (rule pages_ok_same) simp_all
    then show ?thesis using assms(3) r' by simp
  next
    case True
    then have w: "rq_output r (rq_snapshots r) (ngx_healthcheck_status_writer_init (ht_pool r)) = (NGX_OK, w)"
      using o' by simp
    have full: "length (rq_snapshots r) = length (rq_sources r)"
      "\<forall>m < length (rq_sources r). snap_full (P m) (rq_flag r) (rq_sources r ! m) (rq_snapshots r ! m)"
      using assms(1,2) by (simp_all add: request_ok_def)
    have "ngx_healthcheck_status_writer_send w (r\<lparr>ht_pool := wr_pool w\<rparr>) = (rc, r')"
      using assms(4) w by (simp add: ngx_healthcheck_request_output_def)
    then obtain page where "r' = r\<lparr>ht_pool := wr_pool w, ht_response := Some page\<rparr>"
      "rp_length page = wr_length w" "rp_body page \<in> {None, Some (wr_blocks w)}"
      by (auto simp: ngx_healthcheck_status_writer_send_def Let_def split: if_splits)
    then show ?thesis using full w unfolding pages_ok_def page_of_def by auto
  qed
qed

text \<open>Waiting changes the time fields, the log, the timer and the clock tape of the zone.\<close>

definition wait_fields :: "request \<Rightarrow> request \<Rightarrow> bool" where
  "wait_fields r r' \<longleftrightarrow> rq_sources r' = rq_sources r \<and> rq_flag r' = rq_flag r \<and> rq_output r' = rq_output r \<and>
    ht_response r' = ht_response r \<and> ht_finalized r' = ht_finalized r \<and> rq_snapshots r' = rq_snapshots r \<and>
    rq_module r' = rq_module r \<and> (\<forall>m. \<exists>t. rq_zones r' m = (rq_zones r m)\<lparr>k_clock := t\<rparr>)"

lemma same_clock: "\<exists>t. v = v\<lparr>k_clock := t\<rparr>" for v :: zone_view
  by (rule exI [of _ "k_clock v"]) simp

lemma wait_fields_trans: "wait_fields r s \<Longrightarrow> wait_fields s t \<Longrightarrow> wait_fields r t"
  unfolding wait_fields_def by (metis (no_types, lifting) kernel.update_convs(1) kernel.surjective)

lemma wait_fields_local:
  "wait_fields r (r\<lparr>rq_retry := a\<rparr>)" "wait_fields r (r\<lparr>ht_events := b\<rparr>)" "wait_fields r (wait_peer ms r)"
  "wait_fields r (wait_log ms r)"
  by (simp_all add: wait_fields_def same_clock wait_peer_def wait_log_def Let_def)

lemma wait_fields_contended: "wait_fields r (wait_contended r)"
proof -
  obtain time z where n: "ngx_healthcheck_now (rq_zones r (rq_module r)) = (time, z)" by fastforce
  let ?r1 = "r\<lparr>rq_zones := (rq_zones r)(rq_module r := z)\<rparr>"
  from n obtain t where "z = (rq_zones r (rq_module r))\<lparr>k_clock := t\<rparr>"
    using that [of "k_clock (rq_zones r (rq_module r))"] by (auto simp: ngx_healthcheck_now_def split: list.splits)
  then have "wait_fields r ?r1" using same_clock by (auto simp: wait_fields_def)
  moreover have "wait_fields ?r1 (wait_log ms (wait_peer ms ?r1))" for ms
    by (rule wait_fields_trans [OF wait_fields_local(3) wait_fields_local(4)])
  ultimately show ?thesis using n by (auto simp: wait_contended_def Let_def intro: wait_fields_trans split: option.split)
qed

lemma wait_frame:
  assumes "ngx_healthcheck_request_wait rc r = (c, r')"
  shows "wait_fields r r'"
proof -
  obtain ok t where e: "(if ht_watch r then next_alloc (ht_events r) else (True, ht_events r)) = (ok, t)" by fastforce
  let ?r1 = "r\<lparr>ht_events := t\<rparr>"
  have 1: "wait_fields r ?r1" by (rule wait_fields_local)
  show ?thesis
  proof (cases ok)
    case False
    with assms e 1 show ?thesis by (simp add: ngx_healthcheck_request_wait_def)
  next
    case True
    let ?r2 = "if rc = NGX_AGAIN then wait_contended ?r1 else ?r1"
    have "wait_fields ?r1 ?r2" using wait_fields_contended [of ?r1] by (simp add: wait_fields_def same_clock)
    from wait_fields_trans [OF 1 this] have 2: "wait_fields r ?r2" .
    obtain a where "r' = ?r2\<lparr>rq_retry := a\<rparr>" using assms e True by (auto simp: ngx_healthcheck_request_wait_def Let_def)
    with wait_fields_trans [OF 2 wait_fields_local(1) [of ?r2 a]] show ?thesis by simp
  qed
qed

lemma request_ok_clock:
  assumes "request_ok P r" and "wait_fields r r'"
  shows "request_ok P r'"
proof -
  have "guarded Q (rq_zones r' m) = guarded Q (rq_zones r m)" for Q m
  proof -
    obtain t where "rq_zones r' m = (rq_zones r m)\<lparr>k_clock := t\<rparr>" using assms(2) unfolding wait_fields_def by blast
    then show ?thesis by (simp add: guarded_def)
  qed
  then show ?thesis using assms by (simp add: request_ok_def wait_fields_def)
qed

text \<open>The invariant of a request between its calls.\<close>

definition request_inv :: "(nat \<Rightarrow> peers_shm \<Rightarrow> bool) \<Rightarrow> request \<Rightarrow> bool" where
  "request_inv P r \<longleftrightarrow> pages_ok P r \<and> (rq_retry r \<noteq> None \<longrightarrow> request_ok P r)"

lemma finish_inv: "pages_ok P r \<Longrightarrow> request_inv P (request_finish rc r)"
  by (simp add: request_inv_def request_finish_def ngx_healthcheck_request_cleanup_def Let_def
      pages_ok_same [of "r\<lparr>rq_retry := None, rq_posted := False, ht_cleanup := False, ht_finalized := ht_finalized r @ [rc]\<rparr>" r])

lemma resume_inv:
  assumes "pages_ok P r" and "request_ok P r"
  shows "request_inv P (ngx_healthcheck_request_resume r)"
proof -
  let ?r = "r\<lparr>rq_retry := None\<rparr>"
  have ok: "request_ok P ?r" "pages_ok P ?r" using assms by (simp_all add: request_ok_def pages_ok_same [of ?r r])
  obtain rc r1 where c: "ngx_healthcheck_request_collect ?r = (rc, r1)" by fastforce
  note co = collect_loop_ok [OF ok(1) c [unfolded ngx_healthcheck_request_collect_def]]
  have p1: "pages_ok P r1" using co ok(2) same_request_fields [of ?r r1] pages_ok_same [of r1 ?r P] by simp
  show ?thesis
  proof (cases "ht_error r \<or> ht_close r \<or> ht_terminated r")
    case True
    then show ?thesis using finish_inv [OF ok(2)] by (simp add: ngx_healthcheck_request_resume_def Let_def)
  next
    case alive: False
    consider "rc = NGX_OK" | "rc = NGX_ERROR" | "rc = NGX_AGAIN \<or> rc = NGX_BUSY" using co by auto
    then show ?thesis
    proof cases
      case 1
      obtain x r2 where x: "ngx_healthcheck_request_output r1 = (x, r2)" by fastforce
      have "pages_ok P r2" using output_page [OF _ _ p1 x] co 1 by simp
      from finish_inv [OF this, of x] show ?thesis
        using alive c 1 x by (simp add: ngx_healthcheck_request_resume_def Let_def)
    next
      case 2
      then show ?thesis using alive c finish_inv [OF p1] by (simp add: ngx_healthcheck_request_resume_def Let_def)
    next
      case 3
      obtain x r2 where x: "ngx_healthcheck_request_wait rc r1 = (x, r2)" by fastforce
      note w = wait_frame [OF x]
      have p2: "pages_ok P r2" using w p1 pages_ok_same [of r2 r1 P] by (simp add: wait_fields_def)
      have o2: "request_ok P r2" using request_ok_clock [of P r1 r2] w co 3 by auto
      show ?thesis
      proof (cases "x = NGX_OK")
        case True
        have "ngx_healthcheck_request_resume r = r2"
          using alive c 3 x True by (auto simp: ngx_healthcheck_request_resume_def Let_def)
        then show ?thesis using p2 o2 by (simp add: request_inv_def)
      next
        case False
        then have "ngx_healthcheck_request_resume r = request_finish HTTP_ERROR r2"
          using alive c 3 x by (auto simp: ngx_healthcheck_request_resume_def Let_def split: ngx_rc.splits)
        then show ?thesis using finish_inv [OF p2] by simp
      qed
    qed
  qed
qed

text \<open>
  What may change between two calls: the connection and the zones, by other processes and by other
  requests.  The request is called again only while its timer is set.
\<close>

record change =
  ch_error :: bool
  ch_close :: bool
  ch_terminated :: bool
  ch_zones :: "nat \<Rightarrow> zone_view"

definition apply_change :: "change \<Rightarrow> request \<Rightarrow> request" where
  "apply_change c r = r\<lparr>ht_error := ch_error c, ht_close := ch_close c, ht_terminated := ch_terminated c,
     rq_zones := ch_zones c\<rparr>"

fun resume_all :: "change list \<Rightarrow> request \<Rightarrow> request" where
  "resume_all [] r = r"
| "resume_all (c # cs) r =
     (if rq_retry r = None then r else resume_all cs (ngx_healthcheck_request_resume (apply_change c r)))"

lemma resume_all_inv:
  "request_inv P r \<Longrightarrow> \<forall>c \<in> set cs. \<forall>m. guarded (P m) (ch_zones c m) \<Longrightarrow> request_inv P (resume_all cs r)"
proof (induction cs arbitrary: r)
  case (Cons c cs)
  show ?case
  proof (cases "rq_retry r")
    case (Some d)
    have "pages_ok P (apply_change c r) = pages_ok P r" by (rule pages_ok_same) (simp_all add: apply_change_def)
    moreover have "request_ok P (apply_change c r)"
      using Cons.prems Some by (simp add: request_inv_def request_ok_def apply_change_def)
    ultimately have "request_inv P (ngx_healthcheck_request_resume (apply_change c r))"
      using Cons.prems(1) by (intro resume_inv) (simp_all add: request_inv_def)
    with Cons Some show ?thesis by simp
  qed (use Cons.prems in simp)
qed simp

lemma init_snapshots_ok:
  "init_snapshots m srcs r = (True, r') \<Longrightarrow> length (rq_snapshots r) = m \<Longrightarrow> rq_module r = 0 \<Longrightarrow>
   rq_sources r = pre @ srcs \<Longrightarrow> length pre = m \<Longrightarrow> \<forall>k < length (rq_sources r). guarded (P k) (rq_zones r k) \<Longrightarrow>
   \<forall>k < m. snap_good (P k) (rq_flag r) (rq_sources r ! k) (rq_snapshots r ! k) \<Longrightarrow>
   request_ok P r' \<and> rq_retry r' = rq_retry r \<and> ht_response r' = ht_response r"
proof (induction srcs arbitrary: m r pre)
  case Nil
  then show ?case by (auto simp: request_ok_def)
next
  case (Cons src srcs)
  obtain rc sn z where i: "ngx_healthcheck_snapshot_init src (rq_zones r m) = (rc, sn, z)" by (metis prod_cases3)
  have ok: "rc = NGX_OK" using Cons.prems(1) i by (auto simp: Let_def split: if_splits)
  let ?r1 = "r\<lparr>rq_snapshots := rq_snapshots r @ [sn], rq_zones := (rq_zones r)(m := z)\<rparr>"
  have step: "init_snapshots (m + 1) srcs ?r1 = (True, r')" using Cons.prems(1) i ok by (simp add: Let_def)
  have src: "rq_sources r ! m = src" using Cons.prems(4,5) by (simp add: nth_append)
  have "guarded (P m) (rq_zones r m)" using Cons.prems(4-6) by simp
  then have g: "guarded (P m) z" using i
    by (auto simp: ngx_healthcheck_snapshot_init_def split: prod.splits if_splits option.splits
        dest: guarded_array_alloc)
  have sn: "snap_good (P m) (rq_flag r) src sn" using i ok
    by (auto simp: ngx_healthcheck_snapshot_init_def snap_good_def snapshot_of_def zero_snapshot_def selected_def
        split: prod.splits if_splits option.splits intro!: exI [of _ "[]"])
  have zs: "\<forall>k < length (rq_sources ?r1). guarded (P k) (rq_zones ?r1 k)" using Cons.prems(6) g by simp
  have ss: "\<forall>k < m + 1. snap_good (P k) (rq_flag ?r1) (rq_sources ?r1 ! k) (rq_snapshots ?r1 ! k)"
    using Cons.prems(2,7) sn src by (auto simp: less_Suc_eq nth_append)
  have "rq_sources ?r1 = (pre @ [src]) @ srcs" using Cons.prems(4) by simp
  from Cons.IH [OF step _ _ this _ zs ss] Cons.prems(2,3,5) show ?case by simp
qed

lemma suspend_inv:
  assumes "request_ok P r" and "pages_ok P r" and "status_suspend rc r = (x, r')"
  shows "request_inv P r'"
proof -
  obtain ok t where a: "next_alloc (ht_pool r) = (ok, t)" by fastforce
  let ?r1 = "r\<lparr>ht_pool := t, ht_cleanup := True\<rparr>"
  have p1: "pages_ok P ?r1" "pages_ok P (r\<lparr>ht_pool := t\<rparr>)"
    using assms(2) pages_ok_same [of ?r1 r P] pages_ok_same [of "r\<lparr>ht_pool := t\<rparr>" r P] by simp_all
  have o1: "request_ok P ?r1" "request_ok P (r\<lparr>ht_pool := t\<rparr>)" using assms(1) by (simp_all add: request_ok_def)
  obtain c r2 where w: "ngx_healthcheck_request_wait rc ?r1 = (c, r2)" by fastforce
  note f = wait_frame [OF w]
  have 2: "request_ok P r2" "pages_ok P r2"
    using request_ok_clock [OF o1(1) f] p1(1) f pages_ok_same [of r2 ?r1 P] by (simp_all add: wait_fields_def)
  have p3: "pages_ok P (r2\<lparr>ht_count := ht_count r2 + 1\<rparr>)" "pages_ok P (ngx_healthcheck_request_cleanup r2)"
    using 2(2) pages_ok_same [of "r2\<lparr>ht_count := ht_count r2 + 1\<rparr>" r2 P]
      pages_ok_same [of "ngx_healthcheck_request_cleanup r2" r2 P]
    by (simp_all add: ngx_healthcheck_request_cleanup_def)
  have o3: "request_ok P (r2\<lparr>ht_count := ht_count r2 + 1\<rparr>)" using 2(1) by (simp add: request_ok_def)
  show ?thesis
  proof (cases ok)
    case False
    with assms(3) a o1 p1 show ?thesis by (auto simp: status_suspend_def request_inv_def)
  next
    case True
    then have "r' = (if c = NGX_OK then r2\<lparr>ht_count := ht_count r2 + 1\<rparr> else ngx_healthcheck_request_cleanup r2)"
      using assms(3) a w by (auto simp: status_suspend_def Let_def split: ngx_rc.splits)
    then show ?thesis using p3 o3 by (simp add: request_inv_def ngx_healthcheck_request_cleanup_def)
  qed
qed

lemma status_request_inv:
  assumes "ngx_healthcheck_status_request h sources flag output zones = (rc, r)"
    and "ht_response h = None" and "\<forall>m. guarded (P m) (zones m)"
  shows "request_inv P r"
proof -
  let ?r0 = "new_request h sources flag output zones"
  have f0: "ht_response ?r0 = None" "rq_retry ?r0 = None" "rq_sources ?r0 = sources" "rq_snapshots ?r0 = []"
    "rq_module ?r0 = 0" "rq_zones ?r0 = zones" "ht_pool ?r0 = ht_pool h"
    using assms(2) by (simp_all add: new_request_def http.defs)
  obtain ok t where a: "next_alloc (ht_pool h) = (ok, t)" by fastforce
  let ?r1 = "?r0\<lparr>ht_pool := t\<rparr>"
  have none: "request_inv P ?r0" "request_inv P ?r1" using f0 by (simp_all add: request_inv_def pages_ok_def)
  obtain ok2 r2 where i: "init_snapshots 0 sources ?r1 = (ok2, r2)" by fastforce
  have keep: "rq_retry r'' = rq_retry r' \<and> ht_response r'' = ht_response r'"
    if "init_snapshots k srcs r' = (b, r'')" for k srcs r' b r''
    using that by (induction k srcs r' rule: init_snapshots.induct) (auto simp: Let_def split: prod.splits if_splits)
  from keep [OF i] f0 have n2: "request_inv P r2" "pages_ok P r2" by (simp_all add: request_inv_def pages_ok_def)
  show ?thesis
  proof (cases "(sources = [] \<or> length sources > 2 \<or> ht_error h) \<or> \<not> ok \<or> \<not> ok2")
    case True
    then have "r \<in> {?r0, ?r1, r2}"
      using assms(1) a i f0 by (auto simp: ngx_healthcheck_status_request_def Let_def split: if_splits)
    with none n2 show ?thesis by auto
  next
    case go: False
    have o2: "request_ok P r2" using init_snapshots_ok [of 0 sources ?r1 r2 "[]" P] i go f0 assms(3) by simp
    obtain c r3 where c: "ngx_healthcheck_request_collect r2 = (c, r3)" by fastforce
    note co = collect_loop_ok [OF o2 c [unfolded ngx_healthcheck_request_collect_def]]
    have f3: "ht_response r3 = None" "rq_retry r3 = None"
      using co keep [OF i] f0 same_request_fields [of r2 r3] by simp_all
    then have p3: "pages_ok P r3" by (simp add: pages_ok_def)
    consider "c = NGX_OK" | "c = NGX_ERROR" | "c = NGX_AGAIN \<or> c = NGX_BUSY" using co by auto
    then show ?thesis
    proof cases
      case 1
      then have "ngx_healthcheck_request_output r3 = (rc, r)"
        using assms(1) go a i c f0 by (simp add: ngx_healthcheck_status_request_def Let_def)
      with output_page [OF _ _ p3 this] co 1 f3 show ?thesis by (simp add: request_inv_def)
    next
      case 2
      then have "r = r3" using assms(1) go a i c f0 by (simp add: ngx_healthcheck_status_request_def Let_def)
      then show ?thesis using f3 p3 by (simp add: request_inv_def)
    next
      case 3
      then have "status_suspend c r3 = (rc, r)"
        using assms(1) go a i c f0 by (auto simp: ngx_healthcheck_status_request_def Let_def)
      with suspend_inv [OF _ p3 this] co 3 show ?thesis by auto
    qed
  qed
qed

section \<open>Progress\<close>

text \<open>The peers that are still to be read.\<close>

definition src_left :: "source option \<Rightarrow> snapshot \<Rightarrow> nat" where
  "src_left src sn = (case src of None \<Rightarrow> 0 | Some src \<Rightarrow> length (so_peers src) - sn_next sn)"

definition rq_left :: "request \<Rightarrow> nat" where
  "rq_left r = (\<Sum>m = rq_module r..<length (rq_sources r). src_left (rq_sources r ! m) (rq_snapshots r ! m))"

text \<open>All zones of the request are attached and uncontended for \<open>n\<close> more reads.\<close>

definition calm :: "nat \<Rightarrow> request \<Rightarrow> bool" where
  "calm n r \<longleftrightarrow> (\<forall>m < length (rq_sources r). supplied n (rq_zones r m) \<and>
     (case rq_sources r ! m of None \<Rightarrow> True | Some src \<Rightarrow> \<forall>i < length (so_peers src). so_attached src i))"

lemma snapshot_step_calm:
  assumes "supplied (remaining + n) z"
    and "case src of None \<Rightarrow> True | Some src \<Rightarrow> \<forall>i < length (so_peers src). so_attached src i"
    and "snap_good (\<lambda>_. True) flag src sn"
    and "ngx_healthcheck_snapshot_step src flag sn remaining z = (rc, sn', remaining', z')"
  shows "if src_left src sn \<le> remaining
    then rc = NGX_OK \<and> remaining' = remaining - src_left src sn \<and> supplied (remaining' + n) z'
    else rc = NGX_BUSY \<and> remaining' = 0 \<and> src_left src sn' = src_left src sn - remaining \<and> supplied n z'"
proof (cases src)
  case None
  with assms show ?thesis by (simp add: ngx_healthcheck_snapshot_step_def src_left_def)
next
  case (Some s)
  have l: "snapshot_loop s flag sn remaining z = (rc, sn', remaining', z')"
    using assms(4) Some by (simp add: ngx_healthcheck_snapshot_step_def)
  obtain hs where hs: "snapshot_of (\<lambda>_. True) s flag sn hs" using assms(3) Some by (auto simp: snap_good_def)
  have "guarded (\<lambda>_. True) z" by (simp add: guarded_def)
  note sp = snapshot_loop_spec [OF this hs l]
  have le: "sn_next sn \<le> length (so_peers s)" using hs by (simp add: snapshot_of_def)
  have att: "\<forall>i < length (so_peers s). so_attached s i" using assms(2) Some by simp
  have nx: "sn_next sn' + remaining' = sn_next sn + remaining" "rc = NGX_OK \<Longrightarrow> sn_next sn' = length (so_peers s)"
    using sp by blast+
  note su = snapshot_loop_supplied [OF assms(1) att l]
  have sl: "src_left src sn = length (so_peers s) - sn_next sn" "src_left src sn' = length (so_peers s) - sn_next sn'"
    using Some by (simp_all add: src_left_def)
  show ?thesis
  proof (cases "length (so_peers s) \<le> sn_next sn + remaining")
    case True
    with su have ok: "rc = NGX_OK" "supplied (remaining' + n) z'" by simp_all
    have "length (so_peers s) - sn_next sn \<le> remaining" "remaining' = remaining - (length (so_peers s) - sn_next sn)"
      using True nx(1) nx(2) [OF ok(1)] le by linarith+
    with ok show ?thesis unfolding sl by simp
  next
    case False
    with su have "rc = NGX_BUSY" "remaining' = 0" "supplied n z'" by auto
    moreover have "\<not> length (so_peers s) - sn_next sn \<le> remaining"
      "length (so_peers s) - sn_next sn' = length (so_peers s) - sn_next sn - remaining"
      using False nx(1) \<open>remaining' = 0\<close> by linarith+
    ultimately show ?thesis unfolding sl by simp
  qed
qed

lemma rq_left_step:
  "rq_module r < length (rq_sources r) \<Longrightarrow> rq_left r =
    src_left (rq_sources r ! rq_module r) (rq_snapshots r ! rq_module r) + rq_left (r\<lparr>rq_module := rq_module r + 1\<rparr>)"
  by (simp add: rq_left_def sum.atLeast_Suc_lessThan)

lemma rq_left_update:
  assumes "length (rq_snapshots r) = length (rq_sources r)"
  shows "rq_left (r\<lparr>rq_snapshots := (rq_snapshots r)[m := sn], rq_zones := z, rq_module := m + 1\<rparr>) =
    rq_left (r\<lparr>rq_module := m + 1\<rparr>)"
  using assms unfolding rq_left_def by (intro sum.cong) simp_all

lemma collect_calm:
  "request_ok (\<lambda>_ _. True) r \<Longrightarrow> calm (remaining + n) r \<Longrightarrow> collect_loop remaining r = (rc, r') \<Longrightarrow>
     (if rq_left r \<le> remaining then rc = NGX_OK else rc = NGX_BUSY \<and> rq_left r' = rq_left r - remaining) \<and> calm n r'"
proof (induction "length (rq_sources r) - rq_module r" arbitrary: remaining r rule: less_induct)
  case less
  have weaken: "calm k v" if "calm j v" "k \<le> j" for k j v
    using that supplied_less unfolding calm_def by blast
  show ?case
  proof (cases "rq_module r < length (rq_sources r)")
    case False
    with less.prems show ?thesis
      using weaken [OF less.prems(2), of n] by (simp add: collect_loop.simps [of remaining r] rq_left_def)
  next
    case go: True
    let ?m = "rq_module r" and ?L = "src_left (rq_sources r ! rq_module r) (rq_snapshots r ! rq_module r)"
    obtain c sn rem' z where st: "ngx_healthcheck_snapshot_step (rq_sources r ! ?m) (rq_flag r)
        (rq_snapshots r ! ?m) remaining (rq_zones r ?m) = (c, sn, rem', z)" by (metis prod_cases4)
    let ?r1 = "r\<lparr>rq_snapshots := (rq_snapshots r)[?m := sn], rq_zones := (rq_zones r)(?m := z)\<rparr>"
    let ?r2 = "?r1\<lparr>rq_module := ?m + 1\<rparr>"
    have len: "length (rq_snapshots r) = length (rq_sources r)" using less.prems(1) by (simp add: request_ok_def)
    have g: "guarded (\<lambda>_. True) (rq_zones r ?m)" "snap_good (\<lambda>_. True) (rq_flag r) (rq_sources r ! ?m) (rq_snapshots r ! ?m)"
      using less.prems(1) go by (simp_all add: request_ok_def)
    note sg = snapshot_step_good [OF g st]
    have s: "supplied (remaining + n) (rq_zones r ?m)"
      "case rq_sources r ! ?m of None \<Rightarrow> True | Some src \<Rightarrow> \<forall>i < length (so_peers src). so_attached src i"
      using less.prems(2) go by (simp_all add: calm_def)
    note sc = snapshot_step_calm [OF s g(2) st]
    have left: "rq_left r = ?L + rq_left (r\<lparr>rq_module := ?m + 1\<rparr>)" by (rule rq_left_step [OF go])
    have left2: "rq_left ?r2 = rq_left (r\<lparr>rq_module := ?m + 1\<rparr>)"
      by (rule rq_left_update [OF len])
    have z': "supplied (rem' + n) z" using sc by (auto split: if_splits)
    have "rem' \<le> remaining" using sc by (auto split: if_splits)
    then have calm1: "calm (rem' + n) ?r1"
      using less.prems(2) z' supplied_less [of "remaining + n" _ "rem' + n"] by (auto simp: calm_def)
    show ?thesis
    proof (cases "?L \<le> remaining")
      case True
      have "request_ok (\<lambda>_ _. True) ?r1"
        by (rule request_ok_step [OF less.prems(1) refl go]) (use sg sc True in simp_all)
      from request_ok_next [OF this, of ?m] have "request_ok (\<lambda>_ _. True) ?r2" using sg sc True go len by simp
      moreover have "collect_loop rem' ?r2 = (rc, r')"
        using less.prems(3) go st sc True by (simp add: collect_loop.simps [of remaining r] Let_def)
      moreover have "calm (rem' + n) ?r2" using calm1 by (simp add: calm_def)
      moreover have "length (rq_sources ?r2) - rq_module ?r2 < length (rq_sources r) - ?m" using go by simp
      ultimately have IH: "(if rq_left ?r2 \<le> rem' then rc = NGX_OK else rc = NGX_BUSY \<and> rq_left r' = rq_left ?r2 - rem') \<and>
          calm n r'" using less.hyps [of ?r2 rem'] by simp
      have "rem' = remaining - ?L" using sc True by simp
      then have "rq_left ?r2 \<le> rem' \<longleftrightarrow> rq_left r \<le> remaining" "rq_left ?r2 - rem' = rq_left r - remaining"
        using left left2 True by auto
      with IH show ?thesis by presburger
    next
      case False
      then have "rc = NGX_BUSY" "r' = ?r1" "rem' = 0" "src_left (rq_sources r ! ?m) sn = ?L - remaining"
        using less.prems(3) go st sc by (simp_all add: collect_loop.simps [of remaining r] Let_def)
      moreover have "rq_left ?r1 = src_left (rq_sources r ! ?m) sn + rq_left ?r2"
        using rq_left_step [of ?r1] go len by simp
      ultimately show ?thesis using calm1 left left2 False by simp
    qed
  qed
qed

text \<open>A healthy connection whose event registration succeeds \<open>n\<close> more times.\<close>

definition healthy :: "nat \<Rightarrow> request \<Rightarrow> bool" where
  "healthy n r \<longleftrightarrow> \<not> ht_error r \<and> \<not> ht_close r \<and> \<not> ht_terminated r \<and> (\<exists>t. ht_events r = replicate n True @ t)"

lemma output_finalized: "ngx_healthcheck_request_output r = (rc, r') \<Longrightarrow> ht_finalized r' = ht_finalized r"
  by (auto simp: ngx_healthcheck_request_output_def ngx_healthcheck_status_writer_send_def Let_def
      split: prod.splits if_splits)

lemma wait_busy:
  assumes "healthy (Suc n) r"
  shows "\<exists>r'. ngx_healthcheck_request_wait NGX_BUSY r = (NGX_OK, r') \<and> healthy n r' \<and> rq_retry r' = Some 1 \<and>
    rq_sources r' = rq_sources r \<and> rq_snapshots r' = rq_snapshots r \<and> rq_module r' = rq_module r \<and>
    rq_flag r' = rq_flag r \<and> rq_zones r' = rq_zones r \<and> ht_finalized r' = ht_finalized r"
proof -
  obtain t where "ht_events r = True # replicate n True @ t" using assms by (auto simp: healthy_def)
  moreover have "replicate n True @ True # t = True # replicate n True @ t"
    by (simp add: replicate_append_same [symmetric] flip: append_assoc)
  ultimately show ?thesis using assms
    by (auto simp: ngx_healthcheck_request_wait_def next_alloc_def healthy_def intro: exI [of _ "True # t"])
qed

lemma resume_calm:
  assumes "request_ok (\<lambda>_ _. True) r" and "calm (256 + n) r" and "healthy (Suc k) r"
    and "ngx_healthcheck_request_resume r = r'"
  shows "if rq_left r \<le> 256 then \<exists>c. ht_finalized r' = ht_finalized r @ [c]
    else request_ok (\<lambda>_ _. True) r' \<and> calm n r' \<and> healthy k r' \<and> rq_left r' = rq_left r - 256 \<and>
      ht_finalized r' = ht_finalized r"
proof -
  let ?r = "r\<lparr>rq_retry := None\<rparr>"
  have ok: "request_ok (\<lambda>_ _. True) ?r" "calm (256 + n) ?r" "rq_left ?r = rq_left r"
    using assms(1,2) by (simp_all add: request_ok_def calm_def rq_left_def)
  have alive: "\<not> (ht_error r \<or> ht_close r \<or> ht_terminated r)" using assms(3) by (simp add: healthy_def)
  obtain rc r1 where c: "ngx_healthcheck_request_collect ?r = (rc, r1)" by fastforce
  note c' = c [unfolded ngx_healthcheck_request_collect_def]
  note co = collect_loop_ok [OF ok(1) c'] and ca = collect_calm [OF ok(1,2) c']
  have same: "same_request ?r r1" using co by simp
  note f = same_request_fields [OF same]
  show ?thesis
  proof (cases "rq_left r \<le> 256")
    case True
    then have rc: "rc = NGX_OK" using ca ok(3) by simp
    obtain x r2 where x: "ngx_healthcheck_request_output r1 = (x, r2)" by fastforce
    have "r' = request_finish x r2"
      using assms(4) alive c rc x by (simp add: ngx_healthcheck_request_resume_def Let_def)
    then have "ht_finalized r' = ht_finalized r @ [x]"
      using output_finalized [OF x] f by (simp add: request_finish_def ngx_healthcheck_request_cleanup_def Let_def)
    with True show ?thesis by auto
  next
    case False
    then have rc: "rc = NGX_BUSY" and l: "rq_left r1 = rq_left r - 256" and n: "calm n r1" using ca ok(3) by auto
    have o1: "request_ok (\<lambda>_ _. True) r1" using co rc by simp
    have "healthy (Suc k) r1" using assms(3) f by (simp add: healthy_def)
    from wait_busy [OF this] obtain r2 where w: "ngx_healthcheck_request_wait NGX_BUSY r1 = (NGX_OK, r2)"
      "healthy k r2" "rq_sources r2 = rq_sources r1" "rq_snapshots r2 = rq_snapshots r1" "rq_module r2 = rq_module r1"
      "rq_flag r2 = rq_flag r1" "rq_zones r2 = rq_zones r1" "ht_finalized r2 = ht_finalized r1" by blast
    have "r' = r2" using assms(4) alive c rc w(1) by (simp add: ngx_healthcheck_request_resume_def Let_def)
    with False w l n o1 f show ?thesis by (simp add: request_ok_def calm_def rq_left_def)
  qed
qed

lemma resume_finishes:
  "request_ok (\<lambda>_ _. True) r \<Longrightarrow> calm (256 * Suc j) r \<Longrightarrow> healthy (Suc j) r \<Longrightarrow> rq_left r \<le> 256 * Suc j \<Longrightarrow>
     \<exists>k \<le> j. \<exists>c. ht_finalized ((ngx_healthcheck_request_resume ^^ Suc k) r) = ht_finalized r @ [c]"
proof (induction j arbitrary: r)
  case 0
  then show ?case using resume_calm [of r 0 0] by auto
next
  case (Suc j)
  have st: "if rq_left r \<le> 256 then \<exists>c. ht_finalized (ngx_healthcheck_request_resume r) = ht_finalized r @ [c]
    else request_ok (\<lambda>_ _. True) (ngx_healthcheck_request_resume r) \<and> calm (256 * Suc j) (ngx_healthcheck_request_resume r) \<and>
      healthy (Suc j) (ngx_healthcheck_request_resume r) \<and> rq_left (ngx_healthcheck_request_resume r) = rq_left r - 256 \<and>
      ht_finalized (ngx_healthcheck_request_resume r) = ht_finalized r"
    by (rule resume_calm [OF Suc.prems(1) _ Suc.prems(3) refl]) (use Suc.prems(2) in simp)
  show ?case
  proof (cases "rq_left r \<le> 256")
    case True
    with st show ?thesis by (intro exI [of _ 0]) simp
  next
    case False
    let ?r = "ngx_healthcheck_request_resume r"
    have "rq_left ?r \<le> 256 * Suc j" using st False Suc.prems(4) by simp
    with Suc.IH [of ?r] st False obtain k c where
      "k \<le> j" "ht_finalized ((ngx_healthcheck_request_resume ^^ Suc k) ?r) = ht_finalized r @ [c]" by auto
    then show ?thesis
      by (intro exI [of _ "Suc k"]) (auto simp: funpow_swap1 [symmetric] simp del: funpow.simps(2) simp: funpow_Suc_right)
  qed
qed

section \<open>The log of a waiting request\<close>

definition log_ok :: "request \<Rightarrow> bool" where
  "log_ok r \<longleftrightarrow>
     sorted_wrt (\<lambda>a b. ngx_healthcheck_add_time (wn_time a) 5000 \<le> wn_time b) (ht_warnings r) \<and>
     (\<forall>a \<in> set (ht_warnings r). 1000 \<le> wn_elapsed a \<and> ngx_healthcheck_add_time (wn_time a) 5000 \<le> rq_next_log r) \<and>
     (rq_started r \<noteq> 0 \<longrightarrow> ngx_healthcheck_add_time (rq_started r) 1000 \<le> rq_next_log r)"

lemma wait_peer_log:
  assumes "log_ok r"
  shows "log_ok (wait_peer ms r) \<and> ngx_healthcheck_add_time (rq_started (wait_peer ms r)) 1000 \<le> rq_next_log (wait_peer ms r)"
  using assms by (auto simp: log_ok_def wait_peer_def Let_def le_max_iff_disj)

lemma elapsed_bound:
  assumes "ngx_healthcheck_add_time st 1000 \<le> ms" and "ms \<noteq> UINT64_MAX"
  shows "1000 \<le> ms - (st :: u64)"
proof -
  have "ngx_healthcheck_add_time st 1000 \<noteq> UINT64_MAX" using assms by (metis antisym u64_le_max)
  then have "unat (ngx_healthcheck_add_time st 1000) \<noteq> 2 ^ 64 - 1"
    by (metis unat_max_u64 word_unat_eq_iff)
  then have "unat (ngx_healthcheck_add_time st 1000) = unat st + 1000"
    unfolding unat_add_time by (simp add: min_def split: if_splits)
  then have "unat st + 1000 \<le> unat ms" using assms(1) by (simp add: word_le_nat_alt)
  then show ?thesis by (simp add: word_le_nat_alt unat_sub)
qed

lemma wait_log_log:
  assumes "log_ok r" and "ngx_healthcheck_add_time (rq_started r) 1000 \<le> rq_next_log r" and "ms \<noteq> UINT64_MAX"
  shows "log_ok (wait_log ms r)"
proof (cases "ms \<ge> rq_next_log r")
  case True
  then have "1000 \<le> ms - rq_started r" using elapsed_bound assms(2,3) by (meson order_trans)
  moreover have "ngx_healthcheck_add_time (rq_started r) 1000 \<le> ngx_healthcheck_add_time ms 5000"
    using assms(2) True add_time_ge(1) [of ms 5000] by (meson order_trans)
  moreover have "\<forall>a \<in> set (ht_warnings r). ngx_healthcheck_add_time (wn_time a) 5000 \<le> ms"
    using assms(1) True by (auto simp: log_ok_def)
  moreover from this have "\<forall>a \<in> set (ht_warnings r). ngx_healthcheck_add_time (wn_time a) 5000 \<le> ngx_healthcheck_add_time ms 5000"
    using add_time_ge(1) [of ms 5000] by (meson order_trans)
  ultimately show ?thesis using assms(1) True by (auto simp: log_ok_def wait_log_def sorted_wrt_append)
qed (use assms in \<open>simp add: wait_log_def\<close>)

lemma log_ok_same: "ht_warnings r' = ht_warnings r \<Longrightarrow> rq_started r' = rq_started r \<Longrightarrow>
    rq_next_log r' = rq_next_log r \<Longrightarrow> log_ok r' = log_ok r"
  by (simp add: log_ok_def)

lemma ms_not_max: "(t :: u64) div 1000000 \<noteq> UINT64_MAX"
proof
  assume "t div 1000000 = UINT64_MAX"
  then have "unat t div 1000000 = 2 ^ 64 - 1" using unat_div_u64 [of t 1000000] unat_max_u64 by simp
  then show False using unat_less_2p64 [of t] by simp
qed

lemma wait_contended_log:
  assumes "log_ok r"
  shows "log_ok (wait_contended r)"
proof -
  obtain time z where n: "ngx_healthcheck_now (rq_zones r (rq_module r)) = (time, z)" by fastforce
  let ?r1 = "r\<lparr>rq_zones := (rq_zones r)(rq_module r := z)\<rparr>"
  have l: "log_ok ?r1" using assms by (simp add: log_ok_def)
  have "log_ok (wait_log (t div 1000000) (wait_peer (t div 1000000) ?r1))" for t
    using wait_peer_log [OF l] ms_not_max by (intro wait_log_log) blast+
  with n l show ?thesis by (simp add: wait_contended_def Let_def split: option.split)
qed

lemma wait_log_ok:
  assumes "log_ok r" and "ngx_healthcheck_request_wait rc r = (c, r')"
  shows "log_ok r'"
proof -
  obtain ok t where e: "(if ht_watch r then next_alloc (ht_events r) else (True, ht_events r)) = (ok, t)" by fastforce
  let ?r1 = "r\<lparr>ht_events := t\<rparr>"
  have 1: "log_ok ?r1" using assms(1) by (simp add: log_ok_def)
  have 2: "log_ok (v\<lparr>rq_retry := a\<rparr>) = log_ok v" for v a by (simp add: log_ok_def)
  show ?thesis using assms(2) e 1 wait_contended_log [OF 1]
    by (auto simp: ngx_healthcheck_request_wait_def Let_def 2 split: if_splits)
qed

lemma finish_log: "log_ok (request_finish rc r) = log_ok r"
  by (simp add: request_finish_def ngx_healthcheck_request_cleanup_def Let_def log_ok_def)

lemma output_log: "ngx_healthcheck_request_output r = (rc, r') \<Longrightarrow> log_ok r' = log_ok r"
  by (auto simp: ngx_healthcheck_request_output_def ngx_healthcheck_status_writer_send_def Let_def log_ok_def
      split: prod.splits if_splits)

lemma collect_log:
  "ngx_healthcheck_request_collect r = (rc, r') \<Longrightarrow> log_ok r' = log_ok r"
  unfolding ngx_healthcheck_request_collect_def
  using same_request_fields [OF collect_same [of _ r rc r']] by (intro log_ok_same) blast+

lemma resume_log:
  assumes "log_ok r"
  shows "log_ok (ngx_healthcheck_request_resume r)"
proof -
  let ?r = "r\<lparr>rq_retry := None\<rparr>"
  have l: "log_ok ?r" using assms by (simp add: log_ok_def)
  obtain rc r1 where c: "ngx_healthcheck_request_collect ?r = (rc, r1)" by fastforce
  have 1: "log_ok r1" using collect_log [OF c] l by simp
  obtain x r2 where x: "ngx_healthcheck_request_wait rc r1 = (x, r2)" by fastforce
  obtain y r3 where y: "ngx_healthcheck_request_output r1 = (y, r3)" by fastforce
  show ?thesis
    using c x y l 1 wait_log_ok [OF 1 x] output_log [OF y]
    by (auto simp: ngx_healthcheck_request_resume_def Let_def finish_log split: ngx_rc.split)
qed

lemma resume_all_log: "log_ok r \<Longrightarrow> log_ok (resume_all cs r)"
proof (induction cs arbitrary: r)
  case (Cons c cs)
  have "log_ok (apply_change c r)" using Cons.prems by (simp add: log_ok_def apply_change_def)
  from Cons.IH [OF resume_log [OF this]] Cons.prems show ?case by simp
qed simp

lemma status_request_log:
  assumes "ngx_healthcheck_status_request h sources flag output zones = (rc, r)" and "ht_warnings h = []"
  shows "log_ok r"
proof -
  let ?r0 = "new_request h sources flag output zones"
  obtain ok t where a: "next_alloc (ht_pool h) = (ok, t)" by fastforce
  have p: "ht_pool ?r0 = ht_pool h" by (simp add: new_request_def http.defs)
  let ?r1 = "?r0\<lparr>ht_pool := t\<rparr>"
  have l0: "log_ok ?r0" "log_ok ?r1" using assms(2) by (simp_all add: log_ok_def new_request_def http.defs)
  obtain ok2 r2 where i: "init_snapshots 0 sources ?r1 = (ok2, r2)" by fastforce
  have keep: "log_ok r'' = log_ok r'" if "init_snapshots k srcs r' = (b, r'')" for k srcs r' b r''
    using that by (induction k srcs r' rule: init_snapshots.induct)
      (auto simp: Let_def log_ok_def split: prod.splits if_splits)
  from keep [OF i] l0 have l2: "log_ok r2" by simp
  obtain c r3 where c: "ngx_healthcheck_request_collect r2 = (c, r3)" by fastforce
  have l3: "log_ok r3" using collect_log [OF c] l2 by simp
  have l4: "log_ok r'" if "ngx_healthcheck_request_output r3 = (x, r')" for x r' using output_log [OF that] l3 by simp
  have l5: "log_ok r'" if "status_suspend c r3 = (x, r')" for x r'
  proof -
    obtain ok t where a: "next_alloc (ht_pool r3) = (ok, t)" by fastforce
    let ?v = "r3\<lparr>ht_pool := t, ht_cleanup := True\<rparr>"
    have v: "log_ok ?v" "log_ok (r3\<lparr>ht_pool := t\<rparr>)" using l3 by (simp_all add: log_ok_def)
    obtain y w where w: "ngx_healthcheck_request_wait c ?v = (y, w)" by fastforce
    have "log_ok (w\<lparr>ht_count := n\<rparr>) = log_ok w" "log_ok (ngx_healthcheck_request_cleanup w) = log_ok w" for n
      by (simp_all add: log_ok_def ngx_healthcheck_request_cleanup_def)
    with that a v w wait_log_ok [OF v(1) w] show ?thesis
      by (auto simp: status_suspend_def Let_def split: if_splits ngx_rc.splits)
  qed
  show ?thesis using assms(1) a p i c l0 l2 l3 l4 l5
    by (auto simp: ngx_healthcheck_status_request_def Let_def split: if_splits ngx_rc.splits)
qed

section \<open>What stays the same\<close>

definition same_job :: "request \<Rightarrow> request \<Rightarrow> bool" where
  "same_job r r' \<longleftrightarrow> rq_sources r' = rq_sources r \<and> rq_flag r' = rq_flag r \<and> rq_output r' = rq_output r"

lemma same_job_trans: "same_job r s \<Longrightarrow> same_job s t \<Longrightarrow> same_job r t"
  by (simp add: same_job_def)

lemma same_job_parts:
  "ngx_healthcheck_request_collect r = (rc, r') \<Longrightarrow> same_job r r'"
  "ngx_healthcheck_request_wait c r = (rc, r') \<Longrightarrow> same_job r r'"
  "ngx_healthcheck_request_output r = (x, r') \<Longrightarrow> same_job r r'"
  "same_job r (request_finish x r)" "same_job r (r\<lparr>rq_retry := t\<rparr>)" "same_job r (apply_change ch r)"
  "same_job r (r\<lparr>ht_pool := p\<rparr>)" "same_job r (r\<lparr>ht_pool := p, ht_cleanup := k\<rparr>)"
  "same_job r (r\<lparr>ht_count := n\<rparr>)" "same_job r (ngx_healthcheck_request_cleanup r)"
  using collect_same [of _ r rc r'] wait_frame [of c r rc r']
  by (auto simp: same_job_def same_request_def wait_fields_def ngx_healthcheck_request_collect_def request_finish_def
      ngx_healthcheck_request_cleanup_def apply_change_def ngx_healthcheck_request_output_def
      ngx_healthcheck_status_writer_send_def Let_def split: prod.splits if_splits)

lemma resume_job: "same_job r (ngx_healthcheck_request_resume r)"
proof -
  let ?r = "r\<lparr>rq_retry := None\<rparr>"
  obtain rc r1 where c: "ngx_healthcheck_request_collect ?r = (rc, r1)" by fastforce
  obtain x r2 where x: "ngx_healthcheck_request_wait rc r1 = (x, r2)" by fastforce
  obtain y r3 where y: "ngx_healthcheck_request_output r1 = (y, r3)" by fastforce
  have 1: "same_job r r1" using same_job_trans [OF same_job_parts(5) same_job_parts(1) [OF c]] .
  have 2: "same_job r r2" "same_job r r3"
    using same_job_trans [OF 1 same_job_parts(2) [OF x]] same_job_trans [OF 1 same_job_parts(3) [OF y]] by auto
  have "same_job r (request_finish e v)" if "same_job r v" for e v
    using same_job_trans [OF that same_job_parts(4)] .
  with c x y 1 2 same_job_parts(5) [of r None] show ?thesis
    by (auto simp: ngx_healthcheck_request_resume_def Let_def split: ngx_rc.split)
qed

lemma resume_all_job: "same_job r (resume_all cs r)"
proof (induction cs arbitrary: r)
  case Nil
  then show ?case by (simp add: same_job_def)
next
  case (Cons c cs)
  have "same_job r (resume_all cs (ngx_healthcheck_request_resume (apply_change c r)))"
    by (rule same_job_trans [OF same_job_trans [OF same_job_parts(6) resume_job] Cons.IH])
  then show ?case by (simp add: same_job_def)
qed

lemma init_snapshots_job: "init_snapshots k srcs r = (b, r') \<Longrightarrow> same_job r r'"
  by (induction k srcs r rule: init_snapshots.induct)
    (auto simp: Let_def same_job_def split: prod.splits if_splits)

lemma suspend_job:
  assumes "status_suspend c r = (x, r')"
  shows "same_job r r'"
proof -
  obtain ok t where a: "next_alloc (ht_pool r) = (ok, t)" by fastforce
  let ?v = "r\<lparr>ht_pool := t, ht_cleanup := True\<rparr>"
  obtain y w where w: "ngx_healthcheck_request_wait c ?v = (y, w)" by fastforce
  have 1: "same_job r w" using same_job_trans [OF same_job_parts(8) same_job_parts(2) [OF w]] .
  have "r' \<in> {r\<lparr>ht_pool := t\<rparr>, w\<lparr>ht_count := ht_count w + 1\<rparr>, ngx_healthcheck_request_cleanup w}"
    using assms a w by (auto simp: status_suspend_def Let_def split: if_splits ngx_rc.splits)
  with same_job_parts(7) [of r t] same_job_trans [OF 1 same_job_parts(9)] same_job_trans [OF 1 same_job_parts(10)]
  show ?thesis by blast
qed

lemma status_request_job:
  assumes "ngx_healthcheck_status_request h sources flag output zones = (rc, r)"
  shows "rq_sources r = sources \<and> rq_flag r = flag \<and> rq_output r = output"
proof -
  let ?r0 = "new_request h sources flag output zones"
  obtain ok t where a: "next_alloc (ht_pool ?r0) = (ok, t)" by fastforce
  let ?r1 = "?r0\<lparr>ht_pool := t\<rparr>"
  obtain ok2 r2 where i: "init_snapshots 0 sources ?r1 = (ok2, r2)" by fastforce
  obtain c r3 where c: "ngx_healthcheck_request_collect r2 = (c, r3)" by fastforce
  have 1: "same_job ?r0 ?r1" by (rule same_job_parts)
  from same_job_trans [OF this init_snapshots_job [OF i]] have 2: "same_job ?r0 r2" .
  from same_job_trans [OF this same_job_parts(1) [OF c]] have 3: "same_job ?r0 r3" .
  have "r \<in> {?r0, ?r1, r2, r3} \<or> ngx_healthcheck_request_output r3 = (rc, r) \<or> status_suspend c r3 = (rc, r)"
    using assms a i c by (auto simp: ngx_healthcheck_status_request_def Let_def split: if_splits ngx_rc.splits)
  with 1 2 3 have "same_job ?r0 r"
    using same_job_trans [OF 3 same_job_parts(3) [of r3 rc r]] same_job_trans [OF 3 suspend_job [of c r3 rc r]]
    by (auto simp: same_job_def)
  then show ?thesis by (simp add: same_job_def new_request_def http.defs)
qed

lemma page_complete:
  assumes "ngx_healthcheck_status_request h sources flag output zones = (rc, r)"
    and "ht_response h = None" and "\<forall>m. guarded (P m) (zones m)"
    and "\<forall>c \<in> set cs. \<forall>m. guarded (P m) (ch_zones c m)"
    and "ht_response (resume_all cs r) = Some page"
  shows "\<exists>snaps pool w. length snaps = length sources \<and>
    (\<forall>m < length sources. snap_full (P m) flag (sources ! m) (snaps ! m)) \<and>
    output snaps (ngx_healthcheck_status_writer_init pool) = (NGX_OK, w) \<and>
    rp_length page = wr_length w \<and> rp_body page \<in> {None, Some (wr_blocks w)}"
  using resume_all_inv [OF status_request_inv [OF assms(1-3)] assms(4)] assms(5)
    resume_all_job [of r cs] status_request_job [OF assms(1)]
  by (auto simp: request_inv_def pages_ok_def page_of_def same_job_def)

section \<open>Properties\<close>

text \<open>C18. Whatever happens to the connection and the zones between the calls of a status request, a page
  that it sends was formatted from complete snapshots: for every module each peer of its array once and
  in order, with a health record that the peer's zone held (\<open>P m\<close> describes the states other processes
  produce), the filter's rows and the totals of all of them; the announced length is the writer's.\<close>

theorem status_page_complete:
  assumes "ngx_healthcheck_status_request h sources flag output zones = (rc, r)"
    and "ht_response h = None" and "\<forall>m. guarded (P m) (zones m)"
    and "\<forall>c \<in> set cs. \<forall>m. guarded (P m) (ch_zones c m)"
    and "ht_response (resume_all cs r) = Some page"
  shows "\<exists>snaps pool w. length snaps = length sources \<and>
    (\<forall>m < length sources. snap_full (P m) flag (sources ! m) (snaps ! m)) \<and>
    output snaps (ngx_healthcheck_status_writer_init pool) = (NGX_OK, w) \<and>
    rp_length page = wr_length w \<and> rp_body page \<in> {None, Some (wr_blocks w)}"
  by (rule page_complete [OF assms])

text \<open>C19. A suspended request whose connection stays open, whose locks are free and whose allocations
  succeed is finalised, exactly once, after at most one call per 256 peers left.\<close>

theorem request_completes:
  assumes "ngx_healthcheck_status_request h sources flag output zones = (rc, r)"
    and "ht_response h = None" and "rq_retry r \<noteq> None"
    and "calm (256 * Suc j) r" and "healthy (Suc j) r" and "rq_left r \<le> 256 * Suc j"
  shows "\<exists>k \<le> j. \<exists>c. ht_finalized ((ngx_healthcheck_request_resume ^^ Suc k) r) = ht_finalized r @ [c]"
proof (rule resume_finishes)
  have "guarded (\<lambda>_. True) (zones m)" for m by (simp add: guarded_def)
  then show "request_ok (\<lambda>_ _. True) r"
    using status_request_inv [OF assms(1,2), of "\<lambda>_ _. True"] assms(3) by (simp add: request_inv_def)
qed (use assms in simp_all)

text \<open>C39. A request logs a contended peer only after one second of waiting, and never twice within five
  seconds.\<close>

theorem log_throttled:
  assumes "ngx_healthcheck_status_request h sources flag output zones = (rc, r)" and "ht_warnings h = []"
  shows "(\<forall>a \<in> set (ht_warnings (resume_all cs r)). 1000 \<le> wn_elapsed a) \<and>
    sorted_wrt (\<lambda>a b. ngx_healthcheck_add_time (wn_time a) 5000 \<le> wn_time b) (ht_warnings (resume_all cs r))"
  using resume_all_log [OF status_request_log [OF assms], of cs] by (auto simp: log_ok_def)

section \<open>Witnesses\<close>

definition demo_source :: source where
  "demo_source = \<lparr>so_peers = [\<lparr>p_index = 0, p_upstream_name = ''u'',
     p_check_addr = \<lparr>a_sockaddr = ''c'', a_name = ''c''\<rparr>, p_addr = \<lparr>a_sockaddr = ''a'', a_name = ''a''\<rparr>, p_conf = demo_conf\<rparr>], so_attached = (\<lambda>_. True), so_generation = 3, so_module = 1\<rparr>"

text \<open>A zone whose lock is contended at the given time, and one whose locks are free.\<close>

definition demo_view :: "(int \<times> u64) option list \<Rightarrow> (bool \<times> (peers_shm \<Rightarrow> peers_shm)) list \<Rightarrow> nat \<Rightarrow> zone_view" where
  "demo_view clock locks m = \<lparr>k_clock = clock, k_try = locks, k_kill = [], k_held = [], k_pid = 10, k_quit = False,
     k_shm = zero_peers_shm, zv_pool = True # True # replicate 300 True\<rparr>"

definition demo_http :: http where
  "demo_http = \<lparr>ht_last = True, ht_watch = True, ht_head = False, ht_header_only = False, ht_error = False,
     ht_close = False, ht_terminated = False, ht_discard_body = False, ht_send_header = 0, ht_output_filter = 0,
     ht_events = [True, True, True], ht_pool = [True, True, True, True, True], ht_response = None, ht_warnings = [],
     ht_finalized = [], ht_count = 1, ht_cleanup = False\<rparr>"

definition demo_output :: "snapshot list \<Rightarrow> writer \<Rightarrow> ngx_rc \<times> writer" where
  "demo_output snaps = ngx_healthcheck_status_writer_append ''ok''"

definition demo_request :: "http_rc \<times> request" where
  "demo_request = ngx_healthcheck_status_request demo_http [Some demo_source] 0 demo_output (demo_view [Some (5, 0)] [])"

definition demo_change :: "(int \<times> u64) option list \<Rightarrow> (bool \<times> (peers_shm \<Rightarrow> peers_shm)) list \<Rightarrow> change" where
  "demo_change clock locks = \<lparr>ch_error = False, ch_close = False, ch_terminated = False, ch_zones = demo_view clock locks\<rparr>"

lemmas request_evaluation = demo_source_def demo_view_def demo_http_def demo_output_def demo_change_def apply_change_def
  ngx_healthcheck_status_request_def new_request_def http.defs next_alloc_def ngx_healthcheck_snapshot_init_def
  array_alloc_def zero_snapshot_def ngx_healthcheck_request_collect_def collect_loop.simps
  ngx_healthcheck_snapshot_step_def snapshot_loop.simps ngx_healthcheck_try_read_peer_def shmtx_trylock_def
  ngx_healthcheck_recover_lock_def status_suspend_def ngx_healthcheck_request_wait_def wait_contended_def
  ngx_healthcheck_now_def timespec_ns_def wait_peer_def wait_log_def ngx_healthcheck_add_time_def
  ngx_healthcheck_request_resume_def ngx_healthcheck_request_output_def ngx_healthcheck_status_writer_send_def
  request_finish_def ngx_healthcheck_request_cleanup_def writer_evaluation ngx_healthcheck_status_writer_init_def
  snapshot_count_def row_skipped_def shmtx_unlock_def ngx_healthcheck_mul_time_def Let_def

lemma demo_request_waits: "demo_request = (HTTP_DONE, snd demo_request)" "rq_retry (snd demo_request) = Some 5"
  "ht_warnings demo_http = []" "ht_response demo_http = None"
  by (simp_all add: demo_request_def request_evaluation)

definition demo_changes :: "change list" where
  "demo_changes = [demo_change [Some (7, 0)] [], demo_change [] [(True, id)]]"

lemma demo_view_guarded: "\<forall>m. guarded (\<lambda>_. True) (demo_view clock locks m)"
  by (simp add: guarded_def)

lemma demo_page: "\<exists>page. ht_response (resume_all demo_changes (snd demo_request)) = Some page"
  by (simp add: demo_changes_def demo_request_def request_evaluation)

theorem status_page_complete_witness:
  "\<exists>snaps pool w. length snaps = 1 \<and> snap_full (\<lambda>_. True) 0 (Some demo_source) (snaps ! 0) \<and>
     demo_output snaps (ngx_healthcheck_status_writer_init pool) = (NGX_OK, w)"
proof -
  obtain page where page: "ht_response (resume_all demo_changes (snd demo_request)) = Some page"
    using demo_page by blast
  have "\<forall>c \<in> set demo_changes. \<forall>m. guarded (\<lambda>_. True) (ch_zones c m)"
    by (simp add: demo_changes_def demo_change_def guarded_def)
  from status_page_complete [OF demo_request_waits(1) [unfolded demo_request_def] demo_request_waits(4)
      demo_view_guarded [where clock = "[Some (5, 0)]"] this page [unfolded demo_request_def]]
  show ?thesis by auto
qed

lemma demo_logged: "ht_warnings (resume_all demo_changes (snd demo_request)) =
    [\<lparr>wn_time = 7000, wn_module = 1, wn_peer = 0, wn_elapsed = 2000\<rparr>]"
  by (simp add: demo_changes_def demo_request_def request_evaluation)

theorem log_throttled_witness:
  "\<exists>w. ht_warnings (resume_all demo_changes (snd demo_request)) = [w] \<and> 1000 \<le> wn_elapsed w"
  using log_throttled [OF demo_request_waits(1) [unfolded demo_request_def] demo_request_waits(3), of demo_changes]
    demo_logged [unfolded demo_request_def]
  unfolding demo_request_def by auto

text \<open>A request that finds the lock taken once.\<close>

definition demo_calm :: "http_rc \<times> request" where
  "demo_calm = ngx_healthcheck_status_request demo_http [Some demo_source] 0 demo_output
     (demo_view [Some (5, 0)] ((False, id) # replicate 256 (True, id)))"

lemma demo_calm_waits: "demo_calm = (HTTP_DONE, snd demo_calm)" "rq_retry (snd demo_calm) = Some 5"
  "rq_sources (snd demo_calm) = [Some demo_source]" "rq_left (snd demo_calm) = 1" "healthy 1 (snd demo_calm)"
  "k_try (rq_zones (snd demo_calm) 0) = replicate 256 (True, id)"
  "zv_pool (rq_zones (snd demo_calm) 0) = True # replicate 300 True"
  by (simp_all add: demo_calm_def request_evaluation rq_left_def src_left_def healthy_def)

theorem request_completes_witness:
  "\<exists>c. ht_finalized (ngx_healthcheck_request_resume (snd demo_calm)) = ht_finalized (snd demo_calm) @ [c]"
proof -
  have "supplied 256 (rq_zones (snd demo_calm) 0)"
    unfolding supplied_def demo_calm_waits(6,7)
    by (rule exI [of _ "[]"], rule exI [of _ "Suc 300"]) (auto simp only: replicate_Suc append_Nil2)
  then have "calm (256 * Suc 0) (snd demo_calm)"
    by (simp add: calm_def demo_calm_waits(3) demo_source_def)
  from request_completes [OF demo_calm_waits(1) [unfolded demo_calm_def] demo_request_waits(4) _ this [unfolded demo_calm_def]]
  show ?thesis using demo_calm_waits(2,4,5) by (simp add: demo_calm_def)
qed

end
