(* ===== verification/Formats.thy ===== *)
theory Formats
  imports Snapshot Writer
begin

text \<open>
  The pages of the status requests: the HTML, CSV, JSON and Prometheus formatters of
  \<^verbatim>\<open>ngx_healthcheck_status.c\<close> and the old page of \<^verbatim>\<open>status/ngx_healthcheck_legacy.c\<close>.  Every
  formatter is shown to be a list of formatted prints, from which the text of the page follows.
\<close>

section \<open>Format strings\<close>

text \<open>The HTML page.\<close>

definition html_page_head :: bytes where
  "html_page_head =
     ''<!DOCTYPE html PUBLIC \"-//W3C//DTD XHTML 1.0 Strict//EN\<newline>'' @
     ''\"http://www.w3.org/TR/xhtml1/DTD/xhtml1-strict.dtd\">\<newline>'' @
     ''<html xmlns=\"http://www.w3.org/1999/xhtml\">\<newline>'' @
     ''<head>\<newline>'' @
     ''  <title>Nginx upstream status checker</title>\<newline>'' @
     ''</head>\<newline>'' @
     ''<body>\<newline>'' @
     ''<h1  align=\"center\">Nginx upstream status monitor</h1>\<newline>''"

definition html_http_table :: bytes where
  "html_http_table =
     ''<h2>http upstream servers </h2> up: %ui down: %ui total: %ui\<newline>'' @
     ''<table style=\"background-color:white\" cellspacing=\"0\" '' @
     ''       cellpadding=\"3\" border=\"1\">\<newline>'' @
     ''  <tr bgcolor=\"#C0C0C0\">\<newline>'' @
     ''    <th>Index</th>\<newline>'' @
     ''    <th>Upstream</th>\<newline>'' @
     ''    <th>Name</th>\<newline>'' @
     ''    <th>Status</th>\<newline>'' @
     ''    <th>Rise counts</th>\<newline>'' @
     ''    <th>Fall counts</th>\<newline>'' @
     ''    <th>Check type</th>\<newline>'' @
     ''    <th>Check port</th>\<newline>'' @
     ''    <th>Last delay(ms)</th>\<newline>'' @
     ''    <th>Avg delay(ms)</th>\<newline>'' @
     ''    <th>Min delay(ms)</th>\<newline>'' @
     ''    <th>Max delay(ms)</th>\<newline>'' @
     ''  </tr>\<newline>''"

definition html_row :: bytes where
  "html_row =
     ''  <tr%s>\<newline>'' @
     ''    <td>%ui</td>\<newline>'' @
     ''    <td>%V</td>\<newline>'' @
     ''    <td>%V</td>\<newline>'' @
     ''    <td>%s</td>\<newline>'' @
     ''    <td>%ui</td>\<newline>'' @
     ''    <td>%ui</td>\<newline>'' @
     ''    <td>%V</td>\<newline>'' @
     ''    <td>%ui</td>\<newline>'' @
     ''    <td>%M</td>\<newline>'' @
     ''    <td>%M</td>\<newline>'' @
     ''    <td>%M</td>\<newline>'' @
     ''    <td>%M</td>\<newline>'' @
     ''  </tr>\<newline>''"

definition html_table_end :: bytes where
  "html_table_end =
     ''</table>\<newline>''"

definition html_stream_table :: bytes where
  "html_stream_table =
     ''<h2>stream upstream servers </h2> up: %ui down: %ui total: %ui\<newline>'' @
     ''<table style=\"background-color:white\" cellspacing=\"0\" '' @
     ''       cellpadding=\"3\" border=\"1\">\<newline>'' @
     ''  <tr bgcolor=\"#C0C0C0\">\<newline>'' @
     ''    <th>Index</th>\<newline>'' @
     ''    <th>Upstream</th>\<newline>'' @
     ''    <th>Name</th>\<newline>'' @
     ''    <th>Status</th>\<newline>'' @
     ''    <th>Rise counts</th>\<newline>'' @
     ''    <th>Fall counts</th>\<newline>'' @
     ''    <th>Check type</th>\<newline>'' @
     ''    <th>Check port</th>\<newline>'' @
     ''    <th>Last delay(ms)</th>\<newline>'' @
     ''    <th>Avg delay(ms)</th>\<newline>'' @
     ''    <th>Min delay(ms)</th>\<newline>'' @
     ''    <th>Max delay(ms)</th>\<newline>'' @
     ''  </tr>\<newline>''"

definition html_page_end :: bytes where
  "html_page_end =
     ''</table>\<newline>'' @
     ''<h2>total servers(check enabled): %ui </h2>\<newline>'' @
     ''</body></html>\<newline>''"

text \<open>CSV.\<close>

definition csv_head :: bytes where
  "csv_head =
     ''index,upstream_type,upstream_name,host,rise,fall,check_type,check_port,last_delay,avg_delay,'' @
     ''min_delay,max_delay,status\<newline>''"

definition csv_http_row :: bytes where
  "csv_http_row =
     ''%ui,http,%V,%V,%ui,%ui,%V,%ui,%M,%M,%M,%M,%s\<newline>''"

definition csv_stream_row :: bytes where
  "csv_stream_row =
     ''%ui,stream,%V,%V,%ui,%ui,%V,%ui,%M,%M,%M,%M,%s\<newline>''"

text \<open>JSON.\<close>

definition json_head :: bytes where
  "json_head =
     ''{\"servers\": {\<newline>'' @
     ''  \"total\": %ui,\<newline>'' @
     ''  \"generation\": %ui,\<newline>'' @
     ''  \"http\": [\<newline>''"

definition json_row :: bytes where
  "json_row =
     ''    {\"index\": %ui, '' @
     ''\"upstream\": \"%V\", '' @
     ''\"name\": \"%V\", '' @
     ''\"status\": \"%s\", '' @
     ''\"rise\": %ui, '' @
     ''\"fall\": %ui, '' @
     ''\"type\": \"%V\", '' @
     ''\"port\": %ui, '' @
     ''\"last_delay_ms\": %M, '' @
     ''\"avg_delay_ms\": %M, '' @
     ''\"min_delay_ms\": %M, '' @
     ''\"max_delay_ms\": %M}'' @
     ''%s\<newline>''"

definition json_stream_head :: bytes where
  "json_stream_head =
     ''  ],\<newline>  \"stream\": [\<newline>''"

definition json_list_end :: bytes where
  "json_list_end =
     ''  ]\<newline>''"

definition json_page_end :: bytes where
  "json_page_end =
     ''}}\<newline>''"

text \<open>Prometheus.\<close>

definition prom_summary :: bytes where
  "prom_summary =
     ''# HELP nginx_upstream_count_total Nginx total number of servers\<newline>'' @
     ''# TYPE nginx_upstream_count_total gauge\<newline>'' @
     ''nginx_upstream_count_total %ui\<newline>'' @
     ''# HELP nginx_upstream_count_up Nginx total number of servers that are UP\<newline>'' @
     ''# TYPE nginx_upstream_count_up gauge\<newline>'' @
     ''nginx_upstream_count_up %ui\<newline>'' @
     ''# HELP nginx_upstream_count_down Nginx total number of servers that are DOWN\<newline>'' @
     ''# TYPE nginx_upstream_count_down gauge\<newline>'' @
     ''nginx_upstream_count_down %ui\<newline>'' @
     ''# HELP nginx_upstream_count_generation Nginx generation\<newline>'' @
     ''# TYPE nginx_upstream_count_generation gauge\<newline>'' @
     ''nginx_upstream_count_generation %ui\<newline>''"

definition prom_rise_head :: bytes where
  "prom_rise_head =
     ''# HELP nginx_upstream_server_rise Nginx rise counter\<newline>'' @
     ''# TYPE nginx_upstream_server_rise counter\<newline>''"

definition prom_rise_row :: bytes where
  "prom_rise_row =
     ''nginx_upstream_server_rise{index=\"%ui\",upstream_type=\"%V\",upstream=\"%V\",name=\"%V\",'' @
     ''status=\"%s\",type=\"%V\",port=\"%ui\"} %ui\<newline>''"

definition prom_fall_head :: bytes where
  "prom_fall_head =
     ''# HELP nginx_upstream_server_fall Nginx fall counter\<newline>'' @
     ''# TYPE nginx_upstream_server_fall counter\<newline>''"

definition prom_fall_row :: bytes where
  "prom_fall_row =
     ''nginx_upstream_server_fall{index=\"%ui\",upstream_type=\"%V\",upstream=\"%V\",name=\"%V\",'' @
     ''status=\"%s\",type=\"%V\",port=\"%ui\"} %ui\<newline>''"

definition prom_active_head :: bytes where
  "prom_active_head =
     ''# HELP nginx_upstream_server_active Nginx active 1 for UP / 0 for DOWN\<newline>'' @
     ''# TYPE nginx_upstream_server_active gauge\<newline>''"

definition prom_active_row :: bytes where
  "prom_active_row =
     ''nginx_upstream_server_active{index=\"%ui\",upstream_type=\"%V\",upstream=\"%V\",name=\"%V\",'' @
     ''type=\"%V\",port=\"%ui\"} %ui\<newline>''"

text \<open>The old status page.\<close>

definition legacy_html_head :: bytes where
  "legacy_html_head =
     ''<!DOCTYPE html PUBLIC \"-//W3C//DTD XHTML 1.0 Strict//EN\<newline>'' @
     ''\"http://www.w3.org/TR/xhtml1/DTD/xhtml1-strict.dtd\">\<newline>'' @
     ''<html xmlns=\"http://www.w3.org/1999/xhtml\">\<newline>'' @
     ''<head>\<newline>'' @
     ''  <title>Nginx http upstream check status</title>\<newline>'' @
     ''</head>\<newline>'' @
     ''<body>\<newline>'' @
     ''<h1>Nginx http upstream check status</h1>\<newline>'' @
     ''<h2>Check upstream server number: %ui, generation: %ui</h2>\<newline>'' @
     ''<table style=\"background-color:white\" cellspacing=\"0\" '' @
     ''       cellpadding=\"3\" border=\"1\">\<newline>'' @
     ''  <tr bgcolor=\"#C0C0C0\">\<newline>'' @
     ''    <th>Index</th>\<newline>'' @
     ''    <th>Upstream</th>\<newline>'' @
     ''    <th>Name</th>\<newline>'' @
     ''    <th>Status</th>\<newline>'' @
     ''    <th>Rise counts</th>\<newline>'' @
     ''    <th>Fall counts</th>\<newline>'' @
     ''    <th>Check type</th>\<newline>'' @
     ''    <th>Check port</th>\<newline>'' @
     ''  </tr>\<newline>''"

definition legacy_html_row :: bytes where
  "legacy_html_row =
     ''  <tr%s>\<newline>'' @
     ''    <td>%ui</td>\<newline>'' @
     ''    <td>%V</td>\<newline>'' @
     ''    <td>%V</td>\<newline>'' @
     ''    <td>%s</td>\<newline>'' @
     ''    <td>%ui</td>\<newline>'' @
     ''    <td>%ui</td>\<newline>'' @
     ''    <td>%V</td>\<newline>'' @
     ''    <td>%ui</td>\<newline>'' @
     ''  </tr>\<newline>''"

definition legacy_html_end :: bytes where
  "legacy_html_end =
     ''</table>\<newline></body>\<newline></html>\<newline>''"

definition legacy_csv_row :: bytes where
  "legacy_csv_row =
     ''%ui,%V,%V,%s,%ui,%ui,%V,%ui\<newline>''"

definition legacy_json_head :: bytes where
  "legacy_json_head =
     ''{\"servers\": {\<newline>'' @
     ''  \"total\": %ui,\<newline>'' @
     ''  \"generation\": %ui,\<newline>'' @
     ''  \"server\": [\<newline>''"

definition legacy_json_row :: bytes where
  "legacy_json_row =
     ''    {\"index\": %ui, '' @
     ''\"upstream\": \"%V\", '' @
     ''\"name\": \"%V\", '' @
     ''\"status\": \"%s\", '' @
     ''\"rise\": %ui, '' @
     ''\"fall\": %ui, '' @
     ''\"type\": \"%V\", '' @
     ''\"port\": %ui}%s\<newline>''"

definition legacy_json_end :: bytes where
  "legacy_json_end =
     ''  ]\<newline>}}\<newline>''"

section \<open>Formatters\<close>

abbreviation (input) printf :: "bytes \<Rightarrow> farg list \<Rightarrow> writer \<Rightarrow> ngx_rc \<times> writer" where
  "printf \<equiv> ngx_healthcheck_status_writer_printf"

definition written :: "writer \<Rightarrow> ngx_rc \<times> writer" where
  "written w = (NGX_OK, w)"

text \<open>The fields of a row as arguments.\<close>

definition row_status :: "snap_row \<Rightarrow> farg" where
  "row_status p = ArgS (if h_down (sr_health p) \<noteq> 0 then ''down'' else ''up'')"

definition row_type :: "snap_row \<Rightarrow> farg" where
  "row_type p = ArgV (cc_name (the (c_check_type (sr_conf p))))"

definition row_color :: "snap_row \<Rightarrow> farg" where
  "row_color p = ArgS (if h_down (sr_health p) \<noteq> 0 then '' bgcolor=\"#FF0000\"'' else '''')"

definition row_delays :: "snap_row \<Rightarrow> farg list" where
  "row_delays p = [ArgM (h_last (sr_health p)), ArgM (h_avg (sr_health p)), ArgM (h_min (sr_health p)),
     ArgM (h_max (sr_health p))]"

text \<open>The loops over the rows with their filter.\<close>

definition rows_loop :: "u64 \<Rightarrow> (snap_row \<Rightarrow> writer \<Rightarrow> ngx_rc \<times> writer) \<Rightarrow> snap_row list \<Rightarrow> writer \<Rightarrow> ngx_rc \<times> writer" where
  "rows_loop flag print = write_each (\<lambda>p. if row_skipped flag (sr_health p) then written else print p)"

definition html_row_args :: "snap_row \<Rightarrow> farg list" where
  "html_row_args p =
     [row_color p, ArgUi (sr_index p), ArgV (sr_upstream_name p), ArgV (a_name (sr_peer_addr p)), row_status p,
      ArgUi (h_rise_count (sr_health p)), ArgUi (h_fall_count (sr_health p)), row_type p, ArgUi (c_port (sr_conf p))]
     @ row_delays p"

definition ngx_upstream_check_status_html_format :: "snapshot list \<Rightarrow> u64 \<Rightarrow> writer \<Rightarrow> ngx_rc \<times> writer" where
  "ngx_upstream_check_status_html_format snapshots flag =
     (let stream_count = sn_total (snapshots ! 1);
          http_count = sn_total (snapshots ! 0);
          stream_up_count = sn_up (snapshots ! 1);
          http_up_count = sn_up (snapshots ! 0)
      in write_then (printf html_page_head [])
        (write_then (printf html_http_table [ArgUi http_up_count, ArgUi (http_count - http_up_count), ArgUi http_count])
        (write_then (rows_loop flag (\<lambda>p. printf html_row (html_row_args p)) (sn_rows (snapshots ! 0)))
        (write_then (printf html_table_end [])
        (write_then (printf html_stream_table
            [ArgUi stream_up_count, ArgUi (stream_count - stream_up_count), ArgUi stream_count])
        (write_then (rows_loop flag (\<lambda>p. printf html_row (html_row_args p)) (sn_rows (snapshots ! 1)))
        (write_then (printf html_page_end [ArgUi (stream_count + http_count)])
         written)))))))"

definition csv_row_args :: "snap_row \<Rightarrow> farg list" where
  "csv_row_args p =
     [ArgUi (sr_index p), ArgV (sr_upstream_name p), ArgV (a_name (sr_peer_addr p)),
      ArgUi (h_rise_count (sr_health p)), ArgUi (h_fall_count (sr_health p)), row_type p, ArgUi (c_port (sr_conf p))]
     @ row_delays p @ [row_status p]"

definition ngx_upstream_check_status_csv_format :: "snapshot list \<Rightarrow> u64 \<Rightarrow> writer \<Rightarrow> ngx_rc \<times> writer" where
  "ngx_upstream_check_status_csv_format snapshots flag =
     write_then (printf csv_head [])
     (write_then (rows_loop flag (\<lambda>p. printf csv_http_row (csv_row_args p)) (sn_rows (snapshots ! 0)))
     (write_then (rows_loop flag (\<lambda>p. printf csv_stream_row (csv_row_args p)) (sn_rows (snapshots ! 1)))
      written))"

text \<open>The JSON loop has no filter; the comma goes by the number of rows.\<close>

definition json_row_args :: "nat \<Rightarrow> nat \<Rightarrow> snap_row \<Rightarrow> farg list" where
  "json_row_args i number p =
     [ArgUi (sr_index p), ArgV (sr_upstream_name p), ArgV (a_name (sr_peer_addr p)), row_status p,
      ArgUi (h_rise_count (sr_health p)), ArgUi (h_fall_count (sr_health p)), row_type p, ArgUi (c_port (sr_conf p))]
     @ row_delays p @ [ArgS (if i + 1 = number then '''' else '','')]"

definition json_rows :: "snap_row list \<Rightarrow> writer \<Rightarrow> ngx_rc \<times> writer" where
  "json_rows rows = write_each (\<lambda>(i, p). printf json_row (json_row_args i (length rows) p)) (enumerate 0 rows)"

definition pages_generation :: "snapshot list \<Rightarrow> u64" where
  "pages_generation snapshots =
     (if sn_generation (snapshots ! 1) \<noteq> 0 then sn_generation (snapshots ! 1) else sn_generation (snapshots ! 0))"

definition ngx_upstream_check_status_json_format :: "snapshot list \<Rightarrow> u64 \<Rightarrow> writer \<Rightarrow> ngx_rc \<times> writer" where
  "ngx_upstream_check_status_json_format snapshots flag =
     (let count = of_nat (length (sn_rows (snapshots ! 0))) + of_nat (length (sn_rows (snapshots ! 1)));
          generation = pages_generation snapshots
      in write_then (printf json_head [ArgUi count, ArgUi generation])
        (write_then (json_rows (sn_rows (snapshots ! 0)))
        (write_then (printf json_stream_head [])
        (write_then (json_rows (sn_rows (snapshots ! 1)))
        (write_then (printf json_list_end [])
        (write_then (printf json_page_end [])
         written))))))"

text \<open>The counting loop of the summary, over one module's rows: total, up and down.\<close>

primrec prom_count :: "u64 \<Rightarrow> snap_row list \<Rightarrow> u64 \<times> u64 \<times> u64 \<Rightarrow> u64 \<times> u64 \<times> u64" where
  "prom_count flag [] c = c"
| "prom_count flag (p # ps) c =
     (let (count, up, down) = c in
      prom_count flag ps
        (if row_skipped flag (sr_health p) then c
         else if h_down (sr_health p) \<noteq> 0 then (count + 1, up, down + 1)
         else (count + 1, up + 1, down)))"

definition prom_labels :: "bytes \<Rightarrow> snap_row \<Rightarrow> farg list" where
  "prom_labels upstream_type p =
     [ArgUi (sr_index p), ArgV upstream_type, ArgV (sr_upstream_name p), ArgV (a_name (sr_peer_addr p)), row_status p,
      row_type p, ArgUi (c_port (sr_conf p))]"

definition prom_active_args :: "bytes \<Rightarrow> snap_row \<Rightarrow> farg list" where
  "prom_active_args upstream_type p =
     [ArgUi (sr_index p), ArgV upstream_type, ArgV (sr_upstream_name p), ArgV (a_name (sr_peer_addr p)),
      row_type p, ArgUi (c_port (sr_conf p)), ArgUi (if h_down (sr_health p) \<noteq> 0 then 0 else 1)]"

text \<open>One metric: the loop over both modules.\<close>

definition prom_metric :: "u64 \<Rightarrow> bytes \<Rightarrow> (bytes \<Rightarrow> snap_row \<Rightarrow> farg list) \<Rightarrow> snapshot list \<Rightarrow> writer \<Rightarrow> ngx_rc \<times> writer" where
  "prom_metric flag row args snapshots =
     write_each (\<lambda>(t, sn). rows_loop flag (\<lambda>p. printf row (args t p)) (sn_rows sn))
       [(''http'', snapshots ! 0), (''stream'', snapshots ! 1)]"

definition ngx_http_upstream_check_status_prometheus_format :: "snapshot list \<Rightarrow> u64 \<Rightarrow> writer \<Rightarrow> ngx_rc \<times> writer" where
  "ngx_http_upstream_check_status_prometheus_format snapshots flag =
     (let (count, upCount, downCount) =
            prom_count flag (sn_rows (snapshots ! 1)) (prom_count flag (sn_rows (snapshots ! 0)) (0, 0, 0))
      in write_then (printf prom_summary
            [ArgUi count, ArgUi upCount, ArgUi downCount, ArgUi (pages_generation snapshots)])
        (write_then (printf prom_rise_head [])
        (write_then (prom_metric flag prom_rise_row
            (\<lambda>t p. prom_labels t p @ [ArgUi (h_rise_count (sr_health p))]) snapshots)
        (write_then (printf prom_fall_head [])
        (write_then (prom_metric flag prom_fall_row
            (\<lambda>t p. prom_labels t p @ [ArgUi (h_fall_count (sr_health p))]) snapshots)
        (write_then (printf prom_active_head [])
        (write_then (prom_metric flag prom_active_row prom_active_args snapshots)
         written)))))))"

text \<open>The old page: format 0 is HTML, 1 CSV, 2 JSON.\<close>

definition legacy_row_args :: "snap_row \<Rightarrow> farg list" where
  "legacy_row_args p =
     [ArgUi (sr_index p), ArgV (sr_upstream_name p), ArgV (a_name (sr_peer_addr p)), row_status p,
      ArgUi (h_rise_count (sr_health p)), ArgUi (h_fall_count (sr_health p)), row_type p, ArgUi (c_port (sr_conf p))]"

definition legacy_row :: "u64 \<Rightarrow> nat \<Rightarrow> nat \<times> snap_row \<Rightarrow> writer \<Rightarrow> ngx_rc \<times> writer" where
  "legacy_row format number = (\<lambda>(i, p).
     if format = 0 then printf legacy_html_row (row_color p # legacy_row_args p)
     else if format = 1 then printf legacy_csv_row (legacy_row_args p)
     else printf legacy_json_row (legacy_row_args p @ [ArgS (if i + 1 = number then '''' else '','')]))"

definition ngx_healthcheck_legacy_output :: "snapshot \<Rightarrow> u64 \<Rightarrow> writer \<Rightarrow> ngx_rc \<times> writer" where
  "ngx_healthcheck_legacy_output sn format =
     (let rows = sn_rows sn; count = of_nat (length rows)
      in write_then
          (if format = 0 then printf legacy_html_head [ArgUi count, ArgUi (sn_generation sn)]
           else if format = 2 then printf legacy_json_head [ArgUi count, ArgUi (sn_generation sn)]
           else written)
        (write_then (write_each (legacy_row format (length rows)) (enumerate 0 rows))
          (if format = 0 then printf legacy_html_end []
           else if format = 2 then printf legacy_json_end []
           else written)))"

section \<open>Formatters as lists of prints\<close>

definition print_all :: "(bytes \<times> farg list) list \<Rightarrow> writer \<Rightarrow> ngx_rc \<times> writer" where
  "print_all = write_each (\<lambda>(fmt, args). printf fmt args)"

lemma written_print_all: "written = print_all []"
  by (rule ext) (simp add: written_def print_all_def)

lemma print_all_Cons: "write_then (printf fmt args) (print_all ps) = print_all ((fmt, args) # ps)"
  by (rule ext) (simp add: print_all_def)

lemma print_all_append: "write_then (print_all ps) (print_all qs) = print_all (ps @ qs)"
proof (induction ps)
  case Nil
  show ?case by (rule ext) (simp add: print_all_def write_then_def)
next
  case (Cons p ps)
  obtain fmt args where p: "p = (fmt, args)" by fastforce
  have "write_then (print_all (p # ps)) (print_all qs) w = write_then (printf fmt args) (print_all (ps @ qs)) w" for w
    unfolding Cons.IH [symmetric]
    by (auto simp: print_all_def write_then_def p split: prod.split ngx_rc.split)
  then show ?case by (simp add: fun_eq_iff p print_all_Cons)
qed

lemma write_each_print_all: "write_each (\<lambda>x. print_all (f x)) xs = print_all (concat (map f xs))"
proof (induction xs)
  case Nil
  show ?case by (rule ext) (simp add: print_all_def)
next
  case (Cons x xs)
  have "write_each (\<lambda>x. print_all (f x)) (x # xs) = write_then (print_all (f x)) (write_each (\<lambda>x. print_all (f x)) xs)"
    by (rule ext) simp
  then show ?case by (simp add: Cons.IH print_all_append)
qed

lemma then_written: "write_then f written = write_then f (print_all [])" "write_then written g = g"
  by (rule ext, simp add: written_print_all) (rule ext, simp add: write_then_def written_def)

lemma print_each: "write_each (\<lambda>x. printf (f x) (a x)) xs = print_all (map (\<lambda>x. (f x, a x)) xs)"
proof (induction xs)
  case Nil
  show ?case by (rule ext) (simp add: print_all_def)
next
  case (Cons x xs)
  then show ?case by (intro ext) (simp add: print_all_def)
qed

text \<open>The rows a page shows.\<close>

definition visible :: "u64 \<Rightarrow> snapshot \<Rightarrow> snap_row list" where
  "visible flag sn = filter (\<lambda>p. \<not> row_skipped flag (sr_health p)) (sn_rows sn)"

lemma rows_loop_visible: "rows_loop flag (\<lambda>p. printf fmt (args p)) (sn_rows sn) =
    print_all (map (\<lambda>p. (fmt, args p)) (visible flag sn))"
  unfolding rows_loop_def visible_def
proof (induction "sn_rows sn" arbitrary: sn)
  case Nil
  show ?case unfolding Nil [symmetric] by (rule ext) (simp add: print_all_def)
next
  case (Cons p ps)
  let ?rest = "write_each (\<lambda>p. if row_skipped flag (sr_health p) then written else printf fmt (args p))"
  have "?rest (p # ps) = write_then (if row_skipped flag (sr_health p) then written else printf fmt (args p)) (?rest ps)"
    by (rule ext) simp
  moreover have "?rest ps = print_all (map (\<lambda>p. (fmt, args p)) (filter (\<lambda>p. \<not> row_skipped flag (sr_health p)) ps))"
    using Cons(1) [of "sn\<lparr>sn_rows := ps\<rparr>"] by simp
  ultimately show ?case unfolding Cons(2) [symmetric] by (simp add: then_written print_all_Cons)
qed

lemmas as_prints = then_written written_print_all print_all_Cons print_all_append rows_loop_visible

text \<open>The prints of a page.\<close>

definition html_prints :: "snapshot list \<Rightarrow> u64 \<Rightarrow> (bytes \<times> farg list) list" where
  "html_prints snapshots flag =
     (let part = (\<lambda>table sn. (table, [ArgUi (sn_up sn), ArgUi (sn_total sn - sn_up sn), ArgUi (sn_total sn)]) #
            map (\<lambda>p. (html_row, html_row_args p)) (visible flag sn))
      in (html_page_head, []) # part html_http_table (snapshots ! 0) @ (html_table_end, []) #
         part html_stream_table (snapshots ! 1) @
         [(html_page_end, [ArgUi (sn_total (snapshots ! 1) + sn_total (snapshots ! 0))])])"

definition csv_prints :: "snapshot list \<Rightarrow> u64 \<Rightarrow> (bytes \<times> farg list) list" where
  "csv_prints snapshots flag = (csv_head, []) #
     map (\<lambda>p. (csv_http_row, csv_row_args p)) (visible flag (snapshots ! 0)) @
     map (\<lambda>p. (csv_stream_row, csv_row_args p)) (visible flag (snapshots ! 1))"

definition json_row_prints :: "snap_row list \<Rightarrow> (bytes \<times> farg list) list" where
  "json_row_prints rows = map (\<lambda>(i, p). (json_row, json_row_args i (length rows) p)) (enumerate 0 rows)"

definition json_prints :: "snapshot list \<Rightarrow> (bytes \<times> farg list) list" where
  "json_prints snapshots =
     (json_head, [ArgUi (of_nat (length (sn_rows (snapshots ! 0))) + of_nat (length (sn_rows (snapshots ! 1)))),
        ArgUi (pages_generation snapshots)]) #
     json_row_prints (sn_rows (snapshots ! 0)) @ (json_stream_head, []) # json_row_prints (sn_rows (snapshots ! 1)) @
     [(json_list_end, []), (json_page_end, [])]"

definition metric_prints :: "u64 \<Rightarrow> bytes \<Rightarrow> (bytes \<Rightarrow> snap_row \<Rightarrow> farg list) \<Rightarrow> snapshot list \<Rightarrow> (bytes \<times> farg list) list" where
  "metric_prints flag row args snapshots =
     map (\<lambda>p. (row, args ''http'' p)) (visible flag (snapshots ! 0)) @
     map (\<lambda>p. (row, args ''stream'' p)) (visible flag (snapshots ! 1))"

text \<open>The numbers of the Prometheus summary: all peers shown, those up, those down.\<close>

definition shown :: "u64 \<Rightarrow> snapshot list \<Rightarrow> snap_row list" where
  "shown flag snapshots = visible flag (snapshots ! 0) @ visible flag (snapshots ! 1)"

definition prom_prints :: "snapshot list \<Rightarrow> u64 \<Rightarrow> (bytes \<times> farg list) list" where
  "prom_prints snapshots flag =
     (let rows = shown flag snapshots; down = filter (\<lambda>p. h_down (sr_health p) \<noteq> 0) rows
      in (prom_summary, [ArgUi (of_nat (length rows)), ArgUi (of_nat (length rows) - of_nat (length down)),
            ArgUi (of_nat (length down)), ArgUi (pages_generation snapshots)]) #
         (prom_rise_head, []) #
         metric_prints flag prom_rise_row (\<lambda>t p. prom_labels t p @ [ArgUi (h_rise_count (sr_health p))]) snapshots @
         (prom_fall_head, []) #
         metric_prints flag prom_fall_row (\<lambda>t p. prom_labels t p @ [ArgUi (h_fall_count (sr_health p))]) snapshots @
         (prom_active_head, []) #
         metric_prints flag prom_active_row prom_active_args snapshots)"

lemma html_as_prints: "ngx_upstream_check_status_html_format snapshots flag = print_all (html_prints snapshots flag)"
  by (simp add: ngx_upstream_check_status_html_format_def html_prints_def Let_def as_prints)

lemma csv_as_prints: "ngx_upstream_check_status_csv_format snapshots flag = print_all (csv_prints snapshots flag)"
  by (simp add: ngx_upstream_check_status_csv_format_def csv_prints_def as_prints)

lemma json_rows_prints: "json_rows rows = print_all (json_row_prints rows)"
  by (simp add: json_rows_def json_row_prints_def case_prod_unfold print_each)

lemma json_as_prints: "ngx_upstream_check_status_json_format snapshots flag = print_all (json_prints snapshots)"
  by (simp add: ngx_upstream_check_status_json_format_def json_prints_def Let_def as_prints json_rows_prints)

lemma metric_as_prints: "prom_metric flag row args snapshots = print_all (metric_prints flag row args snapshots)"
proof -
  have "prom_metric flag row args snapshots =
      write_then (rows_loop flag (\<lambda>p. printf row (args ''http'' p)) (sn_rows (snapshots ! 0)))
        (write_then (rows_loop flag (\<lambda>p. printf row (args ''stream'' p)) (sn_rows (snapshots ! 1))) written)"
    by (rule ext) (simp add: prom_metric_def written_def write_then_def split: prod.split ngx_rc.split)
  then show ?thesis by (simp add: as_prints metric_prints_def)
qed

lemma prom_count_rows: "prom_count flag (sn_rows sn) (n, u, d) =
    (let rows = visible flag sn; down = filter (\<lambda>p. h_down (sr_health p) \<noteq> 0) rows
     in (n + of_nat (length rows), u + (of_nat (length rows) - of_nat (length down)), d + of_nat (length down)))"
proof -
  have "prom_count flag ps (n, u, d) =
    (let rows = filter (\<lambda>p. \<not> row_skipped flag (sr_health p)) ps; down = filter (\<lambda>p. h_down (sr_health p) \<noteq> 0) rows
     in (n + of_nat (length rows), u + (of_nat (length rows) - of_nat (length down)), d + of_nat (length down)))" for ps
    by (induction ps arbitrary: n u d) (auto simp: Let_def)
  then show ?thesis by (simp add: visible_def)
qed

lemma prom_as_prints:
  "ngx_http_upstream_check_status_prometheus_format snapshots flag = print_all (prom_prints snapshots flag)"
  by (simp add: ngx_http_upstream_check_status_prometheus_format_def prom_prints_def Let_def prom_count_rows as_prints
      metric_as_prints shown_def algebra_simps)

definition legacy_prints :: "snapshot \<Rightarrow> u64 \<Rightarrow> (bytes \<times> farg list) list" where
  "legacy_prints sn format =
     (let rows = sn_rows sn; totals = [ArgUi (of_nat (length rows)), ArgUi (sn_generation sn)]
      in if format = 0 then (legacy_html_head, totals) #
           map (\<lambda>p. (legacy_html_row, row_color p # legacy_row_args p)) rows @ [(legacy_html_end, [])]
         else if format = 1 then map (\<lambda>p. (legacy_csv_row, legacy_row_args p)) rows
         else (let body = map (\<lambda>(i, p). (legacy_json_row,
                  legacy_row_args p @ [ArgS (if i + 1 = length rows then '''' else '','')])) (enumerate 0 rows)
           in if format = 2 then (legacy_json_head, totals) # body @ [(legacy_json_end, [])] else body))"

section \<open>The text of a page\<close>

text \<open>A format and arguments that fit each other.\<close>

function renderable :: "bytes \<Rightarrow> farg list \<Rightarrow> bool" where
  "renderable [] args = True"
| "renderable (c # fmt) args =
     (if c \<noteq> CHR ''%'' then renderable fmt args
      else case conversion fmt args of
        None \<Rightarrow> False
      | Some (out, fmt', args') \<Rightarrow> renderable fmt' args')"
  by pat_completeness auto
termination
  by (relation "measure (\<lambda>(fmt, args). length fmt)") (auto dest!: conversion_shorter)

lemma renderable_render: "renderable fmt args \<longleftrightarrow> render fmt args \<noteq> None"
  by (induction fmt args rule: renderable.induct) (auto split: option.splits)

definition page_text :: "(bytes \<times> farg list) list \<Rightarrow> bytes" where
  "page_text ps = concat (map (\<lambda>(fmt, args). the (render fmt args)) ps)"

lemma page_text_simps [simp]:
  "page_text [] = []" "page_text ((fmt, args) # ps) = the (render fmt args) @ page_text ps"
  "page_text (ps @ qs) = page_text ps @ page_text qs"
  by (simp_all add: page_text_def)

lemma printf_text: "renderable fmt args \<Longrightarrow> wr.writes (printf fmt args) (the (render fmt args))"
  using printf_writes [of fmt args] by (auto simp: renderable_render)

lemma print_all_writes:
  assumes "\<forall>(fmt, args) \<in> set ps. renderable fmt args"
  shows "wr.writes (print_all ps) (page_text ps)"
  unfolding print_all_def page_text_def
  using assms printf_text by (intro wr.writes_each) auto

lemmas args_defs = html_row_args_def csv_row_args_def json_row_args_def prom_labels_def prom_active_args_def
  legacy_row_args_def row_color_def row_status_def row_type_def row_delays_def

lemma html_renderable:
  "renderable html_page_head []" "renderable html_http_table [ArgUi a, ArgUi b, ArgUi c]"
  "renderable html_stream_table [ArgUi a, ArgUi b, ArgUi c]" "renderable html_row (html_row_args p)"
  "renderable html_table_end []" "renderable html_page_end [ArgUi a]"
  by (simp_all add: html_page_head_def html_http_table_def html_stream_table_def html_row_def html_table_end_def
      html_page_end_def args_defs conversion_def)

lemma csv_renderable:
  "renderable csv_head []" "renderable csv_http_row (csv_row_args p)" "renderable csv_stream_row (csv_row_args p)"
  by (simp_all add: csv_head_def csv_http_row_def csv_stream_row_def args_defs conversion_def)

lemma json_renderable:
  "renderable json_head [ArgUi a, ArgUi b]" "renderable json_row (json_row_args i n p)"
  "renderable json_stream_head []" "renderable json_list_end []" "renderable json_page_end []"
  by (simp_all add: json_head_def json_row_def json_stream_head_def json_list_end_def json_page_end_def args_defs
      conversion_def)

lemma prom_renderable:
  "renderable prom_summary [ArgUi a, ArgUi b, ArgUi c, ArgUi d]"
  "renderable prom_rise_head []" "renderable prom_fall_head []" "renderable prom_active_head []"
  "renderable prom_rise_row (prom_labels t p @ [ArgUi v])" "renderable prom_fall_row (prom_labels t p @ [ArgUi v])"
  "renderable prom_active_row (prom_active_args t p)"
  by (simp_all add: prom_summary_def prom_rise_head_def prom_fall_head_def prom_active_head_def prom_rise_row_def
      prom_fall_row_def prom_active_row_def args_defs conversion_def)

lemma legacy_renderable:
  "renderable legacy_html_head [ArgUi a, ArgUi b]" "renderable legacy_html_row (row_color p # legacy_row_args p)"
  "renderable legacy_html_end []" "renderable legacy_csv_row (legacy_row_args p)"
  "renderable legacy_json_head [ArgUi a, ArgUi b]" "renderable legacy_json_row (legacy_row_args p @ [ArgS s])"
  "renderable legacy_json_end []"
  by (simp_all add: legacy_html_head_def legacy_html_row_def legacy_html_end_def legacy_csv_row_def legacy_json_head_def
      legacy_json_row_def legacy_json_end_def args_defs conversion_def)

lemma html_writes: "wr.writes (ngx_upstream_check_status_html_format snapshots flag) (page_text (html_prints snapshots flag))"
  unfolding html_as_prints
  by (rule print_all_writes) (auto simp: html_prints_def Let_def html_renderable)

lemma csv_writes: "wr.writes (ngx_upstream_check_status_csv_format snapshots flag) (page_text (csv_prints snapshots flag))"
  unfolding csv_as_prints
  by (rule print_all_writes) (auto simp: csv_prints_def csv_renderable)

lemma json_writes: "wr.writes (ngx_upstream_check_status_json_format snapshots flag) (page_text (json_prints snapshots))"
  unfolding json_as_prints
  by (rule print_all_writes) (auto simp: json_prints_def json_row_prints_def json_renderable)

lemma prom_writes:
  "wr.writes (ngx_http_upstream_check_status_prometheus_format snapshots flag) (page_text (prom_prints snapshots flag))"
  unfolding prom_as_prints
  by (rule print_all_writes) (auto simp: prom_prints_def Let_def metric_prints_def prom_renderable)

lemma legacy_writes: "wr.writes (ngx_healthcheck_legacy_output sn format) (page_text (legacy_prints sn format))"
proof -
  let ?rows = "enumerate 0 (sn_rows sn)" and ?n = "length (sn_rows sn)"
  define head where "head = (if format = 0 then [(legacy_html_head, [ArgUi (of_nat ?n), ArgUi (sn_generation sn)])]
    else if format = 2 then [(legacy_json_head, [ArgUi (of_nat ?n), ArgUi (sn_generation sn)])] else [])"
  define row where "row = (\<lambda>(i, p). if format = 0 then (legacy_html_row, row_color p # legacy_row_args p)
    else if format = 1 then (legacy_csv_row, legacy_row_args p)
    else (legacy_json_row, legacy_row_args p @ [ArgS (if i + 1 = ?n then '''' else '','')]))"
  define last where "last = (if format = 0 then [(legacy_html_end, [] :: farg list)]
    else if format = 2 then [(legacy_json_end, [])] else [])"
  have w: "wr.writes written []" using wr.writes_nothing by (simp add: written_def [abs_def])
  have 1: "wr.writes (if format = 0 then printf legacy_html_head [ArgUi (of_nat ?n), ArgUi (sn_generation sn)]
      else if format = 2 then printf legacy_json_head [ArgUi (of_nat ?n), ArgUi (sn_generation sn)] else written)
      (page_text head)"
    using w by (simp add: head_def printf_text legacy_renderable)
  have 2: "wr.writes (write_each (legacy_row format ?n) ?rows) (page_text (map row ?rows))"
  proof -
    have "legacy_row format ?n x = (\<lambda>(fmt, args). printf fmt args) (row x)" for x
      by (cases x) (simp add: legacy_row_def row_def)
    moreover have "renderable (fst (row x)) (snd (row x))" for x
      by (cases x) (simp add: row_def legacy_renderable)
    ultimately show ?thesis unfolding page_text_def map_map
      by (intro wr.writes_each) (simp add: case_prod_unfold printf_text)
  qed
  have 3: "wr.writes (if format = 0 then printf legacy_html_end [] else if format = 2 then printf legacy_json_end []
      else written) (page_text last)"
    using w by (simp add: last_def printf_text legacy_renderable)
  have e: "map (\<lambda>x. g (snd x)) ?rows = map g (sn_rows sn)" for g :: "snap_row \<Rightarrow> bytes \<times> farg list"
    unfolding map_map [of g snd, unfolded comp_def, symmetric] by simp
  have "page_text head @ page_text (map row ?rows) @ page_text last = page_text (legacy_prints sn format)"
    by (auto simp: head_def row_def last_def legacy_prints_def Let_def case_prod_unfold
        e [of "\<lambda>p. (legacy_csv_row, legacy_row_args p)"]
        e [of "\<lambda>p. (legacy_html_row, row_color p # legacy_row_args p)"])
  then show ?thesis
    unfolding ngx_healthcheck_legacy_output_def Let_def
    using wr.writes_then [OF 1 wr.writes_then [OF 2 3]] by simp
qed

end
