(* ===== verification/Pages.thy ===== *)
theory Pages
  imports Formats
begin

text \<open>
  What the pages say: the CSV page reads back as the table of the rows, the JSON page is a JSON text
  that denotes the rows, the Prometheus summary counts them, and the filter of a formatter agrees with
  the one of the snapshot.
\<close>

section \<open>Numbers in pages\<close>

lemma set_decimal: "set (decimal n) \<subseteq> digit ` {0..<10}"
proof (induction n rule: decimal.induct)
  case (1 n)
  then show ?case by (auto simp: decimal.simps [of n])
qed

lemma decimal_avoids:
  assumes "of_char c < (48 :: nat) \<or> 57 < (of_char c :: nat)"
  shows "c \<notin> set (decimal n)"
proof
  assume "c \<in> set (decimal n)"
  then obtain d where "d < 10" "c = digit d" using set_decimal [of n] by auto
  with assms of_char_digit [of d] show False by auto
qed

definition msec_text :: "u64 \<Rightarrow> bytes" where
  "msec_text v = (if v = UINT64_MAX then ''-1'' else decimal (unat v))"

lemma msec_pieces_text: "concat (msec_pieces v) = msec_text v"
  by (simp add: msec_pieces_def msec_text_def uint_digits_decimal decimal.simps digit_def char_of_def bit_Suc bit_0)

lemma msec_avoids: "of_char c < (45 :: nat) \<or> 57 < (of_char c :: nat) \<Longrightarrow> c \<notin> set (msec_text v)"
  using decimal_avoids [of c] by (auto simp: msec_text_def)

section \<open>CSV\<close>

primrec split_on :: "char \<Rightarrow> bytes \<Rightarrow> bytes list" where
  "split_on c [] = [[]]"
| "split_on c (x # xs) =
     (if x = c then [] # split_on c xs else (x # hd (split_on c xs)) # tl (split_on c xs))"

lemma split_on_nonempty [simp]: "split_on c xs \<noteq> []"
  by (induction xs) auto

lemma split_on_one: "c \<notin> set xs \<Longrightarrow> split_on c xs = [xs]"
  by (induction xs) auto

lemma split_on_append: "c \<notin> set xs \<Longrightarrow> split_on c (xs @ c # ys) = xs # split_on c ys"
  by (induction xs) auto

text \<open>The fields with a separator between them.\<close>

fun join :: "bytes \<Rightarrow> bytes list \<Rightarrow> bytes" where
  "join sep [] = []"
| "join sep [f] = f"
| "join sep (f # g # fs) = f @ sep @ join sep (g # fs)"

lemma split_on_join: "fs \<noteq> [] \<Longrightarrow> \<forall>f \<in> set fs. c \<notin> set f \<Longrightarrow> split_on c (join [c] fs) = fs"
  by (induction "[c]" fs rule: join.induct) (auto simp: split_on_one split_on_append)

text \<open>The table of a text: lines that all end with a newline, fields separated by commas.\<close>

definition csv_table :: "bytes \<Rightarrow> bytes list list" where
  "csv_table text = map (split_on CHR '','') (butlast (split_on CHR 0x0A text))"

lemma split_lines: "\<forall>l \<in> set ls. c \<notin> set l \<Longrightarrow> split_on c (concat (map (\<lambda>l. l @ [c]) ls)) = ls @ [[]]"
  by (induction ls) (auto simp: split_on_append)

lemma join_avoids: "c \<notin> set sep \<Longrightarrow> \<forall>f \<in> set fs. c \<notin> set f \<Longrightarrow> c \<notin> set (join sep fs)"
  by (induction sep fs rule: join.induct) auto

lemma csv_table_lines:
  assumes "\<forall>row \<in> set rows. row \<noteq> [] \<and> (\<forall>f \<in> set row. CHR '','' \<notin> set f \<and> CHR 0x0A \<notin> set f)"
  shows "csv_table (concat (map (\<lambda>row. join '','' row @ [CHR 0x0A]) rows)) = rows"
proof -
  have "split_on CHR 0x0A (concat (map (\<lambda>l. l @ [CHR 0x0A]) (map (join '','') rows))) = map (join '','') rows @ [[]]"
    by (rule split_lines) (use assms join_avoids in auto)
  then have "csv_table (concat (map (\<lambda>row. join '','' row @ [CHR 0x0A]) rows)) = map (split_on CHR '','') (map (join '','') rows)"
    by (simp add: csv_table_def comp_def)
  also have "\<dots> = rows" using assms split_on_join by (simp add: map_idI)
  finally show ?thesis .
qed

text \<open>The rows of the page.\<close>

definition status_text :: "snap_row \<Rightarrow> bytes" where
  "status_text p = (if h_down (sr_health p) \<noteq> 0 then ''down'' else ''up'')"

definition type_text :: "snap_row \<Rightarrow> bytes" where
  "type_text p = cc_name (the (c_check_type (sr_conf p)))"

definition csv_fields :: "bytes \<Rightarrow> snap_row \<Rightarrow> bytes list" where
  "csv_fields kind p = (let h = sr_health p in
     [decimal (unat (sr_index p)), kind, sr_upstream_name p, a_name (sr_peer_addr p), decimal (unat (h_rise_count h)),
      decimal (unat (h_fall_count h)), type_text p, decimal (unat (c_port (sr_conf p))), msec_text (h_last h),
      msec_text (h_avg h), msec_text (h_min h), msec_text (h_max h), status_text p])"

definition csv_header :: "bytes list" where
  "csv_header = [''index'', ''upstream_type'', ''upstream_name'', ''host'', ''rise'', ''fall'', ''check_type'',
     ''check_port'', ''last_delay'', ''avg_delay'', ''min_delay'', ''max_delay'', ''status'']"

lemma render_csv:
  "render csv_head [] = Some (join '','' csv_header @ [CHR 0x0A])"
  "render csv_http_row (csv_row_args p) = Some (join '','' (csv_fields ''http'' p) @ [CHR 0x0A])"
  "render csv_stream_row (csv_row_args p) = Some (join '','' (csv_fields ''stream'' p) @ [CHR 0x0A])"
  by (simp_all add: csv_head_def csv_header_def csv_http_row_def csv_stream_row_def csv_fields_def Let_def args_defs
      conversion_def uint_digits_decimal msec_pieces_text status_text_def type_text_def)

definition csv_rows :: "snapshot list \<Rightarrow> u64 \<Rightarrow> bytes list list" where
  "csv_rows snapshots flag = csv_header # map (csv_fields ''http'') (visible flag (snapshots ! 0)) @
     map (csv_fields ''stream'') (visible flag (snapshots ! 1))"

lemma csv_page_text: "page_text (csv_prints snapshots flag) =
    concat (map (\<lambda>row. join '','' row @ [CHR 0x0A]) (csv_rows snapshots flag))"
  by (simp add: csv_prints_def csv_rows_def render_csv page_text_def comp_def)

text \<open>The strings a row takes from the configuration.\<close>

definition row_names :: "snap_row \<Rightarrow> bytes list" where
  "row_names p = [sr_upstream_name p, a_name (sr_peer_addr p), type_text p]"

lemma csv_fields_clean:
  assumes "\<forall>s \<in> set (row_names p). CHR '','' \<notin> set s \<and> CHR 0x0A \<notin> set s"
    and "kind \<in> {''http'', ''stream''}" and "f \<in> set (csv_fields kind p)"
  shows "CHR '','' \<notin> set f \<and> CHR 0x0A \<notin> set f"
  using assms decimal_avoids [of "CHR '',''"] decimal_avoids [of "CHR 0x0A"] msec_avoids [of "CHR '',''"] msec_avoids [of "CHR 0x0A"]
  by (auto simp: csv_fields_def Let_def row_names_def status_text_def split: if_splits)

lemma csv_header_clean: "f \<in> set csv_header \<Longrightarrow> CHR '','' \<notin> set f \<and> CHR 0x0A \<notin> set f"
  by (auto simp: csv_header_def)

lemma csv_page_table:
  assumes "\<forall>p \<in> set (shown flag snapshots). \<forall>s \<in> set (row_names p). CHR '','' \<notin> set s \<and> CHR 0x0A \<notin> set s"
  shows "csv_table (page_text (csv_prints snapshots flag)) = csv_rows snapshots flag"
proof -
  have "row \<noteq> [] \<and> (\<forall>f \<in> set row. CHR '','' \<notin> set f \<and> CHR 0x0A \<notin> set f)"
    if "row \<in> set (csv_rows snapshots flag)" for row
  proof -
    consider "row = csv_header" | p kind where "row = csv_fields kind p" "kind \<in> {''http'', ''stream''}" "p \<in> set (shown flag snapshots)"
      using \<open>row \<in> _\<close> by (auto simp: csv_rows_def shown_def)
    then show ?thesis
    proof cases
      case 1
      then show ?thesis using csv_header_clean by (auto simp: csv_header_def)
    next
      case 2
      then have "row \<noteq> []" by (simp add: csv_fields_def Let_def)
      with 2 assms csv_fields_clean show ?thesis by blast
    qed
  qed
  then show ?thesis unfolding csv_page_text by (intro csv_table_lines) blast
qed

section \<open>JSON\<close>

text \<open>
  JSON values and their texts, for strings without escapes: every text in \<open>json_text v\<close> is a JSON
  text (RFC 8259) that denotes \<open>v\<close>.
\<close>

datatype json = JNum int | JStr bytes | JArr "json list" | JObj "(bytes \<times> json) list"

definition blank :: "bytes \<Rightarrow> bool" where
  "blank w \<longleftrightarrow> set w \<subseteq> {CHR '' '', CHR 0x0A, CHR 0x09, CHR 0x0D}"

definition plain :: "bytes \<Rightarrow> bool" where
  "plain s \<longleftrightarrow> (\<forall>c \<in> set s. c \<noteq> CHR 0x22 \<and> c \<noteq> CHR 0x5C \<and> 32 \<le> (of_char c :: nat))"

inductive json_text :: "json \<Rightarrow> bytes \<Rightarrow> bool"
  and json_items :: "json list \<Rightarrow> bytes \<Rightarrow> bool"
  and json_members :: "(bytes \<times> json) list \<Rightarrow> bytes \<Rightarrow> bool" where
  number: "json_text (JNum (int n)) (decimal n)"
| negative: "0 < n \<Longrightarrow> json_text (JNum (- int n)) (CHR ''-'' # decimal n)"
| plain_string: "plain s \<Longrightarrow> json_text (JStr s) (CHR 0x22 # s @ [CHR 0x22])"
| no_items: "blank w \<Longrightarrow> json_text (JArr []) (CHR ''['' # w @ [CHR '']''])"
| array: "json_items xs t \<Longrightarrow> json_text (JArr xs) (CHR ''['' # t @ [CHR '']''])"
| no_members: "blank w \<Longrightarrow> json_text (JObj []) (CHR ''{'' # w @ [CHR ''}''])"
| object: "json_members ms t \<Longrightarrow> json_text (JObj ms) (CHR ''{'' # t @ [CHR ''}''])"
| item: "blank a \<Longrightarrow> json_text x t \<Longrightarrow> blank b \<Longrightarrow> json_items [x] (a @ t @ b)"
| items: "blank a \<Longrightarrow> json_text x t \<Longrightarrow> blank b \<Longrightarrow> json_items xs r \<Longrightarrow> json_items (x # xs) (a @ t @ b @ CHR '','' # r)"
| member: "blank a \<Longrightarrow> plain k \<Longrightarrow> blank b \<Longrightarrow> blank c \<Longrightarrow> json_text v t \<Longrightarrow> blank d \<Longrightarrow>
    json_members [(k, v)] (a @ CHR 0x22 # k @ CHR 0x22 # b @ CHR '':'' # c @ t @ d)"
| members: "blank a \<Longrightarrow> plain k \<Longrightarrow> blank b \<Longrightarrow> blank c \<Longrightarrow> json_text v t \<Longrightarrow> blank d \<Longrightarrow> json_members ms r \<Longrightarrow>
    json_members ((k, v) # ms) (a @ CHR 0x22 # k @ CHR 0x22 # b @ CHR '':'' # c @ t @ d @ CHR '','' # r)"

definition json_document :: "json \<Rightarrow> bytes \<Rightarrow> bool" where
  "json_document v text \<longleftrightarrow> (\<exists>a t b. blank a \<and> json_text v t \<and> blank b \<and> text = a @ t @ b)"

text \<open>The layout of the page: a member has one blank behind the colon.\<close>

definition pair_text :: "bytes \<Rightarrow> bytes \<Rightarrow> bytes" where
  "pair_text k t = CHR 0x22 # k @ CHR 0x22 # CHR '':'' # CHR '' '' # t"

lemma member_pair: "blank a \<Longrightarrow> plain k \<Longrightarrow> json_text v t \<Longrightarrow> blank d \<Longrightarrow> json_members [(k, v)] (a @ pair_text k t @ d)"
  using json_text_json_items_json_members.member [of a k "[]" "'' ''" v t d] by (simp add: pair_text_def blank_def)

lemma members_pair: "blank a \<Longrightarrow> plain k \<Longrightarrow> json_text v t \<Longrightarrow> json_members ms r \<Longrightarrow>
    json_members ((k, v) # ms) (a @ pair_text k t @ CHR '','' # r)"
  using json_text_json_items_json_members.members [of a k "[]" "'' ''" v t "[]" ms r] by (simp add: pair_text_def blank_def)

lemma members_join:
  assumes "ms \<noteq> []" and "\<forall>(k, v, t) \<in> set ms. plain k \<and> json_text v t" and "blank a"
  shows "json_members (map (\<lambda>(k, v, t). (k, v)) ms) (a @ join '', '' (map (\<lambda>(k, v, t). pair_text k t) ms))"
  using assms
proof (induction ms arbitrary: a)
  case (Cons m ms)
  obtain k v t where m: "m = (k, v, t)" by (cases m) auto
  show ?case
  proof (cases ms)
    case Nil
    then show ?thesis using Cons.prems m member_pair [of a k v t "[]"] by (simp add: blank_def)
  next
    case (Cons m' ms')
    have "json_members (map (\<lambda>(k, v, t). (k, v)) ms) ('' '' @ join '', '' (map (\<lambda>(k, v, t). pair_text k t) ms))"
      by (rule Cons.IH) (use Cons.prems Cons in \<open>auto simp: blank_def\<close>)
    with Cons.prems m members_pair [of a k v t] Cons show ?thesis by simp
  qed
qed simp

definition string_text :: "bytes \<Rightarrow> bytes" where
  "string_text s = CHR 0x22 # s @ [CHR 0x22]"

definition msec_value :: "u64 \<Rightarrow> int" where
  "msec_value v = (if v = UINT64_MAX then - 1 else uint v)"

lemma json_uint: "json_text (JNum (uint v)) (decimal (unat v))" for v :: u64
  using json_text_json_items_json_members.number [of "unat v"] by simp

lemma json_msec: "json_text (JNum (msec_value v)) (msec_text v)"
proof (cases "v = UINT64_MAX")
  case True
  have "decimal 1 = ''1''" by (simp add: decimal.simps digit_def char_of_def bit_Suc bit_0)
  then show ?thesis
    using True json_text_json_items_json_members.negative [of 1] by (simp add: msec_value_def msec_text_def)
next
  case False
  then show ?thesis by (simp add: msec_value_def msec_text_def json_uint)
qed

text \<open>A row: names, values and texts of its members.\<close>

definition row_common :: "snap_row \<Rightarrow> (bytes \<times> json \<times> bytes) list" where
  "row_common p = (let h = sr_health p; number = (\<lambda>v. (JNum (uint v), decimal (unat v)));
        str = (\<lambda>s. (JStr s, string_text s)) in
     [(''index'', number (sr_index p)), (''upstream'', str (sr_upstream_name p)), (''name'', str (a_name (sr_peer_addr p))),
      (''status'', str (status_text p)), (''rise'', number (h_rise_count h)), (''fall'', number (h_fall_count h)),
      (''type'', str (type_text p)), (''port'', number (c_port (sr_conf p)))])"

definition row_delay_members :: "snap_row \<Rightarrow> (bytes \<times> json \<times> bytes) list" where
  "row_delay_members p = (let h = sr_health p; msec = (\<lambda>v. (JNum (msec_value v), msec_text v)) in
     [(''last_delay_ms'', msec (h_last h)), (''avg_delay_ms'', msec (h_avg h)), (''min_delay_ms'', msec (h_min h)),
      (''max_delay_ms'', msec (h_max h))])"

definition object_of :: "(bytes \<times> json \<times> bytes) list \<Rightarrow> json" where
  "object_of ms = JObj (map (\<lambda>(k, v, t). (k, v)) ms)"

definition object_text :: "(bytes \<times> json \<times> bytes) list \<Rightarrow> bytes" where
  "object_text ms = CHR ''{'' # join '', '' (map (\<lambda>(k, v, t). pair_text k t) ms) @ ''}''"

lemma object_json: "ms \<noteq> [] \<Longrightarrow> \<forall>(k, v, t) \<in> set ms. plain k \<and> json_text v t \<Longrightarrow> json_text (object_of ms) (object_text ms)"
  using json_text_json_items_json_members.object [OF members_join [of ms "[]"]]
  by (simp add: object_of_def object_text_def blank_def)

lemma row_members_json:
  assumes "\<forall>s \<in> set (row_names p). plain s"
  shows "\<forall>(k, v, t) \<in> set (row_common p @ row_delay_members p). plain k \<and> json_text v t"
proof -
  have "json_text (JStr s) (string_text s)" if "plain s" for s
    using json_text_json_items_json_members.plain_string [OF that] by (simp add: string_text_def)
  moreover have "plain (status_text p)" by (simp add: plain_def status_text_def)
  moreover have "\<forall>k \<in> fst ` set (row_common p @ row_delay_members p). plain k"
    by (simp add: row_common_def row_delay_members_def Let_def plain_def)
  ultimately show ?thesis using assms json_msec json_uint
    by (simp add: row_common_def row_delay_members_def Let_def row_names_def)
qed

text \<open>The rows of an array, each on a line of its own.\<close>

definition line_text :: "(snap_row \<Rightarrow> bytes) \<Rightarrow> nat \<Rightarrow> nat \<times> snap_row \<Rightarrow> bytes" where
  "line_text f number = (\<lambda>(i, p). ''    '' @ f p @ (if i + 1 = number then '''' else '','') @ [CHR 0x0A])"

lemma lines_items:
  assumes "rows \<noteq> []" and "\<forall>p \<in> set rows. json_text (v p) (f p)" and "blank a" and "blank b"
  shows "json_items (map v rows) (a @ concat (map (line_text f (n + length rows)) (enumerate n rows)) @ b)"
  using assms
proof (induction rows arbitrary: n a)
  case (Cons p ps)
  note g = json_text_json_items_json_members.item json_text_json_items_json_members.items
  show ?case
  proof (cases ps)
    case Nil
    have "blank (a @ ''    '')" "blank (CHR 0x0A # b)" using Cons.prems(3,4) by (simp_all add: blank_def)
    from g(1) [OF this(1) _ this(2), of "v p" "f p"] Cons.prems(2) Nil show ?thesis by (simp add: line_text_def)
  next
    case (Cons q qs)
    have "blank (a @ ''    '')" "blank [CHR 0x0A]" "blank []" using Cons.prems(3) by (simp_all add: blank_def)
    moreover have "json_items (map v ps) ([CHR 0x0A] @ concat (map (line_text f (Suc n + length ps)) (enumerate (Suc n) ps)) @ b)"
      by (rule Cons.IH) (use Cons.prems Cons \<open>blank [CHR 0x0A]\<close> in auto)
    ultimately have "json_items (v p # map v ps) ((a @ ''    '') @ f p @ [] @ CHR '','' #
        [CHR 0x0A] @ concat (map (line_text f (Suc n + length ps)) (enumerate (Suc n) ps)) @ b)"
      using Cons.prems(2) by (intro g(2)) simp_all
    then show ?thesis using Cons by (simp add: line_text_def)
  qed
qed simp

lemma lines_array:
  assumes "\<forall>p \<in> set rows. json_text (v p) (f p)"
  shows "json_text (JArr (map v rows))
    (CHR ''['' # CHR 0x0A # concat (map (line_text f (length rows)) (enumerate 0 rows)) @ ''  ]'')"
proof (cases "rows = []")
  case True
  then show ?thesis
    using json_text_json_items_json_members.no_items [of "CHR 0x0A # ''  ''"] by (simp add: blank_def)
next
  case False
  have "json_items (map v rows) ([CHR 0x0A] @ concat (map (line_text f (0 + length rows)) (enumerate 0 rows)) @ ''  '')"
    using False assms by (intro lines_items) (simp_all add: blank_def)
  from json_text_json_items_json_members.array [OF this] show ?thesis by simp
qed

lemma string_text_append: "string_text s @ r = CHR 0x22 # s @ CHR 0x22 # r"
  by (simp add: string_text_def)

lemma render_json:
  "the (render json_head [ArgUi n, ArgUi g]) = ''{\"servers\": {'' @ [CHR 0x0A] @ ''  '' @
     pair_text ''total'' (decimal (unat n)) @ '','' @ [CHR 0x0A] @ ''  '' @ pair_text ''generation'' (decimal (unat g)) @
     '','' @ [CHR 0x0A] @ ''  '' @ pair_text ''http'' [CHR ''['', CHR 0x0A]"
  "the (render json_stream_head []) = ''  ],'' @ [CHR 0x0A] @ ''  '' @ pair_text ''stream'' [CHR ''['', CHR 0x0A]"
  "the (render json_list_end []) = ''  ]'' @ [CHR 0x0A]"
  "the (render json_page_end []) = ''}}'' @ [CHR 0x0A]"
  by (simp_all add: json_head_def json_stream_head_def json_list_end_def json_page_end_def conversion_def pair_text_def
      uint_digits_decimal)

lemma render_json_row: "the (render json_row (json_row_args i n p)) =
    line_text (\<lambda>p. object_text (row_common p @ row_delay_members p)) n (i, p)"
  by (simp add: json_row_def args_defs conversion_def uint_digits_decimal msec_pieces_text line_text_def object_text_def
      row_common_def row_delay_members_def Let_def pair_text_def string_text_append status_text_def type_text_def)

lemma render_legacy_json_row: "the (render legacy_json_row (legacy_row_args p @ [ArgS (if i + 1 = n then '''' else '','')])) =
    line_text (\<lambda>p. object_text (row_common p)) n (i, p)"
  by (simp add: legacy_json_row_def args_defs conversion_def uint_digits_decimal line_text_def object_text_def
      row_common_def Let_def pair_text_def string_text_append status_text_def type_text_def)

text \<open>The value of the page.\<close>

definition row_json :: "snap_row \<Rightarrow> json" where
  "row_json p = object_of (row_common p @ row_delay_members p)"

definition json_page :: "snapshot list \<Rightarrow> json" where
  "json_page snapshots = JObj [(''servers'', JObj
     [(''total'', JNum (uint (of_nat (length (sn_rows (snapshots ! 0)) + length (sn_rows (snapshots ! 1))) :: u64))),
      (''generation'', JNum (uint (pages_generation snapshots))),
      (''http'', JArr (map row_json (sn_rows (snapshots ! 0)))),
      (''stream'', JArr (map row_json (sn_rows (snapshots ! 1))))])]"

lemma rows_page_text: "page_text (json_row_prints rows) =
    concat (map (line_text (\<lambda>p. object_text (row_common p @ row_delay_members p)) (length rows)) (enumerate 0 rows))"
  unfolding json_row_prints_def page_text_def map_map
  by (intro arg_cong [of _ _ concat] map_cong) (auto simp: render_json_row)

lemma rows_json_array:
  assumes "\<forall>p \<in> set rows. \<forall>s \<in> set (row_names p). plain s"
  shows "json_text (JArr (map row_json rows)) (CHR ''['' # CHR 0x0A # page_text (json_row_prints rows) @ ''  ]'')"
  unfolding rows_page_text
proof (rule lines_array, intro ballI)
  fix p
  assume "p \<in> set rows"
  with assms have "\<forall>(k, v, t) \<in> set (row_common p @ row_delay_members p). plain k \<and> json_text v t"
    by (intro row_members_json) blast
  then show "json_text (row_json p) (object_text (row_common p @ row_delay_members p))"
    unfolding row_json_def by (intro object_json) (simp add: row_delay_members_def Let_def)
qed

lemma json_page_document:
  assumes "\<forall>sn \<in> {snapshots ! 0, snapshots ! 1}. \<forall>p \<in> set (sn_rows sn). \<forall>s \<in> set (row_names p). plain s"
  shows "json_document (json_page snapshots) (page_text (json_prints snapshots))"
proof -
  let ?h = "CHR ''['' # CHR 0x0A # page_text (json_row_prints (sn_rows (snapshots ! 0))) @ ''  ]''"
  let ?s = "CHR ''['' # CHR 0x0A # page_text (json_row_prints (sn_rows (snapshots ! 1))) @ ''  ]''"
  let ?n = "of_nat (length (sn_rows (snapshots ! 0)) + length (sn_rows (snapshots ! 1))) :: u64"
  have b: "blank (CHR 0x0A # ''  '')" "blank [CHR 0x0A]" "blank []" by (simp_all add: blank_def)
  have k: "plain ''servers''" "plain ''total''" "plain ''generation''" "plain ''http''" "plain ''stream''"
    by (simp_all add: plain_def)
  have h: "json_text (JArr (map row_json (sn_rows (snapshots ! 0)))) ?h"
    and s: "json_text (JArr (map row_json (sn_rows (snapshots ! 1)))) ?s"
    using assms by (simp_all add: rows_json_array)
  note inner = members_pair [OF b(1) k(2) json_uint [of ?n] members_pair [OF b(1) k(3) json_uint [of "pages_generation snapshots"]
        members_pair [OF b(1) k(4) h member_pair [OF b(1) k(5) s b(2)]]]]
  note outer = json_text_json_items_json_members.object
    [OF member_pair [OF b(3) k(1) json_text_json_items_json_members.object [OF inner] b(3)]]
  show ?thesis
    unfolding json_document_def json_page_def
    by (rule exI [of _ "[]"], rule exI, rule exI [of _ "[CHR 0x0A]"], intro conjI, rule b(3), rule outer, rule b(2))
      (simp add: json_prints_def render_json pair_text_def)
qed

text \<open>The old page, format 2.\<close>

definition legacy_json_page :: "snapshot \<Rightarrow> json" where
  "legacy_json_page sn = JObj [(''servers'', JObj
     [(''total'', JNum (uint (of_nat (length (sn_rows sn)) :: u64))),
      (''generation'', JNum (uint (sn_generation sn))),
      (''server'', JArr (map (\<lambda>p. object_of (row_common p)) (sn_rows sn)))])]"

lemma render_legacy_json:
  "the (render legacy_json_head [ArgUi n, ArgUi g]) = ''{\"servers\": {'' @ [CHR 0x0A] @ ''  '' @
     pair_text ''total'' (decimal (unat n)) @ '','' @ [CHR 0x0A] @ ''  '' @ pair_text ''generation'' (decimal (unat g)) @
     '','' @ [CHR 0x0A] @ ''  '' @ pair_text ''server'' [CHR ''['', CHR 0x0A]"
  "the (render legacy_json_end []) = ''  ]'' @ [CHR 0x0A] @ ''}}'' @ [CHR 0x0A]"
  by (simp_all add: legacy_json_head_def legacy_json_end_def conversion_def pair_text_def uint_digits_decimal)

lemma legacy_json_document:
  assumes "\<forall>p \<in> set (sn_rows sn). \<forall>s \<in> set (row_names p). plain s"
  shows "json_document (legacy_json_page sn) (page_text (legacy_prints sn 2))"
proof -
  define body where "body = concat (map (line_text (\<lambda>p. object_text (row_common p)) (length (sn_rows sn))) (enumerate 0 (sn_rows sn)))"
  have body: "page_text (map (\<lambda>(i, p). (legacy_json_row, legacy_row_args p @
      [ArgS (if i + 1 = length (sn_rows sn) then '''' else '','')])) (enumerate 0 (sn_rows sn))) = body"
    unfolding body_def page_text_def map_map
    by (intro arg_cong [of _ _ concat] map_cong) (auto simp del: ab_semigroup_add_class.add_ac simp: render_legacy_json_row [simplified])
  have b: "blank (CHR 0x0A # ''  '')" "blank [CHR 0x0A]" "blank []" by (simp_all add: blank_def)
  have k: "plain ''servers''" "plain ''total''" "plain ''generation''" "plain ''server''" by (simp_all add: plain_def)
  have h: "json_text (JArr (map (\<lambda>p. object_of (row_common p)) (sn_rows sn))) (CHR ''['' # CHR 0x0A # body @ ''  ]'')"
    unfolding body_def
  proof (rule lines_array, intro ballI)
    fix p
    assume "p \<in> set (sn_rows sn)"
    with assms row_members_json [of p] have "\<forall>(k, v, t) \<in> set (row_common p). plain k \<and> json_text v t" by auto
    then show "json_text (object_of (row_common p)) (object_text (row_common p))"
      by (intro object_json) (simp add: row_common_def Let_def)
  qed
  note inner = members_pair [OF b(1) k(2) json_uint [of "of_nat (length (sn_rows sn)) :: u64"]
      members_pair [OF b(1) k(3) json_uint [of "sn_generation sn"] member_pair [OF b(1) k(4) h b(2)]]]
  note outer = json_text_json_items_json_members.object
    [OF member_pair [OF b(3) k(1) json_text_json_items_json_members.object [OF inner] b(3)]]
  show ?thesis
    unfolding json_document_def legacy_json_page_def
    by (rule exI [of _ "[]"], rule exI, rule exI [of _ "[CHR 0x0A]"], intro conjI, rule b(3), rule outer, rule b(2))
      (simp add: legacy_prints_def Let_def body [simplified] render_legacy_json pair_text_def)
qed

section \<open>The filters agree\<close>

lemma selected_visible: "filter (\<lambda>p. \<not> row_skipped flag (sr_health p)) (selected flag ps hs) = selected flag ps hs"
  unfolding selected_def by (intro filter_True) (auto simp: row_of_def split: if_splits)

lemma visible_selected: "snapshot_of P src flag sn hs \<Longrightarrow> visible flag sn = selected flag (so_peers src) hs"
  by (simp add: visible_def snapshot_of_def selected_visible)

section \<open>Properties\<close>

text \<open>
  \<open>f\<close> writes \<open>out\<close>: exactly these bytes are added on success, a prefix of them on failure, and failure
  means that the pool or the length limit left no room for them.
\<close>

definition writes_page :: "(writer \<Rightarrow> ngx_rc \<times> writer) \<Rightarrow> bytes \<Rightarrow> bool" where
  "writes_page f out \<longleftrightarrow> (\<forall>w rc w'. writer_wf w \<longrightarrow> f w = (rc, w') \<longrightarrow>
     (if rc = NGX_OK then writer_wf w' \<and> wr_bytes w' = wr_bytes w @ out
      else (\<exists>k. wr_bytes w' = wr_bytes w @ take k out) \<and> \<not> writer_room (length out) w))"

lemma writes_pageI:
  assumes "wr.writes f out"
  shows "writes_page f out"
  unfolding writes_page_def
proof (intro allI impI)
  fix w rc w'
  assume w: "writer_wf w" and f: "f w = (rc, w')"
  note d = wr.writesD [OF assms w]
  show "if rc = NGX_OK then writer_wf w' \<and> wr_bytes w' = wr_bytes w @ out
      else (\<exists>k. wr_bytes w' = wr_bytes w @ take k out) \<and> \<not> writer_room (length out) w"
    using d(1) [of w'] d(2) [OF f] d(3) [of 0] f by auto
qed

text \<open>C37. Every page is a fixed text of its snapshots, whatever the block boundaries: no format of the five
  formatters has a conversion its arguments do not fit, so a formatter can fail only for lack of room.\<close>

theorem pages_never_malformed:
  "writes_page (ngx_upstream_check_status_html_format snapshots flag) (page_text (html_prints snapshots flag)) \<and>
   writes_page (ngx_upstream_check_status_csv_format snapshots flag) (page_text (csv_prints snapshots flag)) \<and>
   writes_page (ngx_upstream_check_status_json_format snapshots flag) (page_text (json_prints snapshots)) \<and>
   writes_page (ngx_http_upstream_check_status_prometheus_format snapshots flag) (page_text (prom_prints snapshots flag)) \<and>
   writes_page (ngx_healthcheck_legacy_output sn format) (page_text (legacy_prints sn format))"
  by (simp add: writes_pageI html_writes csv_writes json_writes prom_writes legacy_writes)

text \<open>C34. The CSV page reads back, line by line and comma by comma, as the header and the fields of exactly
  the rows that pass the filter, if no configured name holds a comma or a newline.\<close>

theorem csv_roundtrip:
  assumes "\<forall>p \<in> set (shown flag snapshots). \<forall>s \<in> set (row_names p). CHR '','' \<notin> set s \<and> CHR 0x0A \<notin> set s"
  shows "\<exists>out. writes_page (ngx_upstream_check_status_csv_format snapshots flag) out \<and>
    csv_table out = csv_rows snapshots flag"
  using csv_page_table [OF assms] writes_pageI [OF csv_writes] by blast

text \<open>C35. The JSON page is a JSON text for the value \<open>json_page\<close>: the totals, and for every row an object
  with its names, counters, status and delays, if no configured name needs an escape.\<close>

theorem json_page_valid:
  assumes "\<forall>sn \<in> {snapshots ! 0, snapshots ! 1}. \<forall>p \<in> set (sn_rows sn). \<forall>s \<in> set (row_names p). plain s"
  shows "\<exists>out. writes_page (ngx_upstream_check_status_json_format snapshots flag) out \<and>
    json_document (json_page snapshots) out"
  using json_page_document [OF assms] writes_pageI [OF json_writes] by blast

text \<open>C36. The same for the JSON form of the old page.\<close>

theorem legacy_json_valid:
  assumes "\<forall>p \<in> set (sn_rows sn). \<forall>s \<in> set (row_names p). plain s"
  shows "\<exists>out. writes_page (ngx_healthcheck_legacy_output sn 2) out \<and> json_document (legacy_json_page sn) out"
  using legacy_json_document [OF assms] writes_pageI [OF legacy_writes] by blast

text \<open>C38. The Prometheus summary: the total is the number of rows that the metrics list, and the sum of
  those that are up and those that are down.\<close>

theorem prometheus_summary_counts:
  "case prom_count flag (sn_rows (snapshots ! 1)) (prom_count flag (sn_rows (snapshots ! 0)) (0, 0, 0)) of
     (n, up, down) \<Rightarrow> n = up + down \<and> n = of_nat (length (shown flag snapshots)) \<and>
       down = of_nat (length (filter (\<lambda>p. h_down (sr_health p) \<noteq> 0) (shown flag snapshots)))"
  by (simp add: prom_count_rows shown_def Let_def)

section \<open>Witnesses\<close>

definition demo_row :: snap_row where
  "demo_row = \<lparr>sr_index = 1, sr_upstream_name = ''u'', sr_peer_addr = \<lparr>a_sockaddr = ''s'', a_name = ''n''\<rparr>,
     sr_conf = demo_conf, sr_health = ps_health zero_peer_state\<rparr>"

definition demo_snapshots :: "snapshot list" where
  "demo_snapshots = [zero_snapshot\<lparr>sn_rows := [demo_row], sn_total := 1, sn_next := 1, sn_up := 1\<rparr>, zero_snapshot]"

lemmas demo_page_defs = demo_snapshots_def zero_snapshot_def demo_row_def row_names_def type_text_def demo_conf_def

theorem csv_roundtrip_witness: "\<exists>out. csv_table out = csv_rows demo_snapshots 0"
proof -
  have "\<forall>p \<in> set (shown 0 demo_snapshots). \<forall>s \<in> set (row_names p). CHR '','' \<notin> set s \<and> CHR 0x0A \<notin> set s"
    by (simp add: shown_def visible_def demo_page_defs)
  from csv_roundtrip [OF this] show ?thesis by blast
qed

theorem json_page_valid_witness: "\<exists>out. json_document (json_page demo_snapshots) out"
proof -
  have "\<forall>sn \<in> {demo_snapshots ! 0, demo_snapshots ! 1}. \<forall>p \<in> set (sn_rows sn). \<forall>s \<in> set (row_names p). plain s"
    by (simp add: demo_page_defs plain_def)
  from json_page_valid [OF this] show ?thesis by blast
qed

theorem legacy_json_valid_witness: "\<exists>out. json_document (legacy_json_page (demo_snapshots ! 0)) out"
proof -
  have "\<forall>p \<in> set (sn_rows (demo_snapshots ! 0)). \<forall>s \<in> set (row_names p). plain s"
    by (simp add: demo_page_defs plain_def)
  from legacy_json_valid [OF this] show ?thesis by blast
qed

section \<open>A name that breaks the page\<close>

text \<open>
  A JSON text without backslashes has an even number of quotes.  The formatter copies a name with a
  quote as it is, so its page is no JSON text of any value.
\<close>

lemma no_quotes:
  "blank w \<Longrightarrow> count_list w CHR 0x22 = 0" "plain s \<Longrightarrow> count_list s CHR 0x22 = 0" "count_list (decimal n) CHR 0x22 = 0"
  using decimal_avoids [of "CHR 0x22"] by (auto simp: count_list_0_iff blank_def plain_def)

lemma even_quotes:
  "json_text v t \<Longrightarrow> even (count_list t CHR 0x22)" "json_items vs u \<Longrightarrow> even (count_list u CHR 0x22)"
  "json_members ms r \<Longrightarrow> even (count_list r CHR 0x22)"
  by (induction rule: json_text_json_items_json_members.inducts) (simp_all add: no_quotes)

definition quoted_snapshots :: "snapshot list" where
  "quoted_snapshots = [zero_snapshot\<lparr>sn_rows := [demo_row\<lparr>sr_upstream_name := ''a\"b''\<rparr>]\<rparr>, zero_snapshot]"

lemma json_quote_breaks_page: "\<not> json_document v (page_text (json_prints quoted_snapshots))"
proof
  assume "json_document v (page_text (json_prints quoted_snapshots))"
  then obtain a t b where "blank a" "json_text v t" "blank b" "page_text (json_prints quoted_snapshots) = a @ t @ b"
    unfolding json_document_def by blast
  then have "even (count_list (page_text (json_prints quoted_snapshots)) CHR 0x22)"
    using even_quotes(1) by (simp add: no_quotes)
  moreover have "odd (count_list (page_text (json_prints quoted_snapshots)) CHR 0x22)"
    by (simp add: json_prints_def json_row_prints_def quoted_snapshots_def zero_snapshot_def render_json render_json_row
        line_text_def object_text_def row_common_def row_delay_members_def Let_def pair_text_def string_text_def no_quotes
        msec_text_def status_text_def type_text_def demo_row_def demo_conf_def)
  ultimately show False by simp
qed

end
