(* ===== verification/Modules.thy ===== *)
theory Modules
  imports Zone Request Pages Lifecycle
begin

text \<open>
  The nginx modules around the components: the status interface of \<^verbatim>\<open>ngx_healthcheck_status.c\<close> (directive,
  arguments, format table, request handler), and the HTTP and stream check modules (registration of
  servers, the down query of request routing, process start, reload and exit, the old status page).
\<close>

section \<open>The status interface\<close>

text \<open>\<^verbatim>\<open>ngx_check_status_conf_t\<close>; a location's format is \<open>None\<close> for \<^verbatim>\<open>NGX_CONF_UNSET_PTR\<close>.\<close>

record page_format =
  pf_format :: bytes
  pf_content_type :: bytes
  pf_output :: "snapshot list \<Rightarrow> u64 \<Rightarrow> writer \<Rightarrow> ngx_rc \<times> writer"

definition ngx_check_status_formats :: "page_format list" where
  "ngx_check_status_formats =
     [\<lparr>pf_format = ''html'', pf_content_type = ''text/html'', pf_output = ngx_upstream_check_status_html_format\<rparr>,
      \<lparr>pf_format = ''csv'', pf_content_type = ''text/plain'', pf_output = ngx_upstream_check_status_csv_format\<rparr>,
      \<lparr>pf_format = ''json'', pf_content_type = ''application/json'', pf_output = ngx_upstream_check_status_json_format\<rparr>,
      \<lparr>pf_format = ''prometheus'', pf_content_type = ''text/plain'',
        pf_output = ngx_http_upstream_check_status_prometheus_format\<rparr>]"

text \<open>
  \<^verbatim>\<open>ngx_strncmp\<close> over the length of a name, which has no zero byte, is equality of the two strings.
\<close>

definition ngx_http_get_check_status_format_conf :: "bytes \<Rightarrow> page_format option" where
  "ngx_http_get_check_status_format_conf str =
     find (\<lambda>f. length str = length (pf_format f) \<and> str = pf_format f) ngx_check_status_formats"

definition ngx_upstream_check_create_loc_conf :: "bool \<Rightarrow> page_format option option" where
  "ngx_upstream_check_create_loc_conf alloc = (if alloc then Some None else None)"

definition ngx_upstream_check_merge_loc_conf :: "page_format option \<Rightarrow> page_format option \<Rightarrow> page_format option" where
  "ngx_upstream_check_merge_loc_conf prev conf =
     (case conf of
        Some f \<Rightarrow> Some f
      | None \<Rightarrow> (case prev of Some f \<Rightarrow> Some f | None \<Rightarrow> ngx_http_get_check_status_format_conf ''html''))"

text \<open>The directive: its words, then the result, whether the handler is installed, the location's format.\<close>

definition ngx_upstream_check_status :: "bytes list \<Rightarrow> page_format option \<Rightarrow> string + (bool \<times> page_format option)" where
  "ngx_upstream_check_status words conf =
     (if length words = 2 then
        (case ngx_http_get_check_status_format_conf (words ! 1) of
           None \<Rightarrow> Inl ''invalid check format''
         | Some f \<Rightarrow> Inr (True, Some f))
      else Inr (True, conf))"

record status_ctx =
  sx_format :: "page_format option"
  sx_flag :: u64

abbreviation (input) NGX_CHECK_STATUS_DOWN :: u64 where "NGX_CHECK_STATUS_DOWN \<equiv> 1"
abbreviation (input) NGX_CHECK_STATUS_UP :: u64 where "NGX_CHECK_STATUS_UP \<equiv> 2"

definition ngx_upstream_check_status_command_format :: "status_ctx \<Rightarrow> bytes \<Rightarrow> ngx_rc \<times> status_ctx" where
  "ngx_upstream_check_status_command_format ctx v =
     (let f = ngx_http_get_check_status_format_conf v
      in (if f = None then NGX_ERROR else NGX_OK, ctx\<lparr>sx_format := f\<rparr>))"

definition ngx_upstream_check_status_command_status :: "ngx_lib \<Rightarrow> status_ctx \<Rightarrow> bytes \<Rightarrow> ngx_rc \<times> status_ctx" where
  "ngx_upstream_check_status_command_status lib ctx v =
     (if length v = 4 \<and> l_strncasecmp lib v ''down'' (length v) = 0
      then (NGX_OK, ctx\<lparr>sx_flag := sx_flag ctx OR NGX_CHECK_STATUS_DOWN\<rparr>)
      else if length v = 2 \<and> l_strncasecmp lib v ''up'' (length v) = 0
      then (NGX_OK, ctx\<lparr>sx_flag := sx_flag ctx OR NGX_CHECK_STATUS_UP\<rparr>)
      else (NGX_ERROR, ctx))"

definition ngx_check_status_commands :: "ngx_lib \<Rightarrow> (bytes \<times> (status_ctx \<Rightarrow> bytes \<Rightarrow> ngx_rc \<times> status_ctx)) list" where
  "ngx_check_status_commands lib =
     [(''format'', ngx_upstream_check_status_command_format), (''status'', ngx_upstream_check_status_command_status lib)]"

text \<open>
  A request: its method, the answer of \<^verbatim>\<open>ngx_http_discard_request_body\<close>, whether there are arguments, and
  \<^verbatim>\<open>ngx_http_arg\<close> by name.
\<close>

record http_call =
  hc_method :: u64
  hc_discard :: http_rc
  hc_args :: bytes
  hc_arg :: "bytes \<Rightarrow> bytes option"

abbreviation (input) NGX_HTTP_GET :: u64 where "NGX_HTTP_GET \<equiv> 2"
abbreviation (input) NGX_HTTP_HEAD :: u64 where "NGX_HTTP_HEAD \<equiv> 4"
abbreviation (input) NGX_HTTP_NOT_ALLOWED :: http_rc where "NGX_HTTP_NOT_ALLOWED \<equiv> 405"

text \<open>A handler's error only logs; it may still have changed the context.\<close>

definition run_command :: "http_call \<Rightarrow> bytes \<times> (status_ctx \<Rightarrow> bytes \<Rightarrow> ngx_rc \<times> status_ctx) \<Rightarrow> status_ctx \<Rightarrow> status_ctx" where
  "run_command call command ctx =
     (case hc_arg call (fst command) of
        None \<Rightarrow> ctx
      | Some v \<Rightarrow> snd (snd command ctx v))"

definition ngx_upstream_check_status_parse_args :: "ngx_lib \<Rightarrow> http_call \<Rightarrow> status_ctx \<Rightarrow> status_ctx" where
  "ngx_upstream_check_status_parse_args lib call ctx =
     (if hc_args call = [] then ctx else fold (run_command call) (ngx_check_status_commands lib) ctx)"

text \<open>
  The handler; \<open>conf\<close> is the merged format of the location.  The result is the code, the content type if
  it was set, and the state of the request if one was started.
\<close>

definition ngx_upstream_check_status_handler :: "ngx_lib \<Rightarrow> http_call \<Rightarrow> page_format \<Rightarrow> source option \<Rightarrow> source option \<Rightarrow>
    (nat \<Rightarrow> zone_view) \<Rightarrow> http \<Rightarrow> http_rc \<times> bytes option \<times> request option" where
  "ngx_upstream_check_status_handler lib call conf http_peers stream_peers zones h =
     (if hc_method call \<noteq> NGX_HTTP_GET \<and> hc_method call \<noteq> NGX_HTTP_HEAD then (NGX_HTTP_NOT_ALLOWED, None, None)
      else if hc_discard call \<noteq> 0 then (hc_discard call, None, None)
      else let (ok, t) = next_alloc (ht_pool h) in
        if \<not> ok then (NGX_HTTP_INTERNAL_SERVER_ERROR, None, None)
        else let ctx = ngx_upstream_check_status_parse_args lib call \<lparr>sx_format = None, sx_flag = 0\<rparr>;
                 f = (case sx_format ctx of None \<Rightarrow> conf | Some f \<Rightarrow> f);
                 (rc, r) = ngx_healthcheck_status_request (h\<lparr>ht_pool := t\<rparr>) [http_peers, stream_peers] (sx_flag ctx)
                   (\<lambda>snapshots. pf_output f snapshots (sx_flag ctx)) zones
             in (rc, Some (pf_content_type f), Some r))"

section \<open>The HTTP check module\<close>

text \<open>An upstream's \<^verbatim>\<open>srv_conf\<close>: absent, or with the configuration of this module, which may be absent.\<close>

definition ngx_http_upstream_check_enabled :: "srv_conf option option \<Rightarrow> bool" where
  "ngx_http_upstream_check_enabled upstream =
     (case upstream of
        None \<Rightarrow> False
      | Some conf \<Rightarrow> (case conf of None \<Rightarrow> False | Some c \<Rightarrow> c_check_interval c \<noteq> 0))"

definition ngx_http_upstream_check_add_peer ::
  "ngx_lib \<Rightarrow> (nat \<Rightarrow> bool) \<Rightarrow> main_conf \<Rightarrow> srv_conf option option \<Rightarrow> bytes \<Rightarrow> addr \<Rightarrow> u64 \<times> main_conf" where
  "ngx_http_upstream_check_add_peer lib alloc main upstream host address =
     (if \<not> ngx_http_upstream_check_enabled upstream then (UINT64_MAX, main)
      else ngx_healthcheck_add_peer lib alloc main (the upstream) host address)"

text \<open>What a process has bound: its peers and the zone, or nothing.\<close>

type_synonym binding = "(source \<times> peers_shm) option"

definition ngx_http_upstream_check_peer_down :: "binding \<Rightarrow> u64 \<Rightarrow> bool" where
  "ngx_http_upstream_check_peer_down http_peers_ctx index =
     (case http_peers_ctx of
        None \<Rightarrow> False
      | Some (peers, shm) \<Rightarrow>
          if index \<ge> of_nat (length (so_peers peers)) then False
          else if \<not> so_attached peers (unat index) then False
          else sh_published (shm_peers shm (unat index)) AND 2 \<noteq> 0)"

definition ngx_http_upstream_check_init_main_conf ::
  "main_conf \<Rightarrow> shm_zone list list option \<Rightarrow> nat \<Rightarrow> bool list \<Rightarrow> zone_error + zone_request" where
  "ngx_http_upstream_check_init_main_conf main old_cycle tag t = ngx_healthcheck_configure_zone main old_cycle tag 1 t"

text \<open>The kind of the process, and the process state that belongs to the bound peers.\<close>

datatype process_kind = Single | Master | Signaller | Worker | Helper

definition ngx_http_upstream_check_init_process ::
  "process_kind \<Rightarrow> init_env \<Rightarrow> process option \<Rightarrow> process option \<Rightarrow> ngx_rc \<times> process option" where
  "ngx_http_upstream_check_init_process kind env main http_peers_ctx =
     (if kind \<noteq> Worker \<and> kind \<noteq> Single then (NGX_OK, http_peers_ctx)
      else case main of
        None \<Rightarrow> (NGX_OK, None)
      | Some peers \<Rightarrow> (let (rc, w) = run_state (ngx_healthcheck_runtime_init env) peers in (rc, Some w)))"

text \<open>The first component is what becomes of the process state, the second the binding.\<close>

definition ngx_http_upstream_check_init_module :: "process option \<Rightarrow> process option \<times> process option" where
  "ngx_http_upstream_check_init_module http_peers_ctx =
     (map_option (\<lambda>w. snd (run_state ngx_healthcheck_runtime_stop w)) http_peers_ctx, None)"

definition ngx_http_upstream_check_exit_process :: "process_kind \<Rightarrow> process option \<Rightarrow> process option" where
  "ngx_http_upstream_check_exit_process kind http_peers_ctx =
     (if kind = Worker \<or> kind = Single
      then map_option (\<lambda>w. snd (run_state ngx_healthcheck_runtime_stop w)) http_peers_ctx
      else http_peers_ctx)"

text \<open>The formats of the old page by number.\<close>

fun format_loop :: "u64 \<Rightarrow> bytes list \<Rightarrow> bytes \<Rightarrow> u64 option" where
  "format_loop i [] v = None"
| "format_loop i (name # names) v =
     (if length v = length name \<and> v = name then Some i else format_loop (i + 1) names v)"

definition ngx_http_upstream_check_format :: "bytes \<Rightarrow> u64 option" where
  "ngx_http_upstream_check_format v = format_loop 0 [''html'', ''csv'', ''json''] v"

definition ngx_http_upstream_check_create_loc_conf :: "bool \<Rightarrow> u64 option option" where
  "ngx_http_upstream_check_create_loc_conf alloc = (if alloc then Some None else None)"

definition ngx_http_upstream_check_merge_loc_conf :: "u64 option \<Rightarrow> u64 option \<Rightarrow> u64" where
  "ngx_http_upstream_check_merge_loc_conf previous conf =
     (case conf of Some f \<Rightarrow> f | None \<Rightarrow> (case previous of Some f \<Rightarrow> f | None \<Rightarrow> 0))"

definition ngx_http_upstream_check_status :: "bytes list \<Rightarrow> u64 option \<Rightarrow> string + (bool \<times> u64 option)" where
  "ngx_http_upstream_check_status words conf =
     (if length words = 2 then
        (case ngx_http_upstream_check_format (words ! 1) of
           None \<Rightarrow> Inl ''invalid check format''
         | Some f \<Rightarrow> Inr (True, Some f))
      else Inr (True, conf))"

definition status_flag :: "ngx_lib \<Rightarrow> bytes option \<Rightarrow> u64" where
  "status_flag lib arg =
     (case arg of
        None \<Rightarrow> 0
      | Some v \<Rightarrow> if length v = 4 \<and> l_strncasecmp lib v ''down'' 4 = 0 then 1
                  else if length v = 2 \<and> l_strncasecmp lib v ''up'' 2 = 0 then 2
                  else 0)"

definition ngx_http_upstream_check_status_handler :: "ngx_lib \<Rightarrow> http_call \<Rightarrow> u64 \<Rightarrow> source option \<Rightarrow> (nat \<Rightarrow> zone_view) \<Rightarrow> http \<Rightarrow>
    http_rc \<times> bytes option \<times> request option" where
  "ngx_http_upstream_check_status_handler lib call conf http_peers zones h =
     (if hc_method call \<noteq> NGX_HTTP_GET \<and> hc_method call \<noteq> NGX_HTTP_HEAD then (NGX_HTTP_NOT_ALLOWED, None, None)
      else if hc_discard call \<noteq> 0 then (hc_discard call, None, None)
      else let format = (case hc_arg call ''format'' of
                 None \<Rightarrow> conf
               | Some v \<Rightarrow> (case ngx_http_upstream_check_format v of None \<Rightarrow> conf | Some f \<Rightarrow> f));
               flag = status_flag lib (hc_arg call ''status'');
               content_type = [''text/html'', ''text/plain'', ''application/json''] ! unat format
           in case http_peers of
                None \<Rightarrow> (NGX_HTTP_INTERNAL_SERVER_ERROR, Some content_type, None)
              | Some peers \<Rightarrow>
                  (let (rc, r) = ngx_healthcheck_status_request h [Some peers] flag
                        (\<lambda>snapshots. ngx_healthcheck_legacy_output (snapshots ! 0) format) zones
                   in (rc, Some content_type, Some r)))"

section \<open>The stream check module\<close>

definition ngx_stream_upstream_check_enabled :: "srv_conf option option \<Rightarrow> bool" where
  "ngx_stream_upstream_check_enabled upstream =
     (case upstream of
        None \<Rightarrow> False
      | Some conf \<Rightarrow> (case conf of None \<Rightarrow> False | Some c \<Rightarrow> c_check_interval c \<noteq> 0))"

definition ngx_stream_upstream_check_add_peer ::
  "ngx_lib \<Rightarrow> (nat \<Rightarrow> bool) \<Rightarrow> main_conf \<Rightarrow> srv_conf option option \<Rightarrow> bytes \<Rightarrow> addr \<Rightarrow> u64 \<times> main_conf" where
  "ngx_stream_upstream_check_add_peer lib alloc main upstream host address =
     (if \<not> ngx_stream_upstream_check_enabled upstream then (UINT64_MAX, main)
      else ngx_healthcheck_add_peer lib alloc main (the upstream) host address)"

definition ngx_stream_upstream_check_peer_down :: "binding \<Rightarrow> u64 \<Rightarrow> bool" where
  "ngx_stream_upstream_check_peer_down stream_peers_ctx index =
     (case stream_peers_ctx of
        None \<Rightarrow> False
      | Some (peers, shm) \<Rightarrow>
          if index \<ge> of_nat (length (so_peers peers)) then False
          else if \<not> so_attached peers (unat index) then False
          else sh_published (shm_peers shm (unat index)) AND 2 \<noteq> 0)"

definition ngx_stream_upstream_check_init_main_conf ::
  "main_conf \<Rightarrow> shm_zone list list option \<Rightarrow> nat \<Rightarrow> bool list \<Rightarrow> zone_error + zone_request" where
  "ngx_stream_upstream_check_init_main_conf main old_cycle tag t = ngx_healthcheck_configure_zone main old_cycle tag 2 t"

definition ngx_stream_upstream_check_init_process ::
  "process_kind \<Rightarrow> init_env \<Rightarrow> process option \<Rightarrow> process option \<Rightarrow> ngx_rc \<times> process option" where
  "ngx_stream_upstream_check_init_process kind env main stream_peers_ctx =
     (if kind \<noteq> Worker \<and> kind \<noteq> Single then (NGX_OK, stream_peers_ctx)
      else case main of
        None \<Rightarrow> (NGX_OK, None)
      | Some peers \<Rightarrow> (let (rc, w) = run_state (ngx_healthcheck_runtime_init env) peers in (rc, Some w)))"

definition ngx_stream_upstream_check_init_module :: "process option \<Rightarrow> process option \<times> process option" where
  "ngx_stream_upstream_check_init_module stream_peers_ctx =
     (map_option (\<lambda>w. snd (run_state ngx_healthcheck_runtime_stop w)) stream_peers_ctx, None)"

definition ngx_stream_upstream_check_exit_process :: "process_kind \<Rightarrow> process option \<Rightarrow> process option" where
  "ngx_stream_upstream_check_exit_process kind stream_peers_ctx =
     (if kind = Worker \<or> kind = Single
      then map_option (\<lambda>w. snd (run_state ngx_healthcheck_runtime_stop w)) stream_peers_ctx
      else stream_peers_ctx)"

section \<open>Requests for a page\<close>

lemma parse_args_format:
  assumes "hc_args call \<noteq> []" and "hc_arg call ''format'' = Some v"
  shows "sx_format (ngx_upstream_check_status_parse_args lib call ctx) = ngx_http_get_check_status_format_conf v"
  using assms
  by (simp add: ngx_upstream_check_status_parse_args_def ngx_check_status_commands_def run_command_def
      ngx_upstream_check_status_command_format_def ngx_upstream_check_status_command_status_def Let_def split: option.split)

lemma handler_request:
  assumes "ngx_upstream_check_status_handler lib call conf http_peers stream_peers zones h = (rc, ct, Some r)"
    and "hc_args call \<noteq> []" and "hc_arg call ''format'' = Some v"
    and "ngx_http_get_check_status_format_conf v = Some f"
  obtains pool where "ngx_healthcheck_status_request (h\<lparr>ht_pool := pool\<rparr>) [http_peers, stream_peers] (rq_flag r)
      (\<lambda>snapshots. pf_output f snapshots (rq_flag r)) zones = (rc, r)" "ct = Some (pf_content_type f)"
proof -
  let ?ctx = "ngx_upstream_check_status_parse_args lib call \<lparr>sx_format = None, sx_flag = 0\<rparr>"
  obtain ok t where a: "next_alloc (ht_pool h) = (ok, t)" by fastforce
  obtain rc' r' where q: "ngx_healthcheck_status_request (h\<lparr>ht_pool := t\<rparr>) [http_peers, stream_peers] (sx_flag ?ctx)
      (\<lambda>snapshots. pf_output f snapshots (sx_flag ?ctx)) zones = (rc', r')" by fastforce
  have "sx_format ?ctx = Some f" using parse_args_format [OF assms(2,3)] assms(4) by simp
  then have "rc' = rc" "r' = r" "ct = Some (pf_content_type f)"
    using assms(1) a q by (auto simp: ngx_upstream_check_status_handler_def Let_def split: if_splits)
  moreover have "rq_flag r' = sx_flag ?ctx" using status_request_job [OF q] by simp
  ultimately show thesis using that [of t] q by simp
qed

lemma csv_format: "ngx_http_get_check_status_format_conf ''csv'' =
    Some \<lparr>pf_format = ''csv'', pf_content_type = ''text/plain'', pf_output = ngx_upstream_check_status_csv_format\<rparr>"
  by (simp add: ngx_http_get_check_status_format_conf_def ngx_check_status_formats_def)

lemma writer_init: "writer_wf (ngx_healthcheck_status_writer_init pool)" "wr_bytes (ngx_healthcheck_status_writer_init pool) = []"
  by (simp_all add: ngx_healthcheck_status_writer_init_def writer_wf_def wr_bytes_def)

definition peer_names :: "peer_conf \<Rightarrow> bytes list" where
  "peer_names p = [p_upstream_name p, a_name (p_addr p), cc_name (the (c_check_type (p_conf p)))]"

lemma selected_names: "p \<in> set (selected flag ps hs) \<Longrightarrow> \<exists>q \<in> set ps. row_names p = peer_names q"
  by (force simp: selected_def row_of_def row_names_def type_text_def peer_names_def split: if_splits dest: set_zip_leftD)

text \<open>\<open>hs\<close> are health records of all peers of a module, each of a state that the zone had.\<close>

definition health_seen :: "(peers_shm \<Rightarrow> bool) \<Rightarrow> source \<Rightarrow> health list \<Rightarrow> bool" where
  "health_seen P src hs \<longleftrightarrow> length hs = length (so_peers src) \<and>
     (\<forall>i < length hs. \<exists>s. P s \<and> hs ! i = ps_health (peer_now s i))"

lemma full_seen:
  assumes "snap_full P flag (Some src) sn"
  obtains hs where "health_seen P src hs" "visible flag sn = selected flag (so_peers src) hs"
  using assms visible_selected by (fastforce simp: snap_full_def health_seen_def snapshot_of_def)

section \<open>Routing\<close>

lemma down_bit_query:
  assumes "records_ok shm"
  shows "sh_published (shm_peers shm i) AND 2 \<noteq> 0 \<longleftrightarrow> h_down (ps_health (peer_now shm i)) \<noteq> 0"
  using assms by (simp add: records_ok_def record_ok_def down_bit_ok_def peer_now_def)

section \<open>Properties\<close>

text \<open>C5. What request routing sees: for a bound peer the lock-free query answers exactly the down flag
  of the record that the protocol published last, in every zone that processes of \<open>A\<close> can reach;
  without a binding, behind the array or for a peer without a record it answers up.  The stream module
  answers the same.\<close>

theorem routing_reads_record:
  assumes "\<forall>peers shm. ctx = Some (peers, shm) \<longrightarrow> (\<exists>A s ls. records_ok s \<and> trace A s ls shm)"
  shows "(ngx_http_upstream_check_peer_down ctx index \<longleftrightarrow>
      (\<exists>peers shm. ctx = Some (peers, shm) \<and> index < of_nat (length (so_peers peers)) \<and>
         so_attached peers (unat index) \<and> h_down (ps_health (peer_now shm (unat index))) \<noteq> 0)) \<and>
    ngx_stream_upstream_check_peer_down ctx index = ngx_http_upstream_check_peer_down ctx index"
proof (cases ctx)
  case (Some b)
  obtain peers shm where b: "b = (peers, shm)" by fastforce
  have "records_ok shm" using assms Some b records_ok_trace by blast
  with Some b down_bit_query show ?thesis
    by (auto simp: ngx_http_upstream_check_peer_down_def ngx_stream_upstream_check_peer_down_def not_le)
qed (simp add: ngx_http_upstream_check_peer_down_def ngx_stream_upstream_check_peer_down_def)

text \<open>C17. A request for the CSV page, from the handler to the bytes on the wire: whatever the zones go
  through while the request is suspended and resumed, the body that is sent reads back as the header and
  one line for each peer of the HTTP and then of the stream module that the status argument selects, in
  configuration order, with a health record that the peer's zone really held.\<close>

theorem status_csv_end_to_end:
  assumes "ngx_upstream_check_status_handler lib call conf (Some src0) (Some src1) zones h = (rc, ct, Some r)"
    and "hc_args call \<noteq> []" and "hc_arg call ''format'' = Some ''csv''"
    and "ht_response h = None" and "\<forall>m. guarded (P m) (zones m)"
    and "\<forall>c \<in> set cs. \<forall>m. guarded (P m) (ch_zones c m)"
    and "\<forall>p \<in> set (so_peers src0) \<union> set (so_peers src1). \<forall>s \<in> set (peer_names p). CHR '','' \<notin> set s \<and> CHR 0x0A \<notin> set s"
    and "ht_response (resume_all cs r) = Some page" and "rp_body page = Some blocks"
  shows "\<exists>hs0 hs1. health_seen (P 0) src0 hs0 \<and> health_seen (P 1) src1 hs1 \<and>
    csv_table (concat blocks) = csv_header # map (csv_fields ''http'') (selected (rq_flag r) (so_peers src0) hs0) @
      map (csv_fields ''stream'') (selected (rq_flag r) (so_peers src1) hs1)"
proof -
  let ?flag = "rq_flag r"
  obtain pool where req: "ngx_healthcheck_status_request (h\<lparr>ht_pool := pool\<rparr>) [Some src0, Some src1] ?flag
      (\<lambda>snapshots. ngx_upstream_check_status_csv_format snapshots ?flag) zones = (rc, r)"
    using handler_request [OF assms(1-3) csv_format] by auto
  have "ht_response (h\<lparr>ht_pool := pool\<rparr>) = None" using assms(4) by simp
  from page_complete [OF req this assms(5,6,8)] obtain snaps pool' w where
    full: "\<forall>m < length [Some src0, Some src1]. snap_full (P m) ?flag ([Some src0, Some src1] ! m) (snaps ! m)"
    and w: "ngx_upstream_check_status_csv_format snaps ?flag (ngx_healthcheck_status_writer_init pool') = (NGX_OK, w)"
    and body: "rp_body page \<in> {None, Some (wr_blocks w)}" by blast
  have "snap_full (P 0) ?flag (Some src0) (snaps ! 0)" "snap_full (P 1) ?flag (Some src1) (snaps ! 1)"
    using full by (auto dest: spec [of _ 0] spec [of _ 1])
  then obtain hs0 hs1 where hs: "health_seen (P 0) src0 hs0" "visible ?flag (snaps ! 0) = selected ?flag (so_peers src0) hs0"
    "health_seen (P 1) src1 hs1" "visible ?flag (snaps ! 1) = selected ?flag (so_peers src1) hs1"
    by (elim full_seen) blast
  have "concat blocks = page_text (csv_prints snaps ?flag)"
    using wr.writesD(1) [OF csv_writes writer_init(1) w] body assms(9)
    by (simp add: wr_bytes_def ngx_healthcheck_status_writer_init_def)
  moreover have "csv_table (page_text (csv_prints snaps ?flag)) = csv_rows snaps ?flag"
  proof (rule csv_page_table, intro ballI)
    fix p s
    assume "p \<in> set (shown ?flag snaps)" and s: "s \<in> set (row_names p)"
    then obtain src hs where "p \<in> set (selected ?flag (so_peers src) hs)" "src \<in> {src0, src1}"
      unfolding shown_def hs by auto
    with selected_names obtain q where "q \<in> set (so_peers src0) \<union> set (so_peers src1)" "row_names p = peer_names q" by blast
    with assms(7) s show "CHR '','' \<notin> set s \<and> CHR 0x0A \<notin> set s" by simp
  qed
  ultimately show ?thesis using hs by (auto simp: csv_rows_def)
qed

text \<open>C15. After the exit callback of a worker nothing of the checker happens any more: no event that is
  still delivered changes the process or the zone.\<close>

theorem exit_process_quiesces:
  assumes "kind = Worker \<or> kind = Single" and "r_present w" and "\<not> r_cleaned w"
    and "ngx_http_upstream_check_exit_process kind (Some w) = Some w'" and "\<forall>e \<in> set es. entry_possible w' e"
  shows "run_state (run_entries tunable es) w' = ((), w')"
proof (rule stopped_entries)
  show "stopped w'"
    using runtime_stop_releases [OF assms(2,3)] assms(1,4) by (auto simp: ngx_http_upstream_check_exit_process_def)
qed (rule assms(5))

section \<open>Witnesses\<close>

theorem routing_reads_record_witness:
  "\<not> ngx_http_upstream_check_peer_down (Some (demo_source, zero_peers_shm)) 0"
proof -
  have "\<forall>peers shm. Some (demo_source, zero_peers_shm) = Some (peers, shm) \<longrightarrow> (\<exists>A s ls. records_ok s \<and> trace A s ls shm)"
    using trace_nil zero_records_ok by blast
  from routing_reads_record [OF this, of 0] show ?thesis
    by (simp add: peer_now_zero zero_peer_state_def zero_health_def)
qed

theorem exit_process_quiesces_witness:
  "run_state (run_entries True [Shutdown, WatchTimer]) (the (ngx_http_upstream_check_exit_process Worker (Some demo_process))) =
     ((), the (ngx_http_upstream_check_exit_process Worker (Some demo_process)))"
proof (rule exit_process_quiesces)
  show "r_present demo_process" "\<not> r_cleaned demo_process" by (simp_all add: demo_process_def)
  show "ngx_http_upstream_check_exit_process Worker (Some demo_process) =
      Some (the (ngx_http_upstream_check_exit_process Worker (Some demo_process)))"
    by (simp add: ngx_http_upstream_check_exit_process_def)
qed (simp_all add: ngx_http_upstream_check_exit_process_def)

definition demo_call :: http_call where
  "demo_call = \<lparr>hc_method = NGX_HTTP_GET, hc_discard = 0, hc_args = ''format=csv'',
     hc_arg = (\<lambda>n. if n = ''format'' then Some ''csv'' else None)\<rparr>"

definition demo_conf_format :: page_format where
  "demo_conf_format = \<lparr>pf_format = ''html'', pf_content_type = ''text/html'', pf_output = ngx_upstream_check_status_html_format\<rparr>"

text \<open>Both modules have one peer and their locks are free.\<close>

definition demo_zones :: "nat \<Rightarrow> zone_view" where
  "demo_zones = demo_view [] [(True, id)]"

definition demo_rows :: "snapshot list" where
  "demo_rows = (let sn = \<lparr>sn_rows = [row_of (hd (so_peers demo_source)) (ps_health zero_peer_state)],
     sn_generation = 3, sn_total = 1, sn_up = 1, sn_next = 1\<rparr> in [sn, sn])"

lemma demo_csv_text: "0 < length (page_text (csv_prints demo_rows 0))" "length (page_text (csv_prints demo_rows 0)) < 1000"
  by (simp_all add: csv_page_text csv_rows_def demo_rows_def Let_def visible_def row_skipped_def csv_header_def csv_fields_def
      row_of_def demo_source_def demo_conf_def zero_peer_state_def zero_health_def type_text_def status_text_def
      msec_text_def decimal.simps)

lemma one_block:
  assumes "0 < n" and "n < 1000"
  shows "writer_room n (ngx_healthcheck_status_writer_init [True, True, True])"
proof -
  have "(n + 131072 - 1) div 131072 = 1" using assms by (intro div_nat_eqI) simp_all
  then have "blocks_for n = 1" by (simp add: blocks_for_def NGX_HEALTHCHECK_STATUS_BLOCK_SIZE_def)
  moreover have "replicate (3 * 1) True = [True, True, True]" by (simp add: numeral_3_eq_3)
  moreover have "n < 2 ^ 63" using assms(2) by simp
  ultimately show ?thesis
    unfolding writer_room_def ngx_healthcheck_status_writer_init_def wr_bytes_def by auto
qed

lemma demo_csv: "\<exists>w. ngx_upstream_check_status_csv_format demo_rows 0 (ngx_healthcheck_status_writer_init [True, True, True]) =
    (NGX_OK, w) \<and> wr_blocks w \<noteq> []"
proof -
  let ?w = "ngx_healthcheck_status_writer_init [True, True, True]" and ?n = "length (page_text (csv_prints demo_rows 0))"
  have "writer_room (?n + 0) ?w" unfolding add_0_right by (rule one_block [OF demo_csv_text])
  then obtain w where w: "ngx_upstream_check_status_csv_format demo_rows 0 ?w = (NGX_OK, w)"
    using wr.writesD(3) [OF csv_writes writer_init(1)] by blast
  have "wr_bytes w = page_text (csv_prints demo_rows 0)"
    using wr.writesD(1) [OF csv_writes writer_init(1) w] by (simp add: writer_init)
  then have "wr_blocks w \<noteq> []" using demo_csv_text(1) by (auto simp: wr_bytes_def)
  with w show ?thesis by blast
qed

definition demo_page_request :: request where
  "demo_page_request = snd (ngx_healthcheck_status_request (demo_http\<lparr>ht_pool := [True, True, True, True]\<rparr>)
     [Some demo_source, Some demo_source] 0 (\<lambda>snapshots. ngx_upstream_check_status_csv_format snapshots 0) demo_zones)"

lemma demo_handler:
  "\<exists>rc. ngx_upstream_check_status_handler demo_lib demo_call demo_conf_format (Some demo_source) (Some demo_source)
     demo_zones demo_http = (rc, Some ''text/plain'', Some demo_page_request)"
  by (simp add: ngx_upstream_check_status_handler_def demo_call_def demo_http_def next_alloc_def Let_def
      ngx_upstream_check_status_parse_args_def ngx_check_status_commands_def run_command_def
      ngx_upstream_check_status_command_format_def csv_format demo_page_request_def split_beta)

lemma demo_response: "\<exists>page blocks. ht_response demo_page_request = Some page \<and> rp_body page = Some blocks"
proof -
  obtain w where w: "ngx_upstream_check_status_csv_format demo_rows 0 (ngx_healthcheck_status_writer_init [True, True, True]) =
      (NGX_OK, w)" "wr_blocks w \<noteq> []" using demo_csv by blast
  note w1 = w(1) [unfolded ngx_healthcheck_status_writer_init_def demo_rows_def demo_source_def Let_def, simplified]
  have z: "k_shm v = zero_peers_shm \<Longrightarrow> shm_peer_state i v = zero_peer_state" for i and v :: zone_view
    by (simp add: shm_peer_state_def zero_peers_shm_def zero_peer_shm_def peer_current_def slot_get_def)
  have d: "h_down (ps_health zero_peer_state) = 0" by (simp add: zero_peer_state_def zero_health_def)
  show ?thesis
    using w by (simp add: demo_page_request_def demo_zones_def request_evaluation w1 z d)
qed

theorem status_csv_end_to_end_witness:
  "\<exists>page blocks hs. ht_response demo_page_request = Some page \<and> rp_body page = Some blocks \<and>
     health_seen (\<lambda>_. True) demo_source hs \<and> hd (csv_table (concat blocks)) = csv_header"
proof -
  obtain page blocks where b: "ht_response demo_page_request = Some page" "rp_body page = Some blocks"
    using demo_response by blast
  obtain rc where h: "ngx_upstream_check_status_handler demo_lib demo_call demo_conf_format (Some demo_source)
      (Some demo_source) demo_zones demo_http = (rc, Some ''text/plain'', Some demo_page_request)" using demo_handler by blast
  have "\<exists>hs0 hs1. health_seen ((\<lambda>_ _. True) (0::nat)) demo_source hs0 \<and> health_seen ((\<lambda>_ _. True) (1::nat)) demo_source hs1 \<and>
      csv_table (concat blocks) = csv_header #
        map (csv_fields ''http'') (selected (rq_flag demo_page_request) (so_peers demo_source) hs0) @
        map (csv_fields ''stream'') (selected (rq_flag demo_page_request) (so_peers demo_source) hs1)"
    by (rule status_csv_end_to_end [OF h, of "\<lambda>_ _. True" "[]" page blocks])
      (use b in \<open>simp_all add: demo_call_def demo_http_def guarded_def demo_source_def peer_names_def demo_conf_def\<close>)
  with b show ?thesis by auto
qed

end
