(* ===== verification/Spec2Isabelle.thy ===== *)
theory Spec2Isabelle
  imports Delay Zone Lifecycle Request Pages Modules
begin

text \<open>
  A verification development for an nginx module that checks upstream servers actively: worker processes
  probe the configured peers over TCP and UDP, agree through shared memory on who probes which peer and
  on its health, and HTTP handlers report the health as HTML, CSV, JSON or Prometheus text.  The source
  files are named relative to the root of the repository.

  \<^bold>\<open>The program.\<close>  The \<^verbatim>\<open>check\<close> directive (\<^verbatim>\<open>configuration/ngx_healthcheck_config.c\<close>) gives every
  upstream its parameters; each of its servers becomes a peer with an index.  At start and at every
  reload the master builds a zone of shared memory per module (\<^verbatim>\<open>runtime/ngx_healthcheck_zone.c\<close>) with
  one record per peer and per worker, and peers inherit the health they had in the previous zone by
  identity (\<^verbatim>\<open>ngx_healthcheck_common.c\<close>).  A worker registers itself, then its timers claim rounds:
  under a lock of its worker record and one of the peer (\<^verbatim>\<open>runtime/ngx_healthcheck_state.c\<close>) it writes
  its name into the record, probes without locks (\<^verbatim>\<open>protocol/*.c\<close>), and submits the result if the round
  is still its own; a watch timer takes over peers whose owner has not come back in time
  (\<^verbatim>\<open>runtime/ngx_healthcheck_schedule.c\<close>).  Request routing reads one published word without a lock.
  A status request collects copies of the records in batches (\<^verbatim>\<open>status/*.c\<close>), suspending itself on
  contention, and prints them (\<^verbatim>\<open>ngx_healthcheck_status.c\<close>, \<^verbatim>\<open>ngx_healthcheck_status_writer.c\<close>).

  \<^bold>\<open>Theories.\<close>
  \<^item> \<open>Prelude\<close>: 64-bit words and their overflow tests, byte strings, decimal numbers, allocation tapes.
  \<^item> \<open>Delay\<close>: \<^verbatim>\<open>ngx_healthcheck_update_delay\<close> with its rescaling loop.  Lemmas: the statistics stay well
    formed, are exact until the first rescaling, and the update always succeeds.
  \<^item> \<open>ShmState\<close>: the records of the zone, saturating time, the lock with its time limit and recovery
    from dead holders, publication in two slots.  The locale \<open>two_phase_cell\<close> states what a reader of
    a two-slot cell relies on; it is interpreted for peer and worker records.
  \<^item> \<open>Config\<close>: the directive parser as a function on the list of parameters, with its defaults and
    cross-checks; registration of peers.
  \<^item> \<open>Identity\<close>: hashing, the index whose nodes are consumed one by one (locale \<open>matching_index\<close>), the
    search for the latest zone.
  \<^item> \<open>Zone\<close>: generation and name of a zone, its contents, inheritance.
  \<^item> \<open>Rounds\<close>: the decisions taken under the locks as functions of the record they read.
  \<^item> \<open>Process\<close>, \<open>Runtime\<close>, \<open>Probe\<close>, \<open>Schedule\<close>: one process as a state monad over the record \<open>process\<close>;
    every handler of the runtime, of the TCP and UDP protocols and of the scheduler.
  \<^item> \<open>Protocol\<close>: the abstract specification, a step relation on the zone whose steps are the critical
    sections of \<open>Rounds\<close>, with any number of processes interleaved, killed and restarted.  Invariants of
    all traces: rounds are committed once, stale owners are fenced, cadence, grace before takeover.
  \<^item> \<open>Guarantee\<close>, \<open>Lifecycle\<close>: every handler moves the zone along steps of the protocol and gives back
    its locks (locale \<open>composable\<close>, proved handler by handler), so the invariants hold for the code;
    stopping releases everything and is final; a finished probe is published when locks are free.
  \<^item> \<open>Writer\<close>: the chain of blocks and the formatted print; the locale \<open>byte_sink\<close> is what the formatters
    rely on.  Lemmas: exact bytes, least number of blocks, prefix on failure, success where there is room.
  \<^item> \<open>Snapshot\<close>, \<open>Request\<close>: resumable collection and the life of a status request.  Lemmas: only complete
    pages are sent, progress, throttling of the log.
  \<^item> \<open>Formats\<close>, \<open>Pages\<close>: the formatters with the format strings of the source, shown equal to lists of
    prints; CSV reads back, JSON is derived in a grammar of JSON texts when the names hold no quote or
    backslash (a lemma shows a name for which the page is not JSON), Prometheus totals count.
  \<^item> \<open>Modules\<close>: status directive, arguments and handler, and the callbacks of the HTTP and stream modules;
    theorems that span components: routing reads what the protocol published, a CSV request from the
    handler to the bytes of the response, quiescence after the exit callback.

  \<^bold>\<open>Correspondence.\<close>  Definitions carry the names of the functions they model; a part of a long function
  that has a definition of its own is named after what it does.  C structures are records, C enumerations
  datatypes, integers words of their width.  Functions that change state take the state and return it;
  result codes are the datatype \<open>ngx_rc\<close>.

  \<^bold>\<open>The environment.\<close>  Clock readings, attempts to take a lock (with what other processes did to the zone
  meanwhile), looks at a lock holder, allocations, random numbers and system calls are answered from
  tapes, lists in the state that are consumed entry by entry.  A theorem about all tapes is one about all
  behaviours of the environment.  An exhausted tape fails, so that loops that could spin for ever on the
  clock end with the tape; no other fuel is used.  nginx's string and address functions are the record
  \<open>ngx_lib\<close> with their documented ranges as hypotheses.  The network byte order, structure sizes and the
  process type are parameters.

  \<^bold>\<open>Not modelled.\<close>  Log messages (except the throttled warning of a waiting request), the tables of
  directives and callbacks that nginx reads, file descriptors and the event loop below the handlers, the
  patch to nginx's balancers, build files.  Memory is not modelled below records and byte strings: the
  pool is a tape of successes and failures, and pointers into the configuration are the values they
  point to.
\<close>

end
